(* ===== verification/Prelude.thy ===== *)
theory Prelude
  imports Main "HOL-Library.AList" "HOL-Library.Sublist" "HOL-Library.Multiset" "HOL-Library.Char_ord" "HOL-Library.List_Lexorder"
begin

text \<open>
  Shared vocabulary of the development.  Go's \<^verbatim>\<open>string\<close> and \<^verbatim>\<open>[]byte\<close> are both byte
  sequences, so both are \<^typ>\<open>string\<close> here (a HOL character is one byte).  A Go
  \<^verbatim>\<open>error\<close> value is its message; a call that returns \<^verbatim>\<open>(T, error)\<close> is a sum with the
  message on the left.  A Go map whose iteration order is visible to the code is an
  association list with distinct keys (the list order is one possible iteration order);
  \<^verbatim>\<open>AList.update\<close> and \<^verbatim>\<open>AList.delete\<close> are assignment and \<^verbatim>\<open>delete\<close>.  The rest of the
  theory collects facts on lists and association lists that several components use.
\<close>

section \<open>Types\<close>

type_synonym bytes = string
type_synonym error = string
type_synonym 'a result = "error + 'a"
type_synonym 'v dict = "(string \<times> 'v) list"

named_theorems go_simps "evaluation rules for the Go standard library layer"
named_theorems frame_simps "what an operation leaves unchanged"

section \<open>Integers at their Go width\<close>

text \<open>Go's \<^verbatim>\<open>int64\<close> arithmetic wraps; \<^verbatim>\<open>Time.Sub\<close> saturates instead.\<close>

definition int64_min :: int where
  "int64_min = - (2 ^ 63)"

definition int64_max :: int where
  "int64_max = 2 ^ 63 - 1"

definition wrap64 :: "int \<Rightarrow> int" where
  "wrap64 n = (n + 2 ^ 63) mod 2 ^ 64 - 2 ^ 63"

definition sat64 :: "int \<Rightarrow> int" where
  "sat64 n = max int64_min (min int64_max n)"

definition in_int64 :: "int \<Rightarrow> bool" where
  "in_int64 n \<longleftrightarrow> int64_min \<le> n \<and> n \<le> int64_max"

lemma wrap64_id [simp]: "in_int64 n \<Longrightarrow> wrap64 n = n"
  by (simp add: wrap64_def in_int64_def int64_min_def int64_max_def)

lemma sat64_id [simp]: "in_int64 n \<Longrightarrow> sat64 n = n"
  by (simp add: sat64_def in_int64_def)

lemma wrap64_range: "in_int64 (wrap64 n)"
proof -
  have "0 \<le> (n + 2 ^ 63) mod 2 ^ 64" "(n + 2 ^ 63) mod 2 ^ 64 < (2 :: int) ^ 64"
    by (rule pos_mod_sign, simp) (rule pos_mod_bound, simp)
  then show ?thesis
    unfolding in_int64_def wrap64_def int64_min_def int64_max_def by auto
qed

lemma sat64_range: "in_int64 (sat64 n)"
  by (simp add: sat64_def in_int64_def int64_min_def int64_max_def)

section \<open>Association lists as Go maps\<close>

abbreviation distinct_keys :: "'v dict \<Rightarrow> bool" where
  "distinct_keys m \<equiv> distinct (map fst m)"

lemma map_of_update [simp]: "map_of (AList.update k v m) = (map_of m)(k \<mapsto> v)"
  by (rule update_conv')

lemma map_of_delete [simp]: "map_of (AList.delete k m) = (map_of m)(k := None)"
  by (rule delete_conv')

lemma distinct_keys_update [simp]: "distinct_keys m \<Longrightarrow> distinct_keys (AList.update k v m)"
  by (rule distinct_update)

lemma distinct_keys_delete [simp]: "distinct_keys m \<Longrightarrow> distinct_keys (AList.delete k m)"
  by (rule distinct_delete)

lemma distinct_keys_filter [simp]: "distinct_keys m \<Longrightarrow> distinct_keys (filter P m)"
  by (rule distinct_map_filter)

lemma map_of_filter_key:
  "distinct_keys m \<Longrightarrow>
   map_of (filter P m) k = (case map_of m k of None \<Rightarrow> None | Some v \<Rightarrow> if P (k, v) then Some v else None)"
proof (induction m)
  case Nil
  then show ?case by simp
next
  case (Cons p m)
  then have "map_of m (fst p) = None"
    by (simp add: map_of_eq_None_iff)
  with Cons show ?case
    by (cases p) (auto split: option.splits)
qed

text \<open>Copying a map entry by entry into another.\<close>

lemma map_of_fold_update:
  "distinct_keys xs \<Longrightarrow>
   map_of (fold (\<lambda>(k, v) d. AList.update k v d) xs d) k = (case map_of xs k of None \<Rightarrow> map_of d k | Some v \<Rightarrow> Some v)"
proof (induction xs arbitrary: d)
  case Nil
  then show ?case by simp
next
  case (Cons p xs)
  then have "map_of xs (fst p) = None" by (simp add: map_of_eq_None_iff)
  with Cons show ?case by (cases p) (auto split: option.splits)
qed

section \<open>Lists\<close>

lemma takeWhile_append_stop:
  "\<forall>x\<in>set xs. P x \<Longrightarrow> \<not> P y \<Longrightarrow> takeWhile P (xs @ y # ys) = xs"
  by (simp add: takeWhile_append2)

lemma dropWhile_append_stop:
  "\<forall>x\<in>set xs. P x \<Longrightarrow> \<not> P y \<Longrightarrow> dropWhile P (xs @ y # ys) = y # ys"
  by (simp add: dropWhile_append2)

text \<open>A separator that occurs in neither left part splits a concatenation uniquely.\<close>

lemma append_sep_inject:
  assumes "xs @ c # ys = xs' @ c # ys'" and "c \<notin> set xs" and "c \<notin> set xs'"
  shows "xs = xs' \<and> ys = ys'"
proof -
  have "takeWhile (\<lambda>x. x \<noteq> c) (xs @ c # ys) = xs" "takeWhile (\<lambda>x. x \<noteq> c) (xs' @ c # ys') = xs'"
    using assms(2,3) by (auto intro!: takeWhile_append_stop)
  with assms(1) have "xs = xs'" by simp
  with assms(1) show ?thesis by simp
qed

lemma append_sep_inject_right:
  assumes "xs @ c # ys = xs' @ c # ys'" and "c \<notin> set ys" and "c \<notin> set ys'"
  shows "xs = xs' \<and> ys = ys'"
proof -
  have "rev ys @ c # rev xs = rev ys' @ c # rev xs'"
    using arg_cong [OF assms(1), of rev] by simp
  then have "rev ys = rev ys' \<and> rev xs = rev xs'"
    using assms(2,3) by (intro append_sep_inject) auto
  then show ?thesis by simp
qed

text \<open>Sorting, and looking up distinct keys, do not depend on the order of the input.\<close>

lemma sort_mset_cong: "mset xs = mset ys \<Longrightarrow> sort xs = sort ys"
  by (rule properties_for_sort) simp_all

lemma map_of_mset_cong:
  assumes "mset m = mset m'" and "distinct_keys m"
  shows "map_of m = map_of m'"
proof -
  have "distinct_keys m'"
    using assms by (metis mset_map mset_eq_imp_distinct_iff)
  moreover have "set m = set m'" using assms(1) by (rule mset_eq_setD)
  ultimately show ?thesis using assms(2) by (intro map_of_inject_set [THEN iffD2])
qed

end
