(* ===== verification/GoFloat.thy ===== *)
theory GoFloat
  imports Complex_Main Prelude
begin

text \<open>
  Go's \<^verbatim>\<open>float64\<close> (IEEE 754 binary64, round to nearest, ties to even).  A finite value is
  the rational number it denotes; every operation computes the exact rational result and
  rounds it once.  The sign of zero is not represented: no source operation observes it.
\<close>

datatype f64 = F64 rat | F64Inf bool | F64NaN

definition pow2 :: "int \<Rightarrow> rat" where
  "pow2 k = (if 0 \<le> k then 2 ^ nat k else 1 / 2 ^ nat (- k))"

function bit_len :: "int \<Rightarrow> int" where
  "bit_len n = (if n \<le> 0 then 0 else 1 + bit_len (n div 2))"
  by pat_completeness auto
termination
  by (relation "measure nat") auto

declare bit_len.simps [simp del]

text \<open>The exponent \<open>k\<close> with \<open>2 ^ k \<le> q < 2 ^ (k + 1)\<close> for positive \<open>q\<close>.\<close>

definition floor_log2 :: "rat \<Rightarrow> int" where
  "floor_log2 q =
     (let (n, d) = quotient_of q; k = bit_len n - bit_len d
      in if pow2 k \<le> q then k else k - 1)"

definition round_half_even :: "rat \<Rightarrow> int" where
  "round_half_even q =
     (let f = \<lfloor>q\<rfloor>; r = q - of_int f
      in if r < 1 / 2 then f else if 1 / 2 < r then f + 1 else if even f then f else f + 1)"

text \<open>53 significant bits, exponents down to \<open>-1074\<close> (gradual underflow), overflow to infinity.\<close>

definition f64_round :: "rat \<Rightarrow> f64" where
  "f64_round q =
     (if q = 0 then F64 0
      else let a = \<bar>q\<bar>; e = max (floor_log2 a - 52) (- 1074);
               v = of_int (round_half_even (a / pow2 e)) * pow2 e
           in if pow2 1024 \<le> v then F64Inf (q < 0) else F64 (sgn q * v))"

definition f64_of_int :: "int \<Rightarrow> f64" where
  "f64_of_int n = f64_round (of_int n)"

fun f64_add :: "f64 \<Rightarrow> f64 \<Rightarrow> f64" where
  "f64_add (F64 a) (F64 b) = f64_round (a + b)"
| "f64_add F64NaN _ = F64NaN"
| "f64_add _ F64NaN = F64NaN"
| "f64_add (F64Inf s) (F64Inf t) = (if s = t then F64Inf s else F64NaN)"
| "f64_add (F64Inf s) (F64 _) = F64Inf s"
| "f64_add (F64 _) (F64Inf s) = F64Inf s"

fun f64_mul :: "f64 \<Rightarrow> f64 \<Rightarrow> f64" where
  "f64_mul (F64 a) (F64 b) = f64_round (a * b)"
| "f64_mul F64NaN _ = F64NaN"
| "f64_mul _ F64NaN = F64NaN"
| "f64_mul (F64Inf s) (F64Inf t) = F64Inf (s \<noteq> t)"
| "f64_mul (F64Inf s) (F64 b) = (if b = 0 then F64NaN else F64Inf (s \<noteq> (b < 0)))"
| "f64_mul (F64 a) (F64Inf t) = (if a = 0 then F64NaN else F64Inf ((a < 0) \<noteq> t))"

fun f64_div :: "f64 \<Rightarrow> f64 \<Rightarrow> f64" where
  "f64_div (F64 a) (F64 b) =
     (if b = 0 then (if a = 0 then F64NaN else F64Inf (a < 0)) else f64_round (a / b))"
| "f64_div F64NaN _ = F64NaN"
| "f64_div _ F64NaN = F64NaN"
| "f64_div (F64Inf s) (F64Inf t) = F64NaN"
| "f64_div (F64Inf s) (F64 b) = F64Inf (s \<noteq> (b < 0))"
| "f64_div (F64 _) (F64Inf _) = F64 0"

text \<open>
  Conversion to \<^verbatim>\<open>int\<close> truncates towards zero.  The language leaves the result open for
  values out of range; this is the result on amd64.
\<close>

fun f64_to_int :: "f64 \<Rightarrow> int" where
  "f64_to_int (F64 q) =
     (let n = (if q < 0 then - \<lfloor>- q\<rfloor> else \<lfloor>q\<rfloor>) in if in_int64 n then n else int64_min)"
| "f64_to_int _ = int64_min"

section \<open>Lemmas\<close>

lemma pow2_pos [simp]: "0 < pow2 k"
  by (simp add: pow2_def)

lemma pow2_nonneg [simp]: "0 \<le> pow2 k"
  using pow2_pos [of k] by (rule less_imp_le)

lemma round_half_even_int [simp]: "round_half_even (of_int n) = n"
  by (simp add: round_half_even_def)

lemma round_half_even_mono: "p \<le> q \<Longrightarrow> round_half_even p \<le> round_half_even q"
proof -
  assume pq: "p \<le> q"
  then have fl: "\<lfloor>p\<rfloor> \<le> \<lfloor>q\<rfloor>" by (rule floor_mono)
  show ?thesis
  proof (cases "\<lfloor>p\<rfloor> = \<lfloor>q\<rfloor>")
    case True
    with pq show ?thesis by (auto simp: round_half_even_def Let_def)
  next
    case False
    with fl show ?thesis by (auto simp: round_half_even_def Let_def)
  qed
qed

lemma round_half_even_nonneg: "0 \<le> q \<Longrightarrow> 0 \<le> round_half_even q"
  using round_half_even_mono [of 0 q] round_half_even_int [of 0] by simp

text \<open>Rounding keeps the sign: a cost computed from non-negative parts is not negative.\<close>

lemma f64_round_nonneg: "0 \<le> q \<Longrightarrow> f64_round q = F64 v \<Longrightarrow> 0 \<le> v"
  by (auto simp: f64_round_def Let_def sgn_if split: if_splits
      intro!: mult_nonneg_nonneg round_half_even_nonneg divide_nonneg_nonneg)

lemma f64_round_0 [simp]: "f64_round 0 = F64 0"
  by (simp add: f64_round_def)

section \<open>Finite results\<close>

lemma pow2_nat: "pow2 (int k) = 2 ^ k"
  by (simp add: pow2_def)

lemma pow2_diff: "pow2 (int a - int b) = 2 ^ a / 2 ^ b"
proof (cases "b \<le> a")
  case True
  then show ?thesis by (simp add: pow2_def nat_diff_distrib power_diff)
next
  case False
  then have "nat (- (int a - int b)) = b - a" by simp
  with False show ?thesis by (simp add: pow2_def power_diff)
qed

lemma pow2_mono:
  assumes "j \<le> k"
  shows "pow2 j \<le> pow2 k"
proof -
  obtain a b where j: "j = int a - int b" by (metis int_diff_cases)
  obtain d where d: "k = j + int d" using assms zle_iff_zadd by blast
  have "pow2 k = 2 ^ d * pow2 j" using pow2_diff [of "a + d" b] pow2_diff [of a b] by (simp add: j d power_add algebra_simps)
  moreover have "1 * pow2 j \<le> 2 ^ d * pow2 j" by (rule mult_right_mono) simp_all
  ultimately show ?thesis by simp
qed

lemma bit_len_nonneg: "0 \<le> bit_len n"
  by (induction n rule: bit_len.induct) (simp add: bit_len.simps)

lemma bit_len_bounds: "0 < n \<Longrightarrow> 2 ^ nat (bit_len n) \<le> 2 * n \<and> n < 2 ^ nat (bit_len n)"
proof (induction n rule: bit_len.induct)
  case (1 n)
  show ?case
  proof (cases "n = 1")
    case True
    then show ?thesis by (simp add: bit_len.simps [of 1] bit_len.simps [of 0])
  next
    case False
    with 1 have h: "2 ^ nat (bit_len (n div 2)) \<le> 2 * (n div 2)" "n div 2 < 2 ^ nat (bit_len (n div 2))" by auto
    have "nat (bit_len n) = Suc (nat (bit_len (n div 2)))"
      using "1.prems" bit_len_nonneg [of "n div 2"] by (simp add: bit_len.simps [of n] nat_add_distrib)
    moreover have "2 * (n div 2) \<le> n" "n < 2 * (n div 2 + 1)" by simp_all
    ultimately show ?thesis using h by simp
  qed
qed

lemma floor_log2_le:
  assumes "0 < q"
  shows "pow2 (floor_log2 q) \<le> q"
proof -
  obtain n d where nd: "quotient_of q = (n, d)" by (cases "quotient_of q")
  have q: "q = of_int n / of_int d" using nd by (rule quotient_of_div)
  have d: "0 < d" using nd by (rule quotient_of_denom_pos)
  with q assms have n: "0 < n" by (simp add: zero_less_divide_iff)
  define a b where ab: "a = nat (bit_len n)" "b = nat (bit_len d)"
  have k: "bit_len n - bit_len d = int a - int b" by (simp add: ab bit_len_nonneg)
  show ?thesis
  proof (cases "pow2 (bit_len n - bit_len d) \<le> q")
    case True
    then show ?thesis by (simp add: floor_log2_def nd)
  next
    case False
    have "(2 :: rat) ^ a \<le> 2 * of_int n"
      using bit_len_bounds [OF n] unfolding ab by (metis of_int_le_iff of_int_mult of_int_numeral of_int_power)
    moreover have "of_int d \<le> (2 :: rat) ^ b"
      using bit_len_bounds [OF d] unfolding ab by (metis less_imp_le of_int_le_iff of_int_numeral of_int_power)
    ultimately have "(2 :: rat) ^ a / 2 ^ b \<le> 2 * of_int n / of_int d"
      using d n by (intro frac_le) simp_all
    then have "pow2 (int a - int b) \<le> 2 * q" by (simp add: pow2_diff q)
    moreover have "pow2 (int a - int b - 1) = pow2 (int a - int b) / 2"
      using pow2_diff [of a "Suc b"] pow2_diff [of a b] by (simp add: algebra_simps)
    ultimately have "pow2 (int a - int b - 1) \<le> q" by simp
    with False show ?thesis by (simp add: floor_log2_def nd k)
  qed
qed

lemma round_half_even_le: "of_int (round_half_even q) \<le> q + 1"
  by (auto simp: round_half_even_def Let_def) linarith+

lemma f64_round_finite:
  assumes "0 \<le> q" and "q \<le> 2 ^ 1000"
  shows "\<exists>v. f64_round q = F64 v \<and> 0 \<le> v \<and> v \<le> 2 * q + 1"
proof (cases "q = 0")
  case False
  with assms have pos: "0 < q" by simp
  define e where "e = max (floor_log2 q - 52) (- 1074)"
  define v where "v = of_int (round_half_even (q / pow2 e)) * pow2 e"
  have pe: "pow2 e \<le> q + 1"
  proof (cases "floor_log2 q - 52 \<le> - 1074")
    case True
    then have "pow2 e = pow2 (- 1074)" by (simp add: e_def)
    also have "\<dots> \<le> pow2 0" by (rule pow2_mono) simp
    finally show ?thesis using pos by (simp add: pow2_def)
  next
    case F: False
    then have "pow2 e \<le> pow2 (floor_log2 q)" by (intro pow2_mono) (simp add: e_def)
    with floor_log2_le [OF pos] show ?thesis by simp
  qed
  have "v \<le> (q / pow2 e + 1) * pow2 e"
    unfolding v_def by (intro mult_right_mono round_half_even_le) simp
  also have "\<dots> = q + pow2 e" using less_imp_neq [OF pow2_pos [of e]] by (simp add: distrib_right)
  finally have ub: "v \<le> 2 * q + 1" using pe by simp
  have "0 \<le> v" unfolding v_def using pos by (intro mult_nonneg_nonneg) (simp_all add: round_half_even_nonneg)
  moreover have "\<not> pow2 1024 \<le> v"
  proof -
    have "2 * q + 1 \<le> 2 * 2 ^ 1000 + 1" using assms(2) by simp
    also have "\<dots> < (2 :: rat) ^ 1024" by simp
    finally show ?thesis using ub by (simp add: pow2_def)
  qed
  ultimately show ?thesis using ub pos
    by (simp add: f64_round_def Let_def e_def [symmetric] v_def [symmetric])
qed simp

fun f64_nonneg :: "f64 \<Rightarrow> bool" where
  "f64_nonneg (F64 q) = (0 \<le> q)"
| "f64_nonneg (F64Inf s) = (\<not> s)"
| "f64_nonneg F64NaN = False"

lemma f64_nonneg_round: "0 \<le> q \<Longrightarrow> f64_nonneg (f64_round q)"
  using f64_round_nonneg [of q] by (cases "f64_round q") (auto simp: f64_round_def Let_def split: if_splits)

lemma f64_nonneg_add: "f64_nonneg x \<Longrightarrow> f64_nonneg y \<Longrightarrow> f64_nonneg (f64_add x y)"
  by (cases x; cases y) (simp_all add: f64_nonneg_round)

end
