(* ===== verification/GoStrings.thy ===== *)
theory GoStrings
  imports Prelude
begin

text \<open>
  What the sources use of Go's \<^verbatim>\<open>strings\<close> and \<^verbatim>\<open>strconv\<close> packages, on byte strings:
  \<^verbatim>\<open>Index\<close>, \<^verbatim>\<open>Contains\<close>, \<^verbatim>\<open>IndexByte\<close>, \<^verbatim>\<open>HasPrefix\<close>, \<^verbatim>\<open>TrimPrefix\<close>, \<^verbatim>\<open>TrimSpace\<close>,
  \<^verbatim>\<open>Split\<close> and \<^verbatim>\<open>Cut\<close> at a one-byte separator, \<^verbatim>\<open>ToUpper\<close>, \<^verbatim>\<open>Atoi\<close> and decimal
  printing.  The lemmas say where the first occurrence of a marker is in a concatenation,
  and that decimal printing and reading are inverse.
\<close>

section \<open>Searching\<close>

text \<open>\<^verbatim>\<open>strings.Index\<close>: the first position at which the substring starts.\<close>

fun str_index :: "string \<Rightarrow> string \<Rightarrow> nat option" where
  "str_index [] sub = (if sub = [] then Some 0 else None)"
| "str_index (c # cs) sub =
     (if prefix sub (c # cs) then Some 0 else map_option Suc (str_index cs sub))"

definition str_contains :: "string \<Rightarrow> string \<Rightarrow> bool" where
  "str_contains s sub \<longleftrightarrow> str_index s sub \<noteq> None"

fun index_byte :: "string \<Rightarrow> char \<Rightarrow> nat option" where
  "index_byte [] b = None"
| "index_byte (c # cs) b = (if c = b then Some 0 else map_option Suc (index_byte cs b))"

definition has_prefix :: "string \<Rightarrow> string \<Rightarrow> bool" where
  "has_prefix s p \<longleftrightarrow> prefix p s"

definition trim_prefix :: "string \<Rightarrow> string \<Rightarrow> string" where
  "trim_prefix s p = (if has_prefix s p then drop (length p) s else s)"

section \<open>Splitting\<close>

text \<open>\<^verbatim>\<open>strings.Cut\<close> and \<^verbatim>\<open>strings.Split\<close> at a single byte.\<close>

fun str_cut :: "string \<Rightarrow> char \<Rightarrow> (string \<times> string) option" where
  "str_cut [] b = None"
| "str_cut (c # cs) b =
     (if c = b then Some ([], cs)
      else map_option (\<lambda>(l, r). (c # l, r)) (str_cut cs b))"

fun str_split :: "string \<Rightarrow> char \<Rightarrow> string list" where
  "str_split [] b = [[]]"
| "str_split (c # cs) b =
     (if c = b then [] # str_split cs b
      else (case str_split cs b of [] \<Rightarrow> [[c]] | w # ws \<Rightarrow> (c # w) # ws))"

section \<open>Trimming and case\<close>

text \<open>
  \<^verbatim>\<open>strings.TrimSpace\<close> removes the runes of \<^verbatim>\<open>unicode.IsSpace\<close> at both ends; beyond ASCII
  they are the listed UTF-8 sequences (U+0085, U+00A0, U+1680, U+2000 to U+200A, U+2028,
  U+2029, U+202F, U+205F, U+3000).
\<close>

definition space_runes :: "string list" where
  "space_runes =
     map (map char_of)
       ([[32], [9], [10], [11], [12], [13], [194, 133], [194, 160], [225, 154, 128],
         [226, 128, 168], [226, 128, 169], [226, 128, 175], [226, 129, 159], [227, 128, 128]]
        @ map (\<lambda>i. [226, 128, 128 + i]) [0, 1, 2, 3, 4, 5, 6, 7, 8, 9, 10 :: nat])"

lemma space_runes_nonempty: "p \<in> set space_runes \<Longrightarrow> 0 < length p"
  by (auto simp: space_runes_def)

function trim_left :: "string \<Rightarrow> string" where
  "trim_left s =
     (case filter (\<lambda>p. prefix p s) space_runes of
        [] \<Rightarrow> s
      | p # _ \<Rightarrow> trim_left (drop (length p) s))"
  by pat_completeness auto
termination
proof (relation "measure length")
  fix s :: string and p ps
  assume "filter (\<lambda>p. prefix p s) space_runes = p # ps"
  then have "p \<in> set space_runes" and "prefix p s"
    by (metis filter_eq_ConsD in_set_conv_decomp)+
  then have "length s - length p < length s"
    using space_runes_nonempty [of p] prefix_length_le [of p s] by linarith
  then show "(drop (length p) s, s) \<in> measure length" by simp
qed simp

declare trim_left.simps [simp del]

text \<open>
  The right end: a space rune ends the string when its bytes do.  None of the listed
  sequences is a proper suffix of a longer valid UTF-8 encoding, so decoding the last rune
  and comparing the last bytes agree.
\<close>

function trim_right :: "string \<Rightarrow> string" where
  "trim_right s =
     (case filter (\<lambda>p. suffix p s) space_runes of
        [] \<Rightarrow> s
      | p # _ \<Rightarrow> trim_right (take (length s - length p) s))"
  by pat_completeness auto
termination
proof (relation "measure length")
  fix s :: string and p ps
  assume "filter (\<lambda>p. suffix p s) space_runes = p # ps"
  then have "p \<in> set space_runes" and "suffix p s"
    by (metis filter_eq_ConsD in_set_conv_decomp)+
  then have "length s - length p < length s"
    using space_runes_nonempty [of p] suffix_length_le [of p s] by linarith
  then show "(take (length s - length p) s, s) \<in> measure length" by simp
qed simp

declare trim_right.simps [simp del]

definition trim_space :: "string \<Rightarrow> string" where
  "trim_space s = trim_right (trim_left s)"

text \<open>\<^verbatim>\<open>strings.ToUpper\<close> on ASCII text (the sources apply it to platform names).\<close>

definition to_upper_char :: "char \<Rightarrow> char" where
  "to_upper_char c =
     (let n = of_char c :: nat in if 97 \<le> n \<and> n \<le> 122 then char_of (n - 32) else c)"

definition to_upper :: "string \<Rightarrow> string" where
  "to_upper = map to_upper_char"

section \<open>Decimal numbers\<close>

text \<open>Decimal digits of a non-negative number, most significant first.\<close>

definition digit_char :: "int \<Rightarrow> char" where
  "digit_char d = char_of (48 + d)"

definition is_digit :: "char \<Rightarrow> bool" where
  "is_digit c \<longleftrightarrow> 48 \<le> (of_char c :: int) \<and> (of_char c :: int) \<le> 57"

definition digit_val :: "char \<Rightarrow> int" where
  "digit_val c = of_char c - 48"

function dec_digits :: "int \<Rightarrow> string" where
  "dec_digits n = (if n < 10 then [digit_char n] else dec_digits (n div 10) @ [digit_char (n mod 10)])"
  by pat_completeness auto
termination
  by (relation "measure nat") auto

declare dec_digits.simps [simp del]

definition digits_val :: "string \<Rightarrow> int" where
  "digits_val s = fold (\<lambda>c v. 10 * v + digit_val c) s 0"

text \<open>Decimal printing of an \<^verbatim>\<open>int\<close> (\<^verbatim>\<open>strconv.Itoa\<close>, \<^verbatim>\<open>%d\<close>).\<close>

definition int_to_dec :: "int \<Rightarrow> string" where
  "int_to_dec n = (if n < 0 then CHR ''-'' # dec_digits (- n) else dec_digits n)"

text \<open>\<^verbatim>\<open>strconv.Atoi\<close>: an optional sign, at least one digit, in the range of \<^verbatim>\<open>int\<close> (64 bits).\<close>

definition atoi :: "string \<Rightarrow> int option" where
  "atoi s =
     (let (neg, ds) = (case s of
            [] \<Rightarrow> (False, [])
          | c # cs \<Rightarrow> if c = CHR ''-'' then (True, cs) else if c = CHR ''+'' then (False, cs) else (False, s));
          v = (if neg then - digits_val ds else digits_val ds)
      in if ds \<noteq> [] \<and> list_all is_digit ds \<and> in_int64 v then Some v else None)"

section \<open>Lemmas\<close>

lemma of_char_digit_char [simp]: "0 \<le> d \<Longrightarrow> d < 10 \<Longrightarrow> (of_char (digit_char d) :: int) = 48 + d"
  by (simp add: digit_char_def)

lemma is_digit_digit_char [simp]: "0 \<le> d \<Longrightarrow> d < 10 \<Longrightarrow> is_digit (digit_char d)"
  by (simp add: is_digit_def)

lemma digit_val_digit_char [simp]: "0 \<le> d \<Longrightarrow> d < 10 \<Longrightarrow> digit_val (digit_char d) = d"
  by (simp add: digit_val_def)

lemma dec_digits_nonempty [simp]: "dec_digits n \<noteq> []"
  by (subst dec_digits.simps) simp

lemma dec_digits_are_digits: "0 \<le> n \<Longrightarrow> list_all is_digit (dec_digits n)"
proof (induction n rule: dec_digits.induct)
  case (1 n)
  then show ?case by (subst dec_digits.simps) auto
qed

lemma digits_val_snoc [simp]: "digits_val (s @ [c]) = 10 * digits_val s + digit_val c"
  by (simp add: digits_val_def)

lemma digits_val_Nil [simp]: "digits_val [] = 0"
  by (simp add: digits_val_def)

lemma digits_val_dec_digits [simp]: "0 \<le> n \<Longrightarrow> digits_val (dec_digits n) = n"
proof (induction n rule: dec_digits.induct)
  case (1 n)
  show ?case
  proof (cases "n < 10")
    case True
    with "1.prems" show ?thesis
      using digits_val_snoc [of "[]" "digit_char n"] by (subst dec_digits.simps) simp
  next
    case False
    with "1" show ?thesis by (subst dec_digits.simps) simp
  qed
qed

lemma is_digit_not_sign: "is_digit c \<Longrightarrow> c \<noteq> CHR ''-'' \<and> c \<noteq> CHR ''+''"
  by (auto simp: is_digit_def)

lemma digits_val_nonneg: "list_all is_digit s \<Longrightarrow> 0 \<le> digits_val s"
  by (induction s rule: rev_induct) (auto simp: is_digit_def digit_val_def)

lemma atoi_int_to_dec: "in_int64 n \<Longrightarrow> atoi (int_to_dec n) = Some n"
proof -
  assume n: "in_int64 n"
  show ?thesis
  proof (cases "n < 0")
    case True
    with n dec_digits_are_digits [of "- n"] show ?thesis by (simp add: atoi_def int_to_dec_def)
  next
    case False
    then have nd: "list_all is_digit (dec_digits n)" by (intro dec_digits_are_digits) simp
    obtain c cs where c: "dec_digits n = c # cs"
      using dec_digits_nonempty [of n] by (cases "dec_digits n") auto
    with nd have "is_digit c" by simp
    then have "c \<noteq> CHR ''-''" "c \<noteq> CHR ''+''" by (auto dest: is_digit_not_sign)
    with False n nd c digits_val_dec_digits [of n] show ?thesis
      by (simp add: atoi_def int_to_dec_def)
  qed
qed

lemma atoi_range: "atoi s = Some v \<Longrightarrow> in_int64 v"
  by (auto simp: atoi_def Let_def split: list.splits if_splits)

text \<open>Where \<^const>\<open>str_index\<close> finds a marker.\<close>

lemma str_index_Some_prefix: "str_index s sub = Some i \<Longrightarrow> prefix sub (drop i s)"
  by (induction s sub arbitrary: i rule: str_index.induct) (auto split: if_splits)

lemma str_index_sublist: "str_index s sub \<noteq> None \<longleftrightarrow> sublist sub s"
proof (induction s)
  case Nil
  then show ?case by simp
next
  case (Cons c s)
  then show ?case by (auto simp: sublist_Cons_right)
qed

lemma str_contains_iff: "str_contains s sub \<longleftrightarrow> sublist sub s"
  unfolding str_contains_def by (rule str_index_sublist)

lemma str_index_append_prefix:
  assumes "\<And>i. i < length p \<Longrightarrow> \<not> prefix sub (drop i (p @ sub @ r))"
  shows "str_index (p @ sub @ r) sub = Some (length p)"
  using assms
proof (induction p)
  case Nil
  have "prefix sub (sub @ r)" by simp
  then show ?case by (cases "sub @ r") auto
next
  case (Cons c p)
  have "\<not> prefix sub (c # p @ sub @ r)" using Cons.prems [of 0] by simp
  moreover have "str_index (p @ sub @ r) sub = Some (length p)"
  proof (rule Cons.IH)
    fix i assume "i < length p"
    then show "\<not> prefix sub (drop i (p @ sub @ r))" using Cons.prems [of "Suc i"] by simp
  qed
  ultimately show ?case by simp
qed

lemma index_byte_append:
  "b \<notin> set s \<Longrightarrow> index_byte (s @ b # r) b = Some (length s)"
  by (induction s) auto

lemma index_byte_None: "b \<notin> set s \<Longrightarrow> index_byte s b = None"
  by (induction s) auto

lemma str_cut_append: "b \<notin> set l \<Longrightarrow> str_cut (l @ b # r) b = Some (l, r)"
  by (induction l) auto

lemma str_cut_None_iff: "str_cut s b = None \<longleftrightarrow> b \<notin> set s"
  by (induction s) auto

lemma str_cut_SomeD: "str_cut s b = Some (l, r) \<Longrightarrow> s = l @ b # r \<and> b \<notin> set l"
  by (induction s arbitrary: l r) (auto split: if_splits)

lemma str_split_single: "b \<notin> set s \<Longrightarrow> str_split s b = [s]"
  by (induction s) auto

lemma str_split_append: "b \<notin> set l \<Longrightarrow> str_split (l @ b # r) b = l # str_split r b"
  by (induction l) auto

lemma str_split_parts: "w \<in> set (str_split s b) \<Longrightarrow> b \<notin> set w"
  by (induction s arbitrary: w) (auto split: if_splits list.splits)

text \<open>A string that neither starts nor ends with a byte of a space rune is already trimmed.\<close>

lemma trim_left_id:
  assumes "\<And>p. p \<in> set space_runes \<Longrightarrow> hd p \<noteq> c"
  shows "trim_left (c # s) = c # s"
proof -
  have "filter (\<lambda>p. prefix p (c # s)) space_runes = []"
    using assms space_runes_nonempty by (fastforce simp: filter_empty_conv prefix_Cons)
  then show ?thesis by (simp add: trim_left.simps)
qed

lemma trim_right_id:
  assumes "\<And>p. p \<in> set space_runes \<Longrightarrow> last p \<noteq> c"
  shows "trim_right (s @ [c]) = s @ [c]"
proof -
  have "filter (\<lambda>p. suffix p (s @ [c])) space_runes = []"
    using assms space_runes_nonempty by (fastforce simp: filter_empty_conv)
  then show ?thesis by (simp add: trim_right.simps)
qed

definition plain_char :: "char \<Rightarrow> bool" where
  "plain_char c \<longleftrightarrow> 32 < (of_char c :: nat) \<and> (of_char c :: nat) < 127"

lemma space_runes_ends: "p \<in> set space_runes \<Longrightarrow> \<not> plain_char (hd p) \<and> \<not> plain_char (last p)"
  by (auto simp: space_runes_def plain_char_def)

lemma trim_space_plain:
  assumes "plain_char (hd s)" and "plain_char (last s)" and "s \<noteq> []"
  shows "trim_space s = s"
proof -
  have l: "trim_left s = s"
    using trim_left_id [of "hd s" "tl s"] space_runes_ends assms(1,3) by fastforce
  have "trim_right (butlast s @ [last s]) = butlast s @ [last s]"
    using space_runes_ends assms(2) by (intro trim_right_id) metis
  with l assms(3) show ?thesis by (simp add: trim_space_def)
qed

lemma plain_digit: "is_digit c \<Longrightarrow> plain_char c"
proof -
  assume "is_digit c"
  then have "48 \<le> int (of_char c)" "int (of_char c) \<le> 57" by (simp_all add: is_digit_def of_nat_of_char)
  then show ?thesis by (simp add: plain_char_def)
qed

lemma trim_space_Nil [simp]: "trim_space [] = []"
  by (simp add: trim_space_def trim_left.simps trim_right.simps space_runes_def)

end
