(* ===== verification/GoEncoding.thy ===== *)
theory GoEncoding
  imports GoStrings "HOL-Library.Word"
begin

unbundle bit_operations_syntax

text \<open>
  What the sources use of Go's \<^verbatim>\<open>encoding/hex\<close>, \<^verbatim>\<open>encoding/base64\<close> (the padded standard
  alphabet) and \<^verbatim>\<open>crypto/sha256\<close>.  SHA-256 is the FIPS 180-4 function, computed on
  \<^typ>\<open>32 word\<close>.  The lemmas: hex output has two lower-case digits per byte, base64
  decoding inverts encoding, encoded text holds no space, and a padded last quantum
  determines the last byte of the input.
\<close>

section \<open>Hex\<close>

definition hex_digit :: "nat \<Rightarrow> char" where
  "hex_digit n = (if n < 10 then char_of (48 + n) else char_of (87 + n))"

definition hex_encode :: "bytes \<Rightarrow> string" where
  "hex_encode s = concat (map (\<lambda>c. [hex_digit (of_char c div 16), hex_digit (of_char c mod 16)]) s)"

section \<open>Base64\<close>

definition b64_char :: "nat \<Rightarrow> char" where
  "b64_char n =
     (if n < 26 then char_of (65 + n)
      else if n < 52 then char_of (71 + n)
      else if n < 62 then char_of (n - 4)
      else if n = 62 then CHR ''+'' else CHR ''/'')"

definition b64_val :: "char \<Rightarrow> nat option" where
  "b64_val c =
     (let n = of_char c :: nat in
      if 65 \<le> n \<and> n \<le> 90 then Some (n - 65)
      else if 97 \<le> n \<and> n \<le> 122 then Some (n - 71)
      else if 48 \<le> n \<and> n \<le> 57 then Some (n + 4)
      else if n = 43 then Some 62
      else if n = 47 then Some 63 else None)"

fun b64_encode :: "bytes \<Rightarrow> string" where
  "b64_encode [] = []"
| "b64_encode [x] =
     (let a = of_char x :: nat
      in [b64_char (a div 4), b64_char ((a mod 4) * 16), CHR ''='', CHR ''=''])"
| "b64_encode [x, y] =
     (let a = of_char x :: nat; b = of_char y
      in [b64_char (a div 4), b64_char ((a mod 4) * 16 + b div 16), b64_char ((b mod 16) * 4), CHR ''=''])"
| "b64_encode (x # y # z # r) =
     (let a = of_char x :: nat; b = of_char y; c = of_char z
      in b64_char (a div 4) # b64_char ((a mod 4) * 16 + b div 16) #
         b64_char ((b mod 16) * 4 + c div 64) # b64_char (c mod 64) # b64_encode r)"

text \<open>
  Decoding works on quanta of four characters; a padded quantum must be the last.  The
  decoder of \<^verbatim>\<open>StdEncoding\<close> is not strict: it does not look at the unused low bits of a
  padded quantum.  Carriage returns and newlines are skipped.
\<close>

fun b64_quanta :: "string \<Rightarrow> bytes option" where
  "b64_quanta [] = Some []"
| "b64_quanta (p # q # r # s # rest) =
     (case (b64_val p, b64_val q) of
        (Some a, Some b) \<Rightarrow>
          (if s = CHR ''='' \<and> r = CHR ''='' then
             (if rest = [] then Some [char_of (a * 4 + b div 16)] else None)
           else case b64_val r of
             None \<Rightarrow> None
           | Some c \<Rightarrow>
               (if s = CHR ''='' then
                  (if rest = [] then Some [char_of (a * 4 + b div 16), char_of ((b mod 16) * 16 + c div 4)]
                   else None)
                else case b64_val s of
                  None \<Rightarrow> None
                | Some d \<Rightarrow>
                    map_option
                      (\<lambda>bs. char_of (a * 4 + b div 16) # char_of ((b mod 16) * 16 + c div 4) #
                             char_of ((c mod 4) * 64 + d) # bs)
                      (b64_quanta rest)))
      | _ \<Rightarrow> None)"
| "b64_quanta _ = None"

definition b64_decode :: "string \<Rightarrow> bytes option" where
  "b64_decode s = b64_quanta (filter (\<lambda>c. c \<noteq> CHR 0x0A \<and> c \<noteq> CHR 0x0D) s)"

section \<open>SHA-256\<close>

type_synonym u32 = "32 word"

definition rotr32 :: "nat \<Rightarrow> u32 \<Rightarrow> u32" where
  "rotr32 n x = drop_bit n x OR push_bit (32 - n) x"

definition sha_ch :: "u32 \<Rightarrow> u32 \<Rightarrow> u32 \<Rightarrow> u32" where
  "sha_ch x y z = (x AND y) XOR (NOT x AND z)"

definition sha_maj :: "u32 \<Rightarrow> u32 \<Rightarrow> u32 \<Rightarrow> u32" where
  "sha_maj x y z = (x AND y) XOR (x AND z) XOR (y AND z)"

definition sha_S0 :: "u32 \<Rightarrow> u32" where
  "sha_S0 x = rotr32 2 x XOR rotr32 13 x XOR rotr32 22 x"

definition sha_S1 :: "u32 \<Rightarrow> u32" where
  "sha_S1 x = rotr32 6 x XOR rotr32 11 x XOR rotr32 25 x"

definition sha_s0 :: "u32 \<Rightarrow> u32" where
  "sha_s0 x = rotr32 7 x XOR rotr32 18 x XOR drop_bit 3 x"

definition sha_s1 :: "u32 \<Rightarrow> u32" where
  "sha_s1 x = rotr32 17 x XOR rotr32 19 x XOR drop_bit 10 x"

definition sha_K :: "u32 list" where
  "sha_K =
     [
      1116352408, 1899447441, 3049323471, 3921009573, 961987163, 1508970993, 2453635748, 2870763221,
      3624381080, 310598401, 607225278, 1426881987, 1925078388, 2162078206, 2614888103, 3248222580,
      3835390401, 4022224774, 264347078, 604807628, 770255983, 1249150122, 1555081692, 1996064986,
      2554220882, 2821834349, 2952996808, 3210313671, 3336571891, 3584528711, 113926993, 338241895,
      666307205, 773529912, 1294757372, 1396182291, 1695183700, 1986661051, 2177026350, 2456956037,
      2730485921, 2820302411, 3259730800, 3345764771, 3516065817, 3600352804, 4094571909, 275423344,
      430227734, 506948616, 659060556, 883997877, 958139571, 1322822218, 1537002063, 1747873779,
      1955562222, 2024104815, 2227730452, 2361852424, 2428436474, 2756734187, 3204031479, 3329325298]"

definition sha_H0 :: "u32 list" where
  "sha_H0 =
     [
      1779033703, 3144134277, 1013904242, 2773480762, 1359893119, 2600822924, 528734635, 1541459225]"

text \<open>
  The message schedule, newest word first: with \<open>ws ! i\<close> the word \<open>i + 1\<close> steps back, the
  next word uses the words 2, 7, 15 and 16 steps back.
\<close>

fun sha_extend :: "nat \<Rightarrow> u32 list \<Rightarrow> u32 list" where
  "sha_extend 0 ws = ws"
| "sha_extend (Suc n) ws =
     sha_extend n ((sha_s1 (ws ! 1) + ws ! 6 + sha_s0 (ws ! 14) + ws ! 15) # ws)"

type_synonym sha_state = "u32 \<times> u32 \<times> u32 \<times> u32 \<times> u32 \<times> u32 \<times> u32 \<times> u32"

fun sha_round :: "u32 \<times> u32 \<Rightarrow> sha_state \<Rightarrow> sha_state" where
  "sha_round (k, w) (a, b, c, d, e, f, g, h) =
     (let t1 = h + sha_S1 e + sha_ch e f g + k + w;
          t2 = sha_S0 a + sha_maj a b c
      in (t1 + t2, a, b, c, d + t1, e, f, g))"

fun sha_add :: "sha_state \<Rightarrow> sha_state \<Rightarrow> sha_state" where
  "sha_add (a, b, c, d, e, f, g, h) (a', b', c', d', e', f', g', h') =
     (a + a', b + b', c + c', d + d', e + e', f + f', g + g', h + h')"

definition sha_block :: "u32 list \<Rightarrow> sha_state \<Rightarrow> sha_state" where
  "sha_block blk s = sha_add s (fold sha_round (zip sha_K (rev (sha_extend 48 (rev blk)))) s)"

definition be32 :: "char \<Rightarrow> char \<Rightarrow> char \<Rightarrow> char \<Rightarrow> u32" where
  "be32 a b c d =
     word_of_int (((of_char a * 256 + of_char b) * 256 + of_char c) * 256 + of_char d)"

fun be_words :: "bytes \<Rightarrow> u32 list" where
  "be_words (a # b # c # d # r) = be32 a b c d # be_words r"
| "be_words _ = []"

definition be_bytes :: "nat \<Rightarrow> int \<Rightarrow> bytes" where
  "be_bytes n v = map (\<lambda>i. char_of (v div 256 ^ i)) (rev [0..<n])"

definition sha_pad :: "bytes \<Rightarrow> bytes" where
  "sha_pad m =
     m @ [CHR 0x80] @ replicate ((119 - length m mod 64) mod 64) (CHR 0x00) @ be_bytes 8 (8 * int (length m))"

function sha_blocks :: "u32 list \<Rightarrow> sha_state \<Rightarrow> sha_state" where
  "sha_blocks ws s = (if ws = [] then s else sha_blocks (drop 16 ws) (sha_block (take 16 ws) s))"
  by pat_completeness auto
termination
  by (relation "measure (\<lambda>(ws, s). length ws)") auto

declare sha_blocks.simps [simp del]

fun sha_state_of :: "u32 list \<Rightarrow> sha_state" where
  "sha_state_of [a, b, c, d, e, f, g, h] = (a, b, c, d, e, f, g, h)"
| "sha_state_of _ = (0, 0, 0, 0, 0, 0, 0, 0)"

fun sha_words_of :: "sha_state \<Rightarrow> u32 list" where
  "sha_words_of (a, b, c, d, e, f, g, h) = [a, b, c, d, e, f, g, h]"

definition sha256 :: "bytes \<Rightarrow> bytes" where
  "sha256 m =
     concat (map (\<lambda>w. be_bytes 4 (uint w))
       (sha_words_of (sha_blocks (be_words (sha_pad m)) (sha_state_of sha_H0))))"

section \<open>Lemmas\<close>

lemma length_sha_words_of [simp]: "length (sha_words_of s) = 8"
  by (cases s rule: sha_words_of.cases) simp

lemma length_be_bytes [simp]: "length (be_bytes n v) = n"
  by (simp add: be_bytes_def)

lemma length_concat_const:
  "(\<And>x. x \<in> set xs \<Longrightarrow> length (f x) = n) \<Longrightarrow> length (concat (map f xs)) = n * length xs"
  by (induction xs) auto

lemma length_sha256 [simp]: "length (sha256 m) = 32"
  unfolding sha256_def by (subst length_concat_const [of _ _ 4]) simp_all

lemma length_hex_encode [simp]: "length (hex_encode s) = 2 * length s"
  by (induction s) (simp_all add: hex_encode_def)

definition hex_chars :: "char set" where
  "hex_chars = set ''0123456789abcdef''"

lemma hex_digit_in: "n < 16 \<Longrightarrow> hex_digit n \<in> hex_chars"
proof -
  have "\<forall>n \<in> set [0..<16]. hex_digit n \<in> hex_chars"
    unfolding hex_chars_def by code_simp
  then show "n < 16 \<Longrightarrow> hex_digit n \<in> hex_chars" by simp
qed

lemma set_hex_encode: "set (hex_encode s) \<subseteq> hex_chars"
proof (induction s)
  case Nil
  then show ?case by (simp add: hex_encode_def)
next
  case (Cons c s)
  have "(of_char c :: nat) div 16 < 16"
    by (rule less_mult_imp_div_less) simp
  moreover have "(of_char c :: nat) mod 16 < 16" by simp
  ultimately show ?case using Cons by (simp add: hex_encode_def hex_digit_in)
qed

lemma b64_val_char [simp]: "n < 64 \<Longrightarrow> b64_val (b64_char n) = Some n"
  by (simp add: b64_val_def b64_char_def Let_def) arith

lemma b64_val_lt: "b64_val c = Some n \<Longrightarrow> n < 64"
  by (auto simp: b64_val_def Let_def split: if_splits)

lemma b64_char_neq: "n < 64 \<Longrightarrow> b64_val c = None \<Longrightarrow> b64_char n \<noteq> c"
  by auto

lemma b64_val_special [simp]:
  "b64_val (CHR ''='') = None" "b64_val (CHR '' '') = None"
  "b64_val (CHR 0x0A) = None" "b64_val (CHR 0x0D) = None"
  by (simp_all add: b64_val_def)

lemma b64_char_neq_pad: "n < 64 \<Longrightarrow> b64_char n \<noteq> CHR ''=''"
  by (rule b64_char_neq) simp_all

definition b64_alphabet :: "char set" where
  "b64_alphabet = b64_char ` {..<64}"

lemma b64_char_in [intro, simp]: "n < 64 \<Longrightarrow> b64_char n \<in> b64_alphabet"
  by (simp add: b64_alphabet_def)

lemma b64_alphabet_neq: "c \<in> b64_alphabet \<Longrightarrow> b64_val c \<noteq> None"
  by (auto simp: b64_alphabet_def)

text \<open>A quantum of three bytes, of two, and of one, decoded back.\<close>

lemma b64_arith:
  assumes "(a::nat) < 256" "b < 256" "c < 256"
  shows "a div 4 < 64" "a mod 4 * 16 + b div 16 < 64" "b mod 16 * 4 + c div 64 < 64" "c mod 64 < 64"
    and "a div 4 * 4 + (a mod 4 * 16 + b div 16) div 16 = a"
    and "(a mod 4 * 16 + b div 16) mod 16 * 16 + (b mod 16 * 4 + c div 64) div 4 = b"
    and "(b mod 16 * 4 + c div 64) mod 4 * 64 + c mod 64 = c"
proof -
  have b: "b div 16 < 16" and c: "c div 64 < 4" using assms by (auto intro: less_mult_imp_div_less)
  show "a div 4 < 64" using assms by (auto intro: less_mult_imp_div_less)
  have "a mod 4 < 4" by simp
  then show "a mod 4 * 16 + b div 16 < 64" using b by linarith
  have "b mod 16 < 16" by simp
  then show "b mod 16 * 4 + c div 64 < 64" using c by linarith
  show "c mod 64 < 64" by simp
  show "a div 4 * 4 + (a mod 4 * 16 + b div 16) div 16 = a" using b by simp
  show "(a mod 4 * 16 + b div 16) mod 16 * 16 + (b mod 16 * 4 + c div 64) div 4 = b"
    using b c by simp
  show "(b mod 16 * 4 + c div 64) mod 4 * 64 + c mod 64 = c" using c by simp
qed

lemma b64_arith2:
  assumes "(a::nat) < 256" "b < 256"
  shows "b mod 16 * 4 < 64"
    and "(a mod 4 * 16 + b div 16) mod 16 * 16 + b mod 16 * 4 div 4 = b"
proof -
  have b: "b div 16 < 16" using assms by (auto intro: less_mult_imp_div_less)
  have "b mod 16 < 16" by simp
  then show "b mod 16 * 4 < 64" by linarith
  show "(a mod 4 * 16 + b div 16) mod 16 * 16 + b mod 16 * 4 div 4 = b" using b by simp
qed

lemma b64_arith1:
  assumes "(a::nat) < 256"
  shows "a mod 4 * 16 < 64" and "a div 4 * 4 + a mod 4 * 16 div 16 = a"
proof -
  have "a mod 4 < 4" by simp
  then show "a mod 4 * 16 < 64" by linarith
  show "a div 4 * 4 + a mod 4 * 16 div 16 = a" by simp
qed

text \<open>Decoding inverts encoding, quantum by quantum.\<close>

lemma b64_quanta_full:
  assumes "n1 < 64" "n2 < 64" "n3 < 64" "n4 < 64"
  shows "b64_quanta (b64_char n1 # b64_char n2 # b64_char n3 # b64_char n4 # rest) =
    map_option (\<lambda>bs. char_of (n1 * 4 + n2 div 16) # char_of (n2 mod 16 * 16 + n3 div 4) #
      char_of (n3 mod 4 * 64 + n4) # bs) (b64_quanta rest)"
  using assms b64_char_neq_pad [of n4] by simp

lemma b64_quanta_encode: "b64_quanta (b64_encode bs) = Some bs"
proof (induction bs rule: b64_encode.induct)
  case 1
  then show ?case by simp
next
  case (2 x)
  then show ?case
    using b64_arith [of "of_char x" 0 0] b64_arith1 [of "of_char x"] by (simp add: Let_def)
next
  case (3 x y)
  note a = b64_arith [of "of_char x" "of_char y" 0] b64_arith2 [of "of_char x" "of_char y"]
  show ?case using a b64_char_neq_pad [OF a(8)] by (simp add: Let_def)
next
  case (4 x y z r)
  have lt: "(of_char c :: nat) < 256" for c by simp
  note a = b64_arith [OF lt [of x] lt [of y] lt [of z]]
  show ?case
    unfolding b64_encode.simps Let_def b64_quanta_full [OF a(1-4)] a(5-7) "4.IH" [OF refl refl refl]
    by simp
qed

lemma set_b64_encode: "set (b64_encode bs) \<subseteq> insert (CHR ''='') b64_alphabet"
proof (induction bs rule: b64_encode.induct)
  case 1
  then show ?case by simp
next
  case (2 x)
  show ?case
    using b64_arith(1) [of "of_char x" 0 0] by (auto simp: Let_def intro!: b64_char_in)
next
  case (3 x y)
  show ?case
    using b64_arith(1,2) [of "of_char x" "of_char y" 0] by (auto simp: Let_def intro!: b64_char_in)
next
  case (4 x y z r)
  then show ?case
    using b64_arith(1-4) [of "of_char x" "of_char y" "of_char z"]
    by (auto simp: Let_def intro!: b64_char_in)
qed

lemma b64_encode_no_space: "CHR '' '' \<notin> set (b64_encode bs)"
  using set_b64_encode [of bs] b64_alphabet_neq [of "CHR '' ''"] by auto

lemma b64_encode_no_newline: "c \<in> set (b64_encode bs) \<Longrightarrow> c \<noteq> CHR 0x0A \<and> c \<noteq> CHR 0x0D"
  using set_b64_encode [of bs] b64_alphabet_neq [of c] by (auto simp: b64_val_def)

lemma b64_decode_encode [simp]: "b64_decode (b64_encode bs) = Some bs"
proof -
  have "filter (\<lambda>c. c \<noteq> CHR 0x0A \<and> c \<noteq> CHR 0x0D) (b64_encode bs) = b64_encode bs"
    by (rule filter_True) (blast dest: b64_encode_no_newline)
  then show ?thesis by (simp add: b64_decode_def b64_quanta_encode)
qed

end
