(* ===== verification/GoJson.thy ===== *)
theory GoJson
  imports GoFloat GoStrings GoEncoding
begin

text \<open>
  Go's dynamic values (\<^verbatim>\<open>any\<close>, as YAML and JSON decoding produce them) and what the sources
  use of \<^verbatim>\<open>encoding/json\<close>: \<^verbatim>\<open>Marshal\<close> (sorted keys, HTML escaping, shortest float text) and
  \<^verbatim>\<open>Unmarshal\<close>, as a parser to a syntax tree and the dynamic value of a tree (every number is a
  \<^verbatim>\<open>float64\<close>, a repeated key keeps its last value).  \<^const>\<open>None\<close> is an error.  The parser's limit on the nesting depth
  (10000) is not modelled.
\<close>

datatype any =
    ANil
  | ABool bool
  | AInt int
  | AFloat f64
  | AStr string
  | AList "any list"
  | AMap "(string \<times> any) list"

section \<open>UTF-8\<close>

definition byte_in :: "nat \<Rightarrow> nat \<Rightarrow> char \<Rightarrow> bool" where
  "byte_in lo hi c \<longleftrightarrow> lo \<le> of_char c \<and> of_char c \<le> hi"

text \<open>The number of bytes of the valid encoding a string starts with, if it starts with one.\<close>

fun utf8_len :: "string \<Rightarrow> nat option" where
  "utf8_len [] = None"
| "utf8_len (c # r) =
     (let cont = byte_in 128 191 in
      if byte_in 0 127 c then Some 1
      else case r of
        [] \<Rightarrow> None
      | d # r' \<Rightarrow>
          (if byte_in 194 223 c then (if cont d then Some 2 else None)
           else case r' of
             [] \<Rightarrow> None
           | e # r'' \<Rightarrow>
               (if byte_in 224 239 c then
                  (if cont e \<and> cont d \<and> (c = CHR 0xE0 \<longrightarrow> byte_in 160 191 d) \<and> (c = CHR 0xED \<longrightarrow> byte_in 128 159 d)
                   then Some 3 else None)
                else case r'' of
                  [] \<Rightarrow> None
                | f # _ \<Rightarrow>
                    (if byte_in 240 244 c \<and> cont f \<and> cont e \<and> cont d \<and>
                        (c = CHR 0xF0 \<longrightarrow> byte_in 144 191 d) \<and> (c = CHR 0xF4 \<longrightarrow> byte_in 128 143 d)
                     then Some 4 else None))))"

definition utf8_encode :: "nat \<Rightarrow> string" where
  "utf8_encode n =
     map char_of
       (if n < 0x80 then [n]
        else if n < 0x800 then [0xC0 + n div 64, 0x80 + n mod 64]
        else if n < 0x10000 then [0xE0 + n div 4096, 0x80 + n div 64 mod 64, 0x80 + n mod 64]
        else [0xF0 + n div 262144, 0x80 + n div 4096 mod 64, 0x80 + n div 64 mod 64, 0x80 + n mod 64])"

definition replacement_char :: string where
  "replacement_char = map char_of [0xEF, 0xBF, 0xBD :: nat]"

section \<open>Marshal\<close>

definition backslash :: char where "backslash = CHR 0x5C"
definition dquote :: char where "dquote = CHR 0x22"

definition hex4 :: "nat \<Rightarrow> string" where
  "hex4 n = map (\<lambda>i. hex_digit (n div 16 ^ i mod 16)) [3, 2, 1, 0]"

definition escape_ascii :: "char \<Rightarrow> string" where
  "escape_ascii c =
     (if c = backslash \<or> c = dquote then [backslash, c]
      else if c = CHR 0x08 then [backslash, CHR ''b'']
      else if c = CHR 0x0C then [backslash, CHR ''f'']
      else if c = CHR 0x0A then [backslash, CHR ''n'']
      else if c = CHR 0x0D then [backslash, CHR ''r'']
      else if c = CHR 0x09 then [backslash, CHR ''t'']
      else if of_char c < (32::nat) \<or> c \<in> set ''<>&'' then [backslash, CHR ''u''] @ hex4 (of_char c)
      else [c])"

text \<open>Multi-byte runes are copied, except U+2028 and U+2029; an invalid byte becomes U+FFFD.\<close>

function json_escape :: "string \<Rightarrow> string" where
  "json_escape s =
     (case s of
        [] \<Rightarrow> []
      | c # r \<Rightarrow>
          (if byte_in 0 127 c then escape_ascii c @ json_escape r
           else case utf8_len s of
             None \<Rightarrow> backslash # ''ufffd'' @ json_escape r
           | Some k \<Rightarrow>
               (let u = take k s in
                if u = map char_of [0xE2, 0x80, 0xA8 :: nat] then backslash # ''u2028''
                else if u = map char_of [0xE2, 0x80, 0xA9 :: nat] then backslash # ''u2029''
                else u) @ json_escape (drop (max 1 k) s)))"
  by pat_completeness auto
termination
  by (relation "measure length") auto

declare json_escape.simps [simp del]

definition json_string :: "string \<Rightarrow> string" where
  "json_string s = dquote # json_escape s @ [dquote]"

text \<open>
  The shortest decimal that reads back as the same \<^verbatim>\<open>float64\<close>: for \<open>p = 1, 2, \<dots>\<close> digits,
  the two decimals next to the value; the nearer one where both read back.  The result is
  the digits (no trailing zero) and the position of the decimal point before them.
\<close>

definition pow10 :: "int \<Rightarrow> rat" where
  "pow10 k = (if 0 \<le> k then 10 ^ nat k else 1 / 10 ^ nat (- k))"

definition decimal_point :: "rat \<Rightarrow> int" where
  "decimal_point a =
     (if 1 \<le> a then int (length (dec_digits \<lfloor>a\<rfloor>)) else 1 - int (length (dec_digits (\<lceil>1 / a\<rceil> - 1))))"

definition decimal_at :: "rat \<Rightarrow> nat \<Rightarrow> int option" where
  "decimal_at a p =
     (let u = pow10 (decimal_point a - int p); lo = \<lfloor>a / u\<rfloor>; hi = lo + 1;
          ok = (\<lambda>n. f64_round (of_int n * u) = F64 a)
      in if of_int lo * u = a then Some lo
         else if ok lo \<and> ok hi then Some (round_half_even (a / u))
         else if ok lo then Some lo
         else if ok hi then Some hi
         else None)"

definition shortest_decimal :: "rat \<Rightarrow> string \<times> int" where
  "shortest_decimal a =
     (case List.map_filter (\<lambda>p. map_option (\<lambda>n. (n, p)) (decimal_at a p)) [1..<18] of
        [] \<Rightarrow> ([], 0)
      | (n, p) # _ \<Rightarrow>
          (let ds = dec_digits n
           in (rev (dropWhile (\<lambda>c. c = CHR ''0'') (rev ds)), decimal_point a + int (length ds) - int p)))"

definition fixed_text :: "string \<Rightarrow> int \<Rightarrow> string" where
  "fixed_text ds dp =
     (if dp \<le> 0 then ''0.'' @ replicate (nat (- dp)) (CHR ''0'') @ ds
      else if int (length ds) \<le> dp then ds @ replicate (nat dp - length ds) (CHR ''0'')
      else take (nat dp) ds @ ''.'' @ drop (nat dp) ds)"

definition exp_text :: "string \<Rightarrow> int \<Rightarrow> string" where
  "exp_text ds dp =
     take 1 ds @ (if 1 < length ds then ''.'' @ drop 1 ds else []) @ ''e'' @
     (if dp - 1 < 0 then ''-'' else ''+'') @ dec_digits \<bar>dp - 1\<bar>"

fun json_float :: "f64 \<Rightarrow> string option" where
  "json_float (F64 q) =
     (if q = 0 then Some ''0''
      else let a = \<bar>q\<bar>; (ds, dp) = shortest_decimal a
           in Some ((if q < 0 then ''-'' else []) @
                (if a < pow10 (- 6) \<or> pow10 21 \<le> a then exp_text ds dp else fixed_text ds dp)))"
| "json_float _ = None"

text \<open>
  \<^verbatim>\<open>fmt\<close> with \<^verbatim>\<open>%v\<close> or \<^verbatim>\<open>%g\<close>: the shortest decimal, with an exponent of at least two digits when it is below
  -4 or above 5.
\<close>

fun fmt_g :: "f64 \<Rightarrow> string" where
  "fmt_g (F64 q) =
     (if q = 0 then ''0''
      else let (ds, dp) = shortest_decimal \<bar>q\<bar>; ex = dp - 1
           in (if q < 0 then ''-'' else []) @
              (if ex < - 4 \<or> 6 \<le> ex
               then take 1 ds @ (if 1 < length ds then ''.'' @ drop 1 ds else []) @ ''e'' @
                    (if ex < 0 then ''-'' else ''+'') @ (if \<bar>ex\<bar> < 10 then ''0'' else []) @ dec_digits \<bar>ex\<bar>
               else fixed_text ds dp))"
| "fmt_g (F64Inf neg) = (if neg then ''-Inf'' else ''+Inf'')"
| "fmt_g F64NaN = ''NaN''"

fun join_with :: "string \<Rightarrow> string list \<Rightarrow> string" where
  "join_with sep [] = []"
| "join_with sep [x] = x"
| "join_with sep (x # xs) = x @ sep @ join_with sep xs"

fun json_marshal :: "any \<Rightarrow> string option" where
  "json_marshal ANil = Some ''null''"
| "json_marshal (ABool b) = Some (if b then ''true'' else ''false'')"
| "json_marshal (AInt n) = Some (int_to_dec n)"
| "json_marshal (AFloat x) = json_float x"
| "json_marshal (AStr s) = Some (json_string s)"
| "json_marshal (AList xs) =
     map_option (\<lambda>ts. ''['' @ join_with '','' ts @ '']'') (those (map json_marshal xs))"
| "json_marshal (AMap m) =
     map_option
       (\<lambda>es. ''{'' @ join_with '','' (map (\<lambda>(k, t). json_string k @ '':'' @ t) (sort_key fst es)) @ ''}'')
       (those (map (\<lambda>(k, v). map_option (Pair k) (json_marshal v)) m))"

section \<open>Unmarshal\<close>

definition skip_ws :: "string \<Rightarrow> string" where
  "skip_ws s = dropWhile (\<lambda>c. c = CHR '' '' \<or> c = CHR 0x09 \<or> c = CHR 0x0A \<or> c = CHR 0x0D) s"

definition hex_val :: "char \<Rightarrow> nat option" where
  "hex_val c =
     (let n = of_char c :: nat in
      if 48 \<le> n \<and> n \<le> 57 then Some (n - 48)
      else if 97 \<le> n \<and> n \<le> 102 then Some (n - 87)
      else if 65 \<le> n \<and> n \<le> 70 then Some (n - 55)
      else None)"

fun hex4_val :: "string \<Rightarrow> nat option" where
  "hex4_val [a, b, c, d] =
     (case (hex_val a, hex_val b, hex_val c, hex_val d) of
        (Some w, Some x, Some y, Some z) \<Rightarrow> Some (((w * 16 + x) * 16 + y) * 16 + z)
      | _ \<Rightarrow> None)"
| "hex4_val _ = None"

definition surrogate :: "nat \<Rightarrow> bool" where
  "surrogate n \<longleftrightarrow> 0xD800 \<le> n \<and> n < 0xE000"

text \<open>
  A \<^verbatim>\<open>\u\<close> escape: two escapes that form a surrogate pair are one rune, a surrogate alone
  is U+FFFD.  The second component is the number of bytes used after the first \<^verbatim>\<open>\u\<close>.
\<close>

definition unicode_escape :: "string \<Rightarrow> (string \<times> nat) option" where
  "unicode_escape r =
     (case hex4_val (take 4 r) of
        None \<Rightarrow> None
      | Some n \<Rightarrow>
          (if \<not> surrogate n then Some (utf8_encode n, 4)
           else case (if take 2 (drop 4 r) = [backslash, CHR ''u''] then hex4_val (take 4 (drop 6 r)) else None) of
             Some m \<Rightarrow>
               (if n < 0xDC00 \<and> 0xDC00 \<le> m \<and> m < 0xE000
                then Some (utf8_encode (0x10000 + (n - 0xD800) * 0x400 + (m - 0xDC00)), 10)
                else Some (replacement_char, 4))
           | None \<Rightarrow> Some (replacement_char, 4)))"

text \<open>The rest of a string literal after its opening quote: its contents and what follows.\<close>

function json_unquote :: "string \<Rightarrow> (string \<times> string) option" where
  "json_unquote s =
     (case s of
        [] \<Rightarrow> None
      | c # r \<Rightarrow>
          (if c = dquote then Some ([], r)
           else if of_char c < (32::nat) then None
           else if c = backslash then
             (case r of
                [] \<Rightarrow> None
              | e # r' \<Rightarrow>
                  (if e = CHR ''u'' then
                     (case unicode_escape r' of
                        None \<Rightarrow> None
                      | Some (u, k) \<Rightarrow> map_option (\<lambda>(t, z). (u @ t, z)) (json_unquote (drop k r')))
                   else case map_of
                       [(dquote, dquote), (backslash, backslash), (CHR ''/'', CHR ''/''), (CHR ''b'', CHR 0x08),
                        (CHR ''f'', CHR 0x0C), (CHR ''n'', CHR 0x0A), (CHR ''r'', CHR 0x0D), (CHR ''t'', CHR 0x09)] e of
                     None \<Rightarrow> None
                   | Some x \<Rightarrow> map_option (\<lambda>(t, z). (x # t, z)) (json_unquote r')))
           else case utf8_len s of
             None \<Rightarrow> map_option (\<lambda>(t, z). (replacement_char @ t, z)) (json_unquote r)
           | Some k \<Rightarrow> map_option (\<lambda>(t, z). (take k s @ t, z)) (json_unquote (drop (max 1 k) s))))"
  by pat_completeness auto
termination
  by (relation "measure length") auto

declare json_unquote.simps [simp del]

text \<open>
  A number literal: sign, integer part, fraction, exponent; and the text after it.  Its value
  as a \<^verbatim>\<open>float64\<close> is \<^const>\<open>None\<close> when it is out of range.
\<close>

definition number_parts :: "string \<Rightarrow> bool \<times> string \<times> string \<times> string \<times> string \<times> string" where
  "number_parts s =
     (let (neg, s0) = (case s of c # r \<Rightarrow> if c = CHR ''-'' then (True, r) else (False, s) | [] \<Rightarrow> (False, s));
          ip = (if take 1 s0 = ''0'' then ''0'' else takeWhile is_digit s0);
          s1 = drop (length ip) s0;
          fp = (if take 1 s1 = ''.'' then ''.'' @ takeWhile is_digit (drop 1 s1) else []);
          s2 = drop (length fp) s1;
          has_e = (take 1 s2 = ''e'' \<or> take 1 s2 = ''E'');
          sg = (if has_e \<and> (take 1 (drop 1 s2) = ''+'' \<or> take 1 (drop 1 s2) = ''-'') then take 1 (drop 1 s2) else []);
          ep = (if has_e then take 1 s2 @ sg @ takeWhile is_digit (drop (1 + length sg) s2) else [])
      in (neg, ip, fp, sg, ep, drop (length ep) s2))"

definition json_number :: "string \<Rightarrow> (string \<times> string) option" where
  "json_number s =
     (let (neg, ip, fp, sg, ep, z) = number_parts s
      in if ip = [] \<or> fp = ''.'' \<or> (ep \<noteq> [] \<and> length ep = 1 + length sg) then None
         else Some ((if neg then ''-'' else []) @ ip @ fp @ ep, z))"

definition number_value :: "string \<Rightarrow> f64 option" where
  "number_value lit =
     (let (neg, ip, fp, sg, ep, z) = number_parts lit;
          e = digits_val (drop (1 + length sg) ep);
          ex = (if sg = ''-'' then - e else e) - int (length fp - 1);
          q = of_int (digits_val (ip @ drop 1 fp)) * pow10 ex
      in case f64_round (if neg then - q else q) of
           F64 v \<Rightarrow> Some (F64 v)
         | _ \<Rightarrow> None)"

text \<open>
  The syntax tree of a text: numbers keep their literal, objects their members in order with
  repetitions, which is what decoding into a typed value depends on.
\<close>

datatype json =
    JNull
  | JBool bool
  | JNum string
  | JStr string
  | JArr "json list"
  | JObj "(string \<times> json) list"

text \<open>
  Values, the elements of an array after its bracket, the members of an object after its
  brace.  Each recursive call is on a shorter rest; the guards \<open>length r < length s\<close> always
  hold and make that visible to the termination proof.
\<close>

function (sequential) json_value :: "string \<Rightarrow> (json \<times> string) option"
  and json_elems :: "string \<Rightarrow> (json list \<times> string) option"
  and json_members :: "string \<Rightarrow> ((string \<times> json) list \<times> string) option"
where
  "json_value s =
     (case skip_ws s of
        [] \<Rightarrow> None
      | c # r \<Rightarrow>
          (if c = CHR ''{'' then
             (if take 1 (skip_ws r) = ''}'' then Some (JObj [], drop 1 (skip_ws r))
              else if length r < length s
              then map_option (\<lambda>(m, z). (JObj m, z)) (json_members r) else None)
           else if c = CHR ''['' then
             (if take 1 (skip_ws r) = '']'' then Some (JArr [], drop 1 (skip_ws r))
              else if length r < length s
              then map_option (\<lambda>(xs, z). (JArr xs, z)) (json_elems r) else None)
           else if c = dquote then map_option (\<lambda>(t, z). (JStr t, z)) (json_unquote r)
           else if take 4 (c # r) = ''true'' then Some (JBool True, drop 4 (c # r))
           else if take 5 (c # r) = ''false'' then Some (JBool False, drop 5 (c # r))
           else if take 4 (c # r) = ''null'' then Some (JNull, drop 4 (c # r))
           else map_option (\<lambda>(x, z). (JNum x, z)) (json_number (c # r))))"
| "json_elems s =
     (case json_value s of
        None \<Rightarrow> None
      | Some (v, r) \<Rightarrow>
          (case skip_ws r of
             c # z \<Rightarrow>
               (if c = CHR '']'' then Some ([v], z)
                else if c = CHR '','' \<and> length z < length s
                then map_option (\<lambda>(vs, y). (v # vs, y)) (json_elems z)
                else None)
           | [] \<Rightarrow> None))"
| "json_members s =
     (case skip_ws s of
        c # q \<Rightarrow>
          (if c \<noteq> dquote then None
           else case json_unquote q of
             None \<Rightarrow> None
           | Some (k, r) \<Rightarrow>
               (case skip_ws r of
                  d # t \<Rightarrow>
                    (if d \<noteq> CHR '':'' \<or> \<not> length t < length s then None
                     else case json_value t of
                       None \<Rightarrow> None
                     | Some (v, y) \<Rightarrow>
                         (case skip_ws y of
                            e # z \<Rightarrow>
                              (if e = CHR ''}'' then Some ([(k, v)], z)
                               else if e = CHR '','' \<and> length z < length s
                               then map_option (\<lambda>(m, x). ((k, v) # m, x)) (json_members z)
                               else None)
                          | [] \<Rightarrow> None))
                | [] \<Rightarrow> None))
      | [] \<Rightarrow> None)"
  by pat_completeness auto
termination
  by (relation "measure (\<lambda>x. case x of Inl s \<Rightarrow> 2 * length s | Inr (Inl s) \<Rightarrow> 2 * length s + 1 | Inr (Inr s) \<Rightarrow> 2 * length s + 1)")
    auto

declare json_value.simps [simp del] json_elems.simps [simp del] json_members.simps [simp del]

text \<open>A text that is one value; a dynamic value from its tree (the last of repeated keys counts).\<close>

definition json_parse :: "string \<Rightarrow> json option" where
  "json_parse s =
     (case json_value s of
        Some (v, r) \<Rightarrow> if skip_ws r = [] then Some v else None
      | None \<Rightarrow> None)"

definition last_of_keys :: "(string \<times> 'v) list \<Rightarrow> 'v dict" where
  "last_of_keys es = foldr (\<lambda>(k, v) m. if k \<in> fst ` set m then m else (k, v) # m) es []"

fun any_of_json :: "json \<Rightarrow> any option" where
  "any_of_json JNull = Some ANil"
| "any_of_json (JBool b) = Some (ABool b)"
| "any_of_json (JNum l) = map_option AFloat (number_value l)"
| "any_of_json (JStr s) = Some (AStr s)"
| "any_of_json (JArr xs) = map_option AList (those (map any_of_json xs))"
| "any_of_json (JObj ms) =
     map_option (\<lambda>es. AMap (last_of_keys es)) (those (map (\<lambda>(k, v). map_option (Pair k) (any_of_json v)) ms))"

definition json_unmarshal :: "string \<Rightarrow> any option" where
  "json_unmarshal s = Option.bind (json_parse s) any_of_json"

end
