(* ===== verification/GoTime.thy ===== *)
theory GoTime
  imports GoFloat GoStrings
begin

text \<open>
  What the sources use of Go's \<^verbatim>\<open>time\<close> package.  A \<^verbatim>\<open>time.Time\<close> is the number of
  nanoseconds since the Unix epoch (every instant the code keeps is in UTC), a
  \<^verbatim>\<open>time.Duration\<close> an \<^verbatim>\<open>int64\<close> number of nanoseconds.  Formatting and parsing follow
  RFC 3339 with nanoseconds (trailing zeros of the fraction removed), \<^verbatim>\<open>ParseDuration\<close> and
  \<^verbatim>\<open>Duration.String\<close> the package's algorithms.  The lemmas: the civil calendar and its
  inverse, and that parsing inverts formatting for the years 0 to 9999.
\<close>

type_synonym time = int
type_synonym duration = int

definition nanosecond :: duration where "nanosecond = 1"
definition second :: duration where "second = 1000000000"
definition minute :: duration where "minute = 60 * second"
definition hour :: duration where "hour = 60 * minute"

text \<open>\<^verbatim>\<open>Time.Add\<close> is exact on the instants considered; \<^verbatim>\<open>Time.Sub\<close> saturates at the range of \<^verbatim>\<open>Duration\<close>.\<close>

definition time_add :: "time \<Rightarrow> duration \<Rightarrow> time" where
  "time_add t d = t + d"

definition time_sub :: "time \<Rightarrow> time \<Rightarrow> duration" where
  "time_sub t u = sat64 (t - u)"

section \<open>The civil calendar\<close>

definition leap_year :: "int \<Rightarrow> bool" where
  "leap_year y \<longleftrightarrow> 4 dvd y \<and> (\<not> 100 dvd y \<or> 400 dvd y)"

definition month_lengths :: "int \<Rightarrow> int list" where
  "month_lengths y = [31, if leap_year y then 29 else 28, 31, 30, 31, 30, 31, 31, 30, 31, 30, 31]"

text \<open>Days from 1 January of year 1 to 1 January of year \<open>y + 1\<close>; 1970 starts at day 719162.\<close>

definition days_before :: "int \<Rightarrow> int" where
  "days_before y = 365 * y + y div 4 - y div 100 + y div 400"

definition epoch_day :: int where "epoch_day = 719162"

fun walk_months :: "int \<Rightarrow> int list \<Rightarrow> int \<Rightarrow> int \<times> int" where
  "walk_months m [] d = (m, d + 1)"
| "walk_months m (l # ls) d = (if d < l then (m, d + 1) else walk_months (m + 1) ls (d - l))"

definition civil_of_days :: "int \<Rightarrow> int \<times> int \<times> int" where
  "civil_of_days z =
     (let d = z + epoch_day; e = (400 * d + 699) div 146097;
          y = (if days_before e \<le> d then e else e - 1);
          (m, k) = walk_months 1 (month_lengths (y + 1)) (d - days_before y)
      in (y + 1, m, k))"

definition days_of_civil :: "int \<Rightarrow> int \<Rightarrow> int \<Rightarrow> int" where
  "days_of_civil y m d =
     days_before (y - 1) + sum_list (take (nat (m - 1)) (month_lengths y)) + d - 1 - epoch_day"

section \<open>RFC 3339 with nanoseconds\<close>

definition pad_digits :: "nat \<Rightarrow> int \<Rightarrow> string" where
  "pad_digits w n = (let s = dec_digits n in replicate (w - length s) (CHR ''0'') @ s)"

definition pad_int :: "nat \<Rightarrow> int \<Rightarrow> string" where
  "pad_int w n = (if n < 0 then CHR ''-'' # pad_digits w (- n) else pad_digits w n)"

definition strip_zeros :: "string \<Rightarrow> string" where
  "strip_zeros s = rev (dropWhile (\<lambda>c. c = CHR ''0'') (rev s))"

definition frac_text :: "int \<Rightarrow> string" where
  "frac_text ns = (if ns = 0 then [] else CHR ''.'' # strip_zeros (pad_int 9 ns))"

definition format_rfc3339 :: "time \<Rightarrow> string" where
  "format_rfc3339 t =
     (let secs = t div second; ns = t mod second;
          sod = secs mod 86400; (y, m, d) = civil_of_days (secs div 86400)
      in pad_int 4 y @ ''-'' @ pad_int 2 m @ ''-'' @ pad_int 2 d @ ''T'' @
         pad_int 2 (sod div 3600) @ '':'' @ pad_int 2 (sod div 60 mod 60) @ '':'' @
         pad_int 2 (sod mod 60) @ frac_text ns @ ''Z'')"

text \<open>
  \<^verbatim>\<open>time.Parse\<close> with the RFC 3339 layouts.  Modelled is the package's dedicated parser for
  these layouts, which accepts everything the code itself writes; \<^const>\<open>None\<close> is a parse
  error.
\<close>

definition parse_uint :: "string \<Rightarrow> int \<Rightarrow> int \<Rightarrow> int option" where
  "parse_uint s lo hi =
     (if s \<noteq> [] \<and> list_all is_digit s \<and> lo \<le> digits_val s \<and> digits_val s \<le> hi
      then Some (digits_val s) else None)"

definition parse_frac :: "string \<Rightarrow> int \<times> string" where
  "parse_frac s =
     (case s of
        c # r \<Rightarrow>
          (let ds = takeWhile is_digit r; k = take 9 ds in
           if c = CHR ''.'' \<and> ds \<noteq> []
           then (digits_val k * 10 ^ (9 - length k), dropWhile is_digit r)
           else (0, s))
      | [] \<Rightarrow> (0, s))"

definition parse_zone :: "string \<Rightarrow> int option" where
  "parse_zone s =
     (if s = ''Z'' then Some 0
      else if length s = 6 \<and> (s ! 0 = CHR ''+'' \<or> s ! 0 = CHR ''-'') \<and> s ! 3 = CHR '':'' then
        (case (parse_uint (take 2 (drop 1 s)) 0 23, parse_uint (drop 4 s) 0 59) of
           (Some h, Some m) \<Rightarrow>
             Some ((if s ! 0 = CHR ''-'' then - 1 else 1) * (h * 60 + m) * 60)
         | _ \<Rightarrow> None)
      else None)"

definition parse_rfc3339 :: "string \<Rightarrow> time option" where
  "parse_rfc3339 s =
     (if length s < 19 \<or> s ! 4 \<noteq> CHR ''-'' \<or> s ! 7 \<noteq> CHR ''-'' \<or> s ! 10 \<noteq> CHR ''T'' \<or>
         s ! 13 \<noteq> CHR '':'' \<or> s ! 16 \<noteq> CHR '':'' then None
      else case (parse_uint (take 4 s) 0 9999, parse_uint (take 2 (drop 5 s)) 1 12) of
        (Some y, Some m) \<Rightarrow>
          (case (parse_uint (take 2 (drop 8 s)) 1 (month_lengths y ! nat (m - 1)),
                 parse_uint (take 2 (drop 11 s)) 0 23, parse_uint (take 2 (drop 14 s)) 0 59,
                 parse_uint (take 2 (drop 17 s)) 0 59) of
             (Some d, Some h, Some mi, Some se) \<Rightarrow>
               (let (ns, r) = parse_frac (drop 19 s) in
                case parse_zone r of
                  None \<Rightarrow> None
                | Some off \<Rightarrow>
                    Some ((days_of_civil y m d * 86400 + h * 3600 + mi * 60 + se - off) * second + ns))
           | _ \<Rightarrow> None)
      | _ \<Rightarrow> None)"

text \<open>The zero \<^verbatim>\<open>time.Time\<close>, which a failed parse leaves: 1 January of year 1.\<close>

definition zero_time :: time where
  "zero_time = - epoch_day * 86400 * second"

definition parse_or_zero :: "string \<Rightarrow> time" where
  "parse_or_zero s = (case parse_rfc3339 s of None \<Rightarrow> zero_time | Some t \<Rightarrow> t)"

section \<open>Durations as text\<close>

definition micro_sign :: string where
  "micro_sign = map char_of [0xC2, 0xB5 :: nat]"

definition greek_mu :: string where
  "greek_mu = map char_of [0xCE, 0xBC :: nat]"

definition unit_map :: "(string \<times> int) list" where
  "unit_map =
     [(''ns'', 1), (''us'', 1000), (micro_sign @ ''s'', 1000), (greek_mu @ ''s'', 1000),
      (''ms'', 1000000), (''s'', second), (''m'', minute), (''h'', hour)]"

text \<open>\<^verbatim>\<open>leadingInt\<close>: \<^const>\<open>None\<close> on overflow of \<open>2 ^ 63\<close>.\<close>

fun leading_int :: "int \<Rightarrow> string \<Rightarrow> (int \<times> string) option" where
  "leading_int x [] = Some (x, [])"
| "leading_int x (c # s) =
     (if \<not> is_digit c then Some (x, c # s)
      else if x > 2 ^ 63 div 10 then None
      else let y = x * 10 + digit_val c
           in if y > 2 ^ 63 then None else leading_int y s)"

text \<open>\<^verbatim>\<open>leadingFraction\<close>: digits beyond the range of \<^verbatim>\<open>int64\<close> are skipped.\<close>

fun leading_fraction :: "int \<Rightarrow> int \<Rightarrow> bool \<Rightarrow> string \<Rightarrow> int \<times> int \<times> string" where
  "leading_fraction x scale ov [] = (x, scale, [])"
| "leading_fraction x scale ov (c # s) =
     (if \<not> is_digit c then (x, scale, c # s)
      else if ov then leading_fraction x scale True s
      else if x > (2 ^ 63 - 1) div 10 then leading_fraction x scale True s
      else let y = x * 10 + digit_val c
           in if y > 2 ^ 63 then leading_fraction x scale True s
              else leading_fraction y (scale * 10) False s)"

definition is_num_char :: "char \<Rightarrow> bool" where
  "is_num_char c \<longleftrightarrow> c = CHR ''.'' \<or> is_digit c"

definition opt_fraction :: "string \<Rightarrow> int \<times> int \<times> string \<times> bool" where
  "opt_fraction s =
     (case s of
        c # r \<Rightarrow>
          (if c = CHR ''.'' then
             (let (f, scale, r') = leading_fraction 0 1 False r
              in (f, scale, r', length r' \<noteq> length r))
           else (0, 1, s, False))
      | [] \<Rightarrow> (0, 1, s, False))"

text \<open>
  One round of the loop of \<^verbatim>\<open>ParseDuration\<close>: a number with an optional fraction, then a
  unit.  The fraction is scaled in \<^verbatim>\<open>float64\<close>.
\<close>

definition duration_term :: "string \<Rightarrow> (int \<times> string) option" where
  "duration_term s =
     (if s = [] \<or> \<not> is_num_char (hd s) then None
      else case leading_int 0 s of
        None \<Rightarrow> None
      | Some (v, s1) \<Rightarrow>
          (let pre = (length s1 \<noteq> length s);
               (f, scale, s2, post) = opt_fraction s1;
               u = takeWhile (\<lambda>c. \<not> is_num_char c) s2;
               rest = dropWhile (\<lambda>c. \<not> is_num_char c) s2
           in if \<not> pre \<and> \<not> post \<or> u = [] then None
              else case map_of unit_map u of
                None \<Rightarrow> None
              | Some unit \<Rightarrow>
                  (if v > 2 ^ 63 div unit then None
                   else let w = v * unit +
                              (if f > 0
                               then f64_to_int (f64_mul (f64_of_int f) (f64_div (f64_of_int unit) (f64_of_int scale)))
                               else 0)
                        in if w > 2 ^ 63 then None else Some (w, rest))))"

lemma leading_int_length: "leading_int x s = Some (v, r) \<Longrightarrow> length r \<le> length s"
  by (induction x s rule: leading_int.induct) (auto simp: Let_def split: if_splits)

lemma leading_fraction_length: "leading_fraction x sc ov s = (f, sc', r) \<Longrightarrow> length r \<le> length s"
  by (induction x sc ov s rule: leading_fraction.induct) (auto simp: Let_def split: if_splits)

lemma opt_fraction_length: "opt_fraction s = (f, scale, r, post) \<Longrightarrow> length r \<le> length s"
  by (auto simp: opt_fraction_def Let_def split: list.splits if_splits prod.splits
      dest!: leading_fraction_length)

lemma duration_term_shorter:
  assumes "duration_term s = Some (w, rest)"
  shows "length rest < length s"
proof -
  from assms obtain v s1 where li: "leading_int 0 s = Some (v, s1)"
    by (auto simp: duration_term_def split: if_splits option.splits)
  obtain f scale s2 post where fr: "opt_fraction s1 = (f, scale, s2, post)"
    by (rule prod_cases4)
  let ?u = "takeWhile (\<lambda>c. \<not> is_num_char c) s2" and ?r = "dropWhile (\<lambda>c. \<not> is_num_char c) s2"
  from assms li fr have "?u \<noteq> []" "rest = ?r"
    by (simp_all add: duration_term_def Let_def split: if_splits option.splits)
  moreover have "length s2 = length ?u + length ?r"
    by (metis takeWhile_dropWhile_id length_append)
  ultimately have "length rest < length s2" by simp
  with leading_int_length [OF li] opt_fraction_length [OF fr] show ?thesis by linarith
qed

function duration_terms :: "int \<Rightarrow> string \<Rightarrow> int option" where
  "duration_terms d s =
     (if s = [] then Some d
      else case duration_term s of
        None \<Rightarrow> None
      | Some (v, rest) \<Rightarrow> (if d + v > 2 ^ 63 then None else duration_terms (d + v) rest))"
  by pat_completeness auto
termination
  by (relation "measure (\<lambda>(d, s). length s)") (auto dest: duration_term_shorter)

declare duration_terms.simps [simp del]

definition parse_duration :: "string \<Rightarrow> duration option" where
  "parse_duration s =
     (let (neg, r) = (case s of
            c # cs \<Rightarrow> if c = CHR ''-'' then (True, cs) else if c = CHR ''+'' then (False, cs) else (False, s)
          | [] \<Rightarrow> (False, s))
      in if r = ''0'' then Some 0
         else if r = [] then None
         else case duration_terms 0 r of
           None \<Rightarrow> None
         | Some d \<Rightarrow> if neg then Some (- d) else if d > 2 ^ 63 - 1 then None else Some d)"

text \<open>\<^verbatim>\<open>Duration.String\<close>: the fraction of \<open>v\<close> below \<open>10 ^ prec\<close>, without trailing zeros.\<close>

definition frac_digits :: "int \<Rightarrow> nat \<Rightarrow> string" where
  "frac_digits v prec =
     (if v mod 10 ^ prec = 0 then [] else CHR ''.'' # strip_zeros (pad_digits prec (v mod 10 ^ prec)))"

definition duration_string :: "duration \<Rightarrow> string" where
  "duration_string d =
     (let u = \<bar>d\<bar>; sign = (if d < 0 then ''-'' else []);
          small = (\<lambda>p unit. sign @ dec_digits (u div 10 ^ p) @ frac_digits u p @ unit) in
      if u = 0 then ''0s''
      else if u < 1000 then small 0 ''ns''
      else if u < 1000000 then small 3 (micro_sign @ ''s'')
      else if u < 1000000000 then small 6 ''ms''
      else (let secs = u div 1000000000; mins = secs div 60; hrs = mins div 60 in
        sign @ (if hrs > 0 then dec_digits hrs @ ''h'' else []) @
        (if mins > 0 then dec_digits (mins mod 60) @ ''m'' else []) @
        dec_digits (secs mod 60) @ frac_digits u 9 @ ''s''))"

section \<open>The calendar and its inverse\<close>

lemma days_before_400:
  "400 * days_before y = 146097 * y - 100 * (y mod 4) + 4 * (y mod 100) - y mod 400"
proof -
  have lin: "400 * (365 * y + a - b + c) = 146097 * y - 100 * r + 4 * s - t"
    if "4 * a = y - r" "100 * b = y - s" "400 * c = y - t" for a b c r s t :: int
  proof -
    from that have "400 * a = 100 * y - 100 * r" "400 * b = 4 * y - 4 * s" by simp_all
    with that(3) show ?thesis by (simp add: algebra_simps)
  qed
  show ?thesis unfolding days_before_def
    by (rule lin) (simp_all add: minus_mod_eq_mult_div)
qed

lemma days_before_bounds:
  "146097 * y - 699 \<le> 400 * days_before y" "400 * days_before y \<le> 146097 * y + 396"
proof -
  have "0 \<le> y mod 4" "y mod 4 \<le> 3" "0 \<le> y mod 100" "y mod 100 \<le> 99" "0 \<le> y mod 400" "y mod 400 \<le> 399"
    using pos_mod_bound [of 4 y] pos_mod_bound [of 100 y] pos_mod_bound [of 400 y] by auto
  then show "146097 * y - 699 \<le> 400 * days_before y" "400 * days_before y \<le> 146097 * y + 396"
    unfolding days_before_400 by linarith+
qed

lemma div_Suc: "(y + 1) div k = y div k + (if k dvd y + 1 then 1 else 0)" if "(0::int) < k" for y k
proof -
  have q: "y = k * (y div k) + y mod k" by simp
  have r: "0 \<le> y mod k" "y mod k < k" using that by auto
  show ?thesis
  proof (cases "y mod k + 1 = k")
    case True
    have "k * (y div k) = y - y mod k" by (simp add: minus_mod_eq_mult_div)
    then have "y + 1 = k * (y div k + 1)" using True by (simp add: distrib_left)
    with that show ?thesis by simp
  next
    case False
    have e: "y + 1 = (y mod k + 1) + k * (y div k)" using q by linarith
    have "y mod k + 1 < k" using False r by linarith
    then have "(y mod k + 1) div k = 0" using r by (simp add: div_pos_pos_trivial)
    then have "(y + 1) div k = y div k" unfolding e using that by (subst div_mult_self2) auto
    moreover have "\<not> k dvd y + 1"
    proof
      assume "k dvd y + 1"
      then have "k dvd y mod k + 1" using e by (metis dvd_add_times_triv_right_iff mult.commute)
      then show False using False r zdvd_imp_le [of k "y mod k + 1"] by linarith
    qed
    ultimately show ?thesis by simp
  qed
qed

lemma sum_month_lengths: "sum_list (month_lengths y) = (if leap_year y then 366 else 365)"
  by (simp add: month_lengths_def)

lemma days_before_Suc: "days_before (y + 1) = days_before y + sum_list (month_lengths (y + 1))"
proof -
  have d: "4 dvd y + 1" if "100 dvd y + 1" using that by (rule dvd_trans [rotated]) simp
  have d': "100 dvd y + 1" if "400 dvd y + 1" using that by (rule dvd_trans [rotated]) simp
  have "days_before (y + 1) = days_before y + 365 + (if 4 dvd y + 1 then 1 else 0)
      - (if 100 dvd y + 1 then 1 else 0) + (if 400 dvd y + 1 then 1 else 0)"
  proof -
    have lin: "365 * (y + 1) + a' - b' + c' = 365 * y + a - b + c + 365 + p - q + r"
      if "a' = a + p" "b' = b + q" "c' = c + r" for a a' b b' c c' p q r :: int
      using that by simp
    show ?thesis unfolding days_before_def by (rule lin; rule div_Suc) simp_all
  qed
  also have "\<dots> = days_before y + (if leap_year (y + 1) then 366 else 365)"
    unfolding leap_year_def using d d'
    by (cases "4 dvd y + 1"; cases "100 dvd y + 1"; cases "400 dvd y + 1"; simp only: if_True if_False simp_thms)
  finally show ?thesis by (simp add: sum_month_lengths)
qed

lemma civil_year_bounds:
  fixes d :: int
  defines "e \<equiv> (400 * d + 699) div 146097"
  defines "y \<equiv> (if days_before e \<le> d then e else e - 1)"
  shows "days_before y \<le> d" and "d < days_before (y + 1)"
proof -
  have e: "146097 * e \<le> 400 * d + 699" "400 * d + 699 < 146097 * e + 146097"
    unfolding e_def using pos_mod_bound [of 146097 "400 * d + 699"]
      minus_mod_eq_mult_div [of "400 * d + 699" 146097] by auto
  show "days_before y \<le> d"
    using days_before_bounds(2) [of "e - 1"] e unfolding y_def by auto
  show "d < days_before (y + 1)"
    using days_before_bounds(1) [of "e + 1"] e unfolding y_def by auto
qed

lemma walk_months_spec:
  assumes "walk_months m ls d = (m', k)" and "0 \<le> d" and "d < sum_list ls"
  shows "\<exists>i < length ls. m' = m + int i \<and> d = sum_list (take i ls) + k - 1 \<and> 1 \<le> k \<and> k \<le> ls ! i"
  using assms
proof (induction m ls d rule: walk_months.induct)
  case (1 m d)
  then show ?case by simp
next
  case (2 m l ls d)
  show ?case
  proof (cases "d < l")
    case True
    with "2.prems" show ?thesis by (intro exI [of _ 0]) auto
  next
    case False
    with "2.IH" "2.prems" obtain i where
      "i < length ls" "m' = m + 1 + int i" "d - l = sum_list (take i ls) + k - 1" "1 \<le> k" "k \<le> ls ! i"
      by auto
    then show ?thesis by (intro exI [of _ "Suc i"]) auto
  qed
qed

lemma civil_of_days_spec:
  assumes "civil_of_days z = (y, m, k)"
  shows "days_of_civil y m k = z" and "1 \<le> m" "m \<le> 12" "1 \<le> k" "k \<le> month_lengths y ! nat (m - 1)"
proof -
  define d where "d = z + epoch_day"
  define e where "e = (400 * d + 699) div 146097"
  define y0 where "y0 = (if days_before e \<le> d then e else e - 1)"
  have y0: "days_before y0 \<le> d" "d < days_before (y0 + 1)"
    unfolding y0_def e_def by (rule civil_year_bounds)+
  from assms have w: "walk_months 1 (month_lengths (y0 + 1)) (d - days_before y0) = (m, k)" and y: "y = y0 + 1"
    by (auto simp: civil_of_days_def Let_def d_def e_def y0_def split: prod.splits)
  obtain i where i: "i < length (month_lengths (y0 + 1))" "m = 1 + int i"
    "d - days_before y0 = sum_list (take i (month_lengths (y0 + 1))) + k - 1"
    "1 \<le> k" "k \<le> month_lengths (y0 + 1) ! i"
    using walk_months_spec [OF w] y0 by (auto simp: days_before_Suc)
  then show "days_of_civil y m k = z" by (simp add: days_of_civil_def y d_def)
  show "1 \<le> m" "m \<le> 12" "1 \<le> k" "k \<le> month_lengths y ! nat (m - 1)"
    using i by (simp_all add: y month_lengths_def)
qed

section \<open>Fixed-width decimal text\<close>

lemma is_digit_0 [simp]: "is_digit (CHR ''0'')" and digit_val_0 [simp]: "digit_val (CHR ''0'') = 0"
  by (simp_all add: is_digit_def digit_val_def)

lemma fold_digits_start: "fold (\<lambda>c v. 10 * v + digit_val c) s a = a * 10 ^ length s + digits_val s"
proof (induction s arbitrary: a rule: rev_induct)
  case Nil
  then show ?case by simp
next
  case (snoc c s)
  then show ?case by (simp add: algebra_simps)
qed

lemma digits_val_append: "digits_val (s @ r) = digits_val s * 10 ^ length r + digits_val r"
  using fold_digits_start [of r "digits_val s"] by (simp add: digits_val_def)

lemma digits_val_zeros [simp]: "digits_val (replicate k (CHR ''0'')) = 0"
proof (induction k)
  case (Suc k)
  then show ?case
    using digits_val_snoc [of "replicate k (CHR ''0'')" "CHR ''0''"] by (simp add: replicate_append_same)
qed simp

lemma length_dec_digits: "0 \<le> n \<Longrightarrow> n < 10 ^ w \<Longrightarrow> 0 < w \<Longrightarrow> length (dec_digits n) \<le> w"
proof (induction n arbitrary: w rule: dec_digits.induct)
  case (1 n)
  show ?case
  proof (cases "n < 10")
    case True
    with "1.prems" show ?thesis by (subst dec_digits.simps) simp
  next
    case False
    from False "1.prems" obtain w' where w: "w = Suc w'" "0 < w'"
      by (cases w; cases "w - 1") auto
    with "1.prems" have "n < 10 * 10 ^ w'" by simp
    then have "n div 10 < 10 ^ w'" by linarith
    with "1.IH" [OF False] "1.prems" w have "length (dec_digits (n div 10)) \<le> w'" by simp
    with False w show ?thesis by (subst dec_digits.simps) simp
  qed
qed

lemma pad_digits_props:
  assumes "0 \<le> n" "n < 10 ^ w" "0 < w"
  shows "length (pad_digits w n) = w" "list_all is_digit (pad_digits w n)" "digits_val (pad_digits w n) = n"
  using length_dec_digits [OF assms] dec_digits_are_digits [OF assms(1)] assms(1)
  by (auto simp: pad_digits_def Let_def list_all_iff digits_val_append)

lemma strip_zeros_split:
  obtains k where "s = strip_zeros s @ replicate k (CHR ''0'')"
proof -
  let ?z = "takeWhile (\<lambda>c. c = CHR ''0'') (rev s)"
  have z: "?z = replicate (length ?z) (CHR ''0'')"
    by (rule replicate_eqI [symmetric, THEN sym]) (auto dest: set_takeWhileD)
  have "rev s = ?z @ dropWhile (\<lambda>c. c = CHR ''0'') (rev s)" by simp
  then have "s = strip_zeros s @ rev ?z"
    unfolding strip_zeros_def by (metis rev_append rev_rev_ident)
  moreover have "rev ?z = replicate (length ?z) (CHR ''0'')" by (metis z rev_replicate)
  ultimately show thesis using that by metis
qed

lemma parse_frac_text:
  assumes "0 \<le> ns" "ns < second"
  shows "parse_frac (frac_text ns @ ''Z'') = (ns, ''Z'')"
proof (cases "ns = 0")
  case True
  then show ?thesis by (simp add: frac_text_def parse_frac_def is_digit_def)
next
  case False
  let ?p = "pad_digits 9 ns" and ?d = "strip_zeros (pad_digits 9 ns)"
  have ns: "ns < 10 ^ 9" using assms by (simp add: second_def)
  note p = pad_digits_props [OF assms(1) ns]
  obtain k where k: "?p = ?d @ replicate k (CHR ''0'')" by (rule strip_zeros_split)
  have len: "length ?d + k = 9" using p(1) arg_cong [OF k, of length] by simp
  have val: "digits_val ?d * 10 ^ k = ns" using p(3) arg_cong [OF k, of digits_val] by (simp add: digits_val_append)
  have dig: "\<forall>c\<in>set ?d. is_digit c" using p(2) k by (metis list_all_iff UnCI set_append zero_less_numeral)
  have ne: "?d \<noteq> []" using val False by auto
  have nz: "\<not> is_digit (CHR ''Z'')" by (simp add: is_digit_def)
  have "takeWhile is_digit (?d @ ''Z'') = ?d" "dropWhile is_digit (?d @ ''Z'') = ''Z''"
    using dig nz by (simp_all add: takeWhile_append2 dropWhile_append2)
  moreover have "pad_int 9 ns = ?p" using assms by (simp add: pad_int_def)
  moreover have "9 - length ?d = k" "take 9 ?d = ?d" using len by simp_all
  ultimately show ?thesis
    using False ne val by (simp add: frac_text_def parse_frac_def Let_def)
qed

section \<open>Parsing inverts formatting\<close>

lemma parse_uint_pad:
  assumes "0 \<le> n" "n < 10 ^ w" "0 < w" "lo \<le> n" "n \<le> hi"
  shows "parse_uint (pad_digits w n) lo hi = Some n"
proof -
  note p = pad_digits_props [OF assms(1-3)]
  then have "pad_digits w n \<noteq> []" using assms(3) by auto
  with p assms(4,5) show ?thesis by (simp add: parse_uint_def)
qed

definition year_ok :: "time \<Rightarrow> bool" where
  "year_ok t \<longleftrightarrow> (let y = fst (civil_of_days (t div second div 86400)) in 0 \<le> y \<and> y \<le> 9999)"

text \<open>The parser on a text made of the fixed-width fields the formatter writes.\<close>

lemma parse_rfc3339_fields:
  assumes len: "length Y = 4" "length M = 2" "length D = 2" "length H = 2" "length N = 2" "length S = 2"
    and y: "parse_uint Y 0 9999 = Some y" and m: "parse_uint M 1 12 = Some m"
    and d: "parse_uint D 1 (month_lengths y ! nat (m - 1)) = Some d"
    and h: "parse_uint H 0 23 = Some h" and n: "parse_uint N 0 59 = Some n" and s: "parse_uint S 0 59 = Some s"
    and f: "parse_frac r = (ns, z)" and z: "parse_zone z = Some off"
  shows "parse_rfc3339 (Y @ ''-'' @ M @ ''-'' @ D @ ''T'' @ H @ '':'' @ N @ '':'' @ S @ r) =
    Some ((days_of_civil y m d * 86400 + h * 3600 + n * 60 + s - off) * second + ns)"
proof -
  define x where "x = Y @ ''-'' @ M @ ''-'' @ D @ ''T'' @ H @ '':'' @ N @ '':'' @ S @ r"
  have "\<not> length x < 19" "x ! 4 = CHR ''-''" "x ! 7 = CHR ''-''" "x ! 10 = CHR ''T''"
    "x ! 13 = CHR '':''" "x ! 16 = CHR '':''"
    unfolding x_def using len by (simp_all add: nth_append)
  moreover have "take 4 x = Y" "take 2 (drop 5 x) = M" "take 2 (drop 8 x) = D"
    "take 2 (drop 11 x) = H" "take 2 (drop 14 x) = N" "take 2 (drop 17 x) = S" "drop 19 x = r"
    unfolding x_def using len by simp_all
  ultimately have "parse_rfc3339 x =
      Some ((days_of_civil y m d * 86400 + h * 3600 + n * 60 + s - off) * second + ns)"
    using y m d h n s f z unfolding parse_rfc3339_def by simp
  then show ?thesis unfolding x_def .
qed

theorem parse_format_rfc3339:
  assumes "year_ok t"
  shows "parse_rfc3339 (format_rfc3339 t) = Some t"
proof -
  define secs where "secs = t div second"
  define sod where "sod = secs mod 86400"
  obtain y m d where c: "civil_of_days (secs div 86400) = (y, m, d)" by (rule prod_cases3)
  note cs = civil_of_days_spec [OF c]
  have y: "0 \<le> y" "y < 10 ^ 4" using assms c by (simp_all add: year_ok_def secs_def Let_def)
  have sod: "0 \<le> sod" "sod < 86400" by (simp_all add: sod_def)
  have ml: "month_lengths y ! nat (m - 1) \<le> 31"
  proof -
    have "\<forall>i < 12. month_lengths y ! i \<le> 31"
      by (simp add: month_lengths_def numeral_eq_Suc less_Suc_eq all_conj_distrib)
    then show ?thesis using cs by simp
  qed
  have b: "0 \<le> m" "m < 10 ^ 2" "0 \<le> d" "d < 10 ^ 2" "sod div 3600 < 24" "sod div 60 mod 60 < 60" "sod mod 60 < 60"
      "0 \<le> sod div 3600" "0 \<le> sod div 60 mod 60" "0 \<le> sod mod 60"
    using cs ml sod by auto
  have fmt: "format_rfc3339 t = pad_digits 4 y @ ''-'' @ pad_digits 2 m @ ''-'' @ pad_digits 2 d @ ''T'' @
      pad_digits 2 (sod div 3600) @ '':'' @ pad_digits 2 (sod div 60 mod 60) @ '':'' @
      pad_digits 2 (sod mod 60) @ frac_text (t mod second) @ ''Z''"
    unfolding format_rfc3339_def Let_def secs_def [symmetric] sod_def [symmetric] c
    using y b by (simp add: pad_int_def not_less)
  have frac: "parse_frac (frac_text (t mod second) @ ''Z'') = (t mod second, ''Z'')"
    by (rule parse_frac_text) (simp_all add: second_def)
  have "parse_rfc3339 (format_rfc3339 t) =
      Some ((days_of_civil y m d * 86400 + sod div 3600 * 3600 + sod div 60 mod 60 * 60 + sod mod 60 - 0) * second + t mod second)"
    unfolding fmt
  proof (rule parse_rfc3339_fields [OF _ _ _ _ _ _ _ _ _ _ _ _ frac])
    show "length (pad_digits 4 y) = 4" "parse_uint (pad_digits 4 y) 0 9999 = Some y"
      using y by (auto intro!: pad_digits_props parse_uint_pad)
    show "length (pad_digits 2 m) = 2" "parse_uint (pad_digits 2 m) 1 12 = Some m"
      using b(1,2) cs(2,3) by (auto intro!: pad_digits_props parse_uint_pad)
    show "length (pad_digits 2 d) = 2" "parse_uint (pad_digits 2 d) 1 (month_lengths y ! nat (m - 1)) = Some d"
      using b(3,4) cs(4,5) by (auto intro!: pad_digits_props parse_uint_pad)
    show "length (pad_digits 2 (sod div 3600)) = 2" "parse_uint (pad_digits 2 (sod div 3600)) 0 23 = Some (sod div 3600)"
      using b(5,8) by (auto intro!: pad_digits_props parse_uint_pad)
    have two: "length (pad_digits 2 k) = 2 \<and> parse_uint (pad_digits 2 k) 0 59 = Some k" if "0 \<le> k" "k < 60" for k
      using that by (auto intro!: pad_digits_props parse_uint_pad)
    show "length (pad_digits 2 (sod div 60 mod 60)) = 2" "length (pad_digits 2 (sod mod 60)) = 2"
      "parse_uint (pad_digits 2 (sod div 60 mod 60)) 0 59 = Some (sod div 60 mod 60)"
      "parse_uint (pad_digits 2 (sod mod 60)) 0 59 = Some (sod mod 60)"
      using two [OF b(9,6)] two [OF b(10,7)] by auto
  qed (simp add: parse_zone_def)
  also have "days_of_civil y m d * 86400 + sod div 3600 * 3600 + sod div 60 mod 60 * 60 + sod mod 60 - 0 = secs"
  proof -
    have q: "sod div 3600 = sod div 60 div 60" by (simp add: zdiv_zmult2_eq [symmetric])
    have lin: "a * 3600 + b * 60 + c = s" if "a * 60 + b = q" "q * 60 + c = s" for a b c q s :: int
      using that by simp
    have "sod div 3600 * 3600 + sod div 60 mod 60 * 60 + sod mod 60 = sod"
      unfolding q by (rule lin; rule div_mult_mod_eq)
    moreover have "secs div 86400 * 86400 + sod = secs" by (simp add: sod_def)
    ultimately show ?thesis using cs(1) by simp
  qed
  finally show ?thesis by (simp add: secs_def)
qed

section \<open>Textual order of timestamps\<close>

text \<open>
  The SQL backend compares timestamps as text.  Fixed-width decimal fields compare like
  numbers, so texts of different seconds compare like the times.
\<close>

lemma lex_append_same_length:
  fixes s r :: string
  assumes "length s = length r"
  shows "s @ u < r @ v \<longleftrightarrow> s < r \<or> s = r \<and> u < v"
  using assms by (induction s r rule: list_induct2) auto

lemma digits_val_bound: "list_all is_digit s \<Longrightarrow> digits_val s < 10 ^ length s"
proof (induction s rule: rev_induct)
  case Nil
  then show ?case by simp
next
  case (snoc c s)
  then have "digit_val c \<le> 9" "digits_val s + 1 \<le> 10 ^ length s"
    by (auto simp: is_digit_def digit_val_def)
  then show ?case by simp
qed

lemma digits_val_Cons: "digits_val (c # s) = digit_val c * 10 ^ length s + digits_val s"
  using digits_val_append [of "[c]" s] by (simp add: digits_val_def)

lemma char_less_digit_val: "c < d \<longleftrightarrow> digit_val c < digit_val d"
  by (simp add: less_char_def digit_val_def flip: of_nat_of_char [where 'a = int])

lemma mixed_radix_less:
  fixes a a' b b' k :: int
  assumes "a * k + b < a' * k + b'" and "0 \<le> b" "b < k" and "0 \<le> b'" "b' < k"
  shows "a < a' \<or> a = a' \<and> b < b'"
proof (rule ccontr)
  assume n: "\<not> ?thesis"
  then consider "a = a'" "b' \<le> b" | "a' + 1 \<le> a" by linarith
  then show False
  proof cases
    case 2
    then have "(a' + 1) * k \<le> a * k" using assms by (intro mult_right_mono) auto
    with assms show False by (simp add: algebra_simps)
  qed (use assms in auto)
qed

lemma mixed_radix_iff:
  fixes a a' b b' k :: int
  assumes "0 \<le> b" "b < k" and "0 \<le> b'" "b' < k"
  shows "a * k + b < a' * k + b' \<longleftrightarrow> a < a' \<or> a = a' \<and> b < b'"
proof
  assume "a < a' \<or> a = a' \<and> b < b'"
  then show "a * k + b < a' * k + b'"
  proof
    assume "a < a'"
    then have "(a + 1) * k \<le> a' * k" using assms by (intro mult_right_mono) auto
    with assms show ?thesis by (simp add: algebra_simps)
  qed simp
qed (rule mixed_radix_less [OF _ assms])

lemma mixed_radix_eq:
  fixes a a' b b' k :: int
  assumes "0 \<le> b" "b < k" and "0 \<le> b'" "b' < k" and "a * k + b = a' * k + b'"
  shows "a = a' \<and> b = b'"
  using mixed_radix_iff [OF assms(1-4), of a a'] mixed_radix_iff [OF assms(3,4,1,2), of a' a] assms(5)
  by (metis linorder_neq_iff)

lemma digits_less_iff:
  "length s = length r \<Longrightarrow> list_all is_digit s \<Longrightarrow> list_all is_digit r \<Longrightarrow>
   s < r \<longleftrightarrow> digits_val s < digits_val r"
proof (induction s r rule: list_induct2)
  case (Cons c s d r)
  have "digit_val c = digit_val d \<longleftrightarrow> c = d" by (simp add: digit_val_def)
  with Cons show ?case
    using mixed_radix_iff [of "digits_val s" "10 ^ length s" "digits_val r" "digit_val c" "digit_val d"]
      digits_val_nonneg [of s] digits_val_nonneg [of r] digits_val_bound [of s] digits_val_bound [of r]
    by (auto simp: digits_val_Cons char_less_digit_val)
qed simp

lemma pad_digits_less_iff:
  assumes "0 \<le> m" "m < 10 ^ w" "0 \<le> n" "n < 10 ^ w" "0 < w"
  shows "pad_digits w m < pad_digits w n \<longleftrightarrow> m < n" and "pad_digits w m = pad_digits w n \<longleftrightarrow> m = n"
  using pad_digits_props [OF assms(1,2,5)] pad_digits_props [OF assms(3,4,5)] digits_less_iff by metis+

lemma pad_field_less:
  assumes "0 \<le> m" "m < 10 ^ w" "0 \<le> n" "n < 10 ^ w" "0 < w"
  shows "pad_digits w m @ x < pad_digits w n @ z \<longleftrightarrow> m < n \<or> m = n \<and> x < z"
  using lex_append_same_length [of "pad_digits w m" "pad_digits w n" x z] pad_digits_props(1) [OF assms(1,2,5)]
    pad_digits_props(1) [OF assms(3,4,5)] pad_digits_less_iff [OF assms] by simp

lemma days_before_mono: "a \<le> b \<Longrightarrow> days_before a \<le> days_before b"
proof (induction b rule: int_ge_induct)
  case (step i)
  then show ?case using days_before_Suc [of i] sum_month_lengths [of "i + 1"] by auto
qed simp

lemma walk_months_ge: "walk_months m ls d = (m', k) \<Longrightarrow> m \<le> m'"
  by (induction m ls d rule: walk_months.induct) (auto split: if_splits)

lemma walk_months_mono:
  "walk_months m ls d = (m1, k1) \<Longrightarrow> walk_months m ls d' = (m2, k2) \<Longrightarrow> d < d' \<Longrightarrow>
   m1 < m2 \<or> m1 = m2 \<and> k1 < k2"
proof (induction ls arbitrary: m d d')
  case (Cons l ls)
  show ?case
  proof (cases "d' < l")
    case True
    with Cons.prems show ?thesis by auto
  next
    case False
    show ?thesis
    proof (cases "d < l")
      case True
      with False Cons.prems walk_months_ge [of "m + 1" ls "d' - l" m2 k2] show ?thesis by auto
    next
      case F: False
      with False Cons.prems Cons.IH [of "m + 1" "d - l" "d' - l"] show ?thesis by simp
    qed
  qed
qed auto

lemma civil_of_days_mono:
  assumes "civil_of_days z = (y, m, k)" "civil_of_days z' = (y', m', k')" "z < z'"
  shows "y < y' \<or> y = y' \<and> (m < m' \<or> m = m' \<and> k < k')"
proof -
  define d where "d = z + epoch_day"
  define d' where "d' = z' + epoch_day"
  have c: "days_before (y - 1) \<le> d \<and> d < days_before y \<and> walk_months 1 (month_lengths y) (d - days_before (y - 1)) = (m, k)"
    using assms(1) civil_year_bounds [of d] by (auto simp: civil_of_days_def Let_def d_def split: prod.splits)
  have c': "days_before (y' - 1) \<le> d' \<and> d' < days_before y' \<and> walk_months 1 (month_lengths y') (d' - days_before (y' - 1)) = (m', k')"
    using assms(2) civil_year_bounds [of d'] by (auto simp: civil_of_days_def Let_def d'_def split: prod.splits)
  have "d < d'" using assms(3) by (simp add: d_def d'_def)
  show ?thesis
  proof (cases "y < y'")
    case False
    have "\<not> y' < y"
    proof
      assume "y' < y"
      then have "days_before y' \<le> days_before (y - 1)" by (intro days_before_mono) simp
      with c c' \<open>d < d'\<close> show False by linarith
    qed
    with False have "y = y'" by simp
    with c c' \<open>d < d'\<close> walk_months_mono [of 1 "month_lengths y" _ m k _ m' k'] show ?thesis by auto
  qed simp
qed

lemma format_rfc3339_fields:
  assumes "year_ok t"
  obtains y m d where "civil_of_days (t div second div 86400) = (y, m, d)"
    and "0 \<le> y" "y < 10 ^ 4" "0 \<le> m" "m < 10 ^ 2" "0 \<le> d" "d < 10 ^ 2"
    and "format_rfc3339 t = pad_digits 4 y @ ''-'' @ pad_digits 2 m @ ''-'' @ pad_digits 2 d @ ''T'' @
      pad_digits 2 (t div second mod 86400 div 3600) @ '':'' @ pad_digits 2 (t div second mod 86400 div 60 mod 60) @ '':'' @
      pad_digits 2 (t div second mod 86400 mod 60) @ frac_text (t mod second) @ ''Z''"
proof -
  define sod where "sod = t div second mod 86400"
  obtain y m d where c: "civil_of_days (t div second div 86400) = (y, m, d)" by (rule prod_cases3)
  note cs = civil_of_days_spec [OF c]
  have y: "0 \<le> y" "y < 10 ^ 4" using assms c by (simp_all add: year_ok_def Let_def)
  have "\<forall>i < 12. month_lengths y ! i \<le> 31"
    by (simp add: month_lengths_def numeral_eq_Suc less_Suc_eq all_conj_distrib)
  then have "month_lengths y ! nat (m - 1) \<le> 31" using cs by simp
  then have b: "0 \<le> m" "m < 10 ^ 2" "0 \<le> d" "d < 10 ^ 2" using cs by auto
  have sod: "0 \<le> sod" by (simp add: sod_def)
  have "format_rfc3339 t = pad_digits 4 y @ ''-'' @ pad_digits 2 m @ ''-'' @ pad_digits 2 d @ ''T'' @
      pad_digits 2 (sod div 3600) @ '':'' @ pad_digits 2 (sod div 60 mod 60) @ '':'' @
      pad_digits 2 (sod mod 60) @ frac_text (t mod second) @ ''Z''"
    unfolding format_rfc3339_def Let_def sod_def [symmetric] c
    using y b sod by (simp add: pad_int_def not_less pos_imp_zdiv_nonneg_iff)
  with that [OF c y b] show thesis by (simp only: sod_def)
qed

lemma clock_fields:
  fixes sod :: int
  assumes "0 \<le> sod" "sod < 86400"
  shows "0 \<le> sod div 3600" "sod div 3600 < 10 ^ 2" "0 \<le> sod div 60 mod 60" "sod div 60 mod 60 < 10 ^ 2"
    "0 \<le> sod mod 60" "sod mod 60 < 10 ^ 2" "sod = (sod div 3600 * 60 + sod div 60 mod 60) * 60 + sod mod 60"
proof -
  have q: "sod div 3600 = sod div 60 div 60" by (simp add: zdiv_zmult2_eq [symmetric])
  have lin: "s = (a * 60 + b) * 60 + c" if "a * 60 + b = q" "q * 60 + c = s" for a b c q s :: int
    using that by simp
  show "sod = (sod div 3600 * 60 + sod div 60 mod 60) * 60 + sod mod 60"
    unfolding q by (rule lin; rule div_mult_mod_eq)
qed (use assms in auto)

lemma clock_less:
  fixes s s' :: int
  assumes "0 \<le> s" "s < 86400" "0 \<le> s'" "s' < 86400" "s < s'"
  shows "s div 3600 < s' div 3600 \<or> s div 3600 = s' div 3600 \<and>
         (s div 60 mod 60 < s' div 60 mod 60 \<or> s div 60 mod 60 = s' div 60 mod 60 \<and> s mod 60 < s' mod 60)"
proof -
  define h n x where hnx: "h = s div 3600" "n = s div 60 mod 60" "x = s mod 60"
  define h' n' x' where hnx': "h' = s' div 3600" "n' = s' div 60 mod 60" "x' = s' mod 60"
  have "(h * 60 + n) * 60 + x < (h' * 60 + n') * 60 + x'"
  proof -
    have "s = (h * 60 + n) * 60 + x" unfolding hnx by (rule clock_fields(7) [OF assms(1,2)])
    moreover have "s' = (h' * 60 + n') * 60 + x'" unfolding hnx' by (rule clock_fields(7) [OF assms(3,4)])
    ultimately show ?thesis using assms(5) by linarith
  qed
  moreover have r: "0 \<le> n" "n < 60" "0 \<le> n'" "n' < 60" "0 \<le> x" "x < 60" "0 \<le> x'" "x' < 60"
    by (simp_all add: hnx hnx')
  ultimately have "h * 60 + n < h' * 60 + n' \<or> h * 60 + n = h' * 60 + n' \<and> x < x'"
    using mixed_radix_less by blast
  then show ?thesis
    unfolding hnx [symmetric] hnx' [symmetric]
    using mixed_radix_iff [OF r(1-4), of h h'] mixed_radix_eq [OF r(1-4), of h h'] by blast
qed

definition fields_text :: "int \<Rightarrow> int \<Rightarrow> int \<Rightarrow> int \<Rightarrow> int \<Rightarrow> int \<Rightarrow> string \<Rightarrow> string" where
  "fields_text y m d h n x r =
     pad_digits 4 y @ ''-'' @ pad_digits 2 m @ ''-'' @ pad_digits 2 d @ ''T'' @
     pad_digits 2 h @ '':'' @ pad_digits 2 n @ '':'' @ pad_digits 2 x @ r"

lemma fields_text_less:
  assumes "0 \<le> y" "y < 10 ^ 4" "0 \<le> m" "m < 10 ^ 2" "0 \<le> d" "d < 10 ^ 2"
    and "0 \<le> h" "h < 10 ^ 2" "0 \<le> n" "n < 10 ^ 2" "0 \<le> x" "x < 10 ^ 2"
    and "0 \<le> y'" "y' < 10 ^ 4" "0 \<le> m'" "m' < 10 ^ 2" "0 \<le> d'" "d' < 10 ^ 2"
    and "0 \<le> h'" "h' < 10 ^ 2" "0 \<le> n'" "n' < 10 ^ 2" "0 \<le> x'" "x' < 10 ^ 2"
    and "y < y' \<or> y = y' \<and> (m < m' \<or> m = m' \<and> (d < d' \<or> d = d' \<and>
           (h < h' \<or> h = h' \<and> (n < n' \<or> n = n' \<and> x < x'))))"
  shows "fields_text y m d h n x r < fields_text y' m' d' h' n' x' r'"
proof -
  have w: "(0 :: nat) < 4" "(0 :: nat) < 2" by simp_all
  note pf = pad_field_less [OF assms(1,2,13,14) w(1)] pad_field_less [OF assms(3,4,15,16) w(2)]
    pad_field_less [OF assms(5,6,17,18) w(2)] pad_field_less [OF assms(7,8,19,20) w(2)]
    pad_field_less [OF assms(9,10,21,22) w(2)] pad_field_less [OF assms(11,12,23,24) w(2)]
  from assms(25) show ?thesis
    unfolding fields_text_def append_Cons append_Nil by (simp only: pf Cons_less_Cons order.irrefl simp_thms) blast
qed

text \<open>Times in different seconds compare like their texts.\<close>

lemma format_rfc3339_less:
  assumes "year_ok t" "year_ok u" "t div second < u div second"
  shows "format_rfc3339 t < format_rfc3339 u"
proof -
  define s s' where ss: "s = t div second mod 86400" "s' = u div second mod 86400"
  have r: "0 \<le> s" "s < 86400" "0 \<le> s'" "s' < 86400" by (simp_all add: ss)
  note cl = clock_fields(1-6) [OF r(1,2)] clock_fields(1-6) [OF r(3,4)]
  obtain y m d where c: "civil_of_days (t div second div 86400) = (y, m, d)"
    and b: "0 \<le> y" "y < 10 ^ 4" "0 \<le> m" "m < 10 ^ 2" "0 \<le> d" "d < 10 ^ 2"
    and f: "format_rfc3339 t = pad_digits 4 y @ ''-'' @ pad_digits 2 m @ ''-'' @ pad_digits 2 d @ ''T'' @
      pad_digits 2 (s div 3600) @ '':'' @ pad_digits 2 (s div 60 mod 60) @ '':'' @
      pad_digits 2 (s mod 60) @ frac_text (t mod second) @ ''Z''"
    using format_rfc3339_fields [OF assms(1)] unfolding ss by metis
  obtain y' m' d' where c': "civil_of_days (u div second div 86400) = (y', m', d')"
    and b': "0 \<le> y'" "y' < 10 ^ 4" "0 \<le> m'" "m' < 10 ^ 2" "0 \<le> d'" "d' < 10 ^ 2"
    and f': "format_rfc3339 u = pad_digits 4 y' @ ''-'' @ pad_digits 2 m' @ ''-'' @ pad_digits 2 d' @ ''T'' @
      pad_digits 2 (s' div 3600) @ '':'' @ pad_digits 2 (s' div 60 mod 60) @ '':'' @
      pad_digits 2 (s' mod 60) @ frac_text (u mod second) @ ''Z''"
    using format_rfc3339_fields [OF assms(2)] unfolding ss by metis
  have "t div second div 86400 < u div second div 86400 \<or> t div second div 86400 = u div second div 86400 \<and> s < s'"
    unfolding ss by (rule mixed_radix_less [of _ 86400]) (use assms(3) in simp_all)
  then have "y < y' \<or> y = y' \<and> (m < m' \<or> m = m' \<and> (d < d' \<or> d = d' \<and> s < s'))"
    using civil_of_days_mono [OF c c'] c c' by auto
  then have lex: "y < y' \<or> y = y' \<and> (m < m' \<or> m = m' \<and> (d < d' \<or> d = d' \<and>
      (s div 3600 < s' div 3600 \<or> s div 3600 = s' div 3600 \<and>
        (s div 60 mod 60 < s' div 60 mod 60 \<or> s div 60 mod 60 = s' div 60 mod 60 \<and> s mod 60 < s' mod 60))))"
    using clock_less [OF r] by blast
  show ?thesis
    using fields_text_less [OF b cl(1-6) b' cl(7-12) lex] unfolding f f' fields_text_def .
qed

text \<open>Within one second they do not: a whole second has no fraction, and its text ends in a
  letter where the texts of the same second's later instants have a dot.\<close>

lemma format_rfc3339_fraction_first:
  assumes "year_ok t" and "t mod second = 0" and "0 < f" "f < second"
  shows "format_rfc3339 (t + f) < format_rfc3339 t"
proof -
  have d: "(t + f) div second = t div second" and md: "(t + f) mod second = f"
  proof -
    show "(t + f) div second = t div second"
      using assms(2-4) by (simp add: div_add1_eq [of t f])
    show "(t + f) mod second = f" using assms(2-4) by (simp add: mod_add_left_eq [symmetric])
  qed
  then have "year_ok (t + f)" using assms(1) by (simp add: year_ok_def)
  obtain y m e where c: "civil_of_days (t div second div 86400) = (y, m, e)"
    and f1: "format_rfc3339 t = pad_digits 4 y @ ''-'' @ pad_digits 2 m @ ''-'' @ pad_digits 2 e @ ''T'' @
      pad_digits 2 (t div second mod 86400 div 3600) @ '':'' @ pad_digits 2 (t div second mod 86400 div 60 mod 60) @ '':'' @
      pad_digits 2 (t div second mod 86400 mod 60) @ frac_text (t mod second) @ ''Z''"
    using format_rfc3339_fields [OF assms(1)] by metis
  from format_rfc3339_fields [OF \<open>year_ok (t + f)\<close>] c
  have f2: "format_rfc3339 (t + f) = pad_digits 4 y @ ''-'' @ pad_digits 2 m @ ''-'' @ pad_digits 2 e @ ''T'' @
      pad_digits 2 (t div second mod 86400 div 3600) @ '':'' @ pad_digits 2 (t div second mod 86400 div 60 mod 60) @ '':'' @
      pad_digits 2 (t div second mod 86400 mod 60) @ frac_text f @ ''Z''"
    unfolding d md by auto
  have same: "x @ v < x @ w \<longleftrightarrow> v < w" for x v w :: string by (induction x) auto
  have "frac_text f @ ''Z'' < frac_text (t mod second) @ ''Z''"
    using assms(2,3) by (simp add: frac_text_def less_char_def)
  then show ?thesis unfolding f1 f2 by (simp only: same)
qed

end
