(* ===== verification/Core.thy ===== *)
theory Core
  imports GoJson GoTime
begin

text \<open>
  Package \<^verbatim>\<open>core\<close>: the vocabulary types (\<^verbatim>\<open>Signal\<close>, \<^verbatim>\<open>RemediationIntent\<close>, \<^verbatim>\<open>Receipt\<close>), the
  action kinds, the deterministic intent id and the canonical bytes that are signed.  Go's
  string-typed enumerations stay strings, because values outside the declared constants
  reach the code.  A \<^verbatim>\<open>map[string]any\<close> that may be nil is an optional association list.
  The lemmas: canonical bytes do not depend on map iteration order or on the fields left
  out of them, how they end, and that the framing of an id separates its parts.
\<close>

section \<open>Action kinds\<close>

type_synonym ActionKind = string

definition ActionRouteOverride :: ActionKind where "ActionRouteOverride = ''route_override''"
definition ActionOpenIssue :: ActionKind where "ActionOpenIssue = ''open_issue''"
definition ActionPage :: ActionKind where "ActionPage = ''page''"
definition ActionThrottleTenant :: ActionKind where "ActionThrottleTenant = ''throttle_tenant''"
definition ActionDisableDeployment :: ActionKind where "ActionDisableDeployment = ''disable_deployment''"

lemmas action_kind_defs =
  ActionRouteOverride_def ActionOpenIssue_def ActionPage_def ActionThrottleTenant_def
  ActionDisableDeployment_def

definition KnownActionKinds :: "ActionKind list" where
  "KnownActionKinds =
     [ActionRouteOverride, ActionOpenIssue, ActionPage, ActionThrottleTenant, ActionDisableDeployment]"

fun kind_in :: "ActionKind \<Rightarrow> ActionKind list \<Rightarrow> bool" where
  "kind_in k [] = False"
| "kind_in k (known # ks) = (if k = known then True else kind_in k ks)"

definition IsKnownActionKind :: "ActionKind \<Rightarrow> bool" where
  "IsKnownActionKind k = kind_in k KnownActionKinds"

section \<open>Signals, intents, receipts\<close>

type_synonym args = "any dict option"

definition args_get :: "args \<Rightarrow> string \<Rightarrow> any option" where
  "args_get a k = (case a of None \<Rightarrow> None | Some m \<Rightarrow> map_of m k)"

text \<open>A type assertion to \<^verbatim>\<open>string\<close> with the comma-ok form.\<close>

fun as_string :: "any option \<Rightarrow> string option" where
  "as_string (Some (AStr s)) = Some s"
| "as_string _ = None"

definition SeverityInfo :: string where "SeverityInfo = ''info''"
definition SeverityWarning :: string where "SeverityWarning = ''warning''"
definition SeverityCritical :: string where "SeverityCritical = ''critical''"

record Subject =
  sub_Tenant :: string
  sub_Deployment :: string
  sub_Alias :: string

record Evidence =
  ev_Kind :: string
  ev_Ref :: string

record Signal =
  sig_ID :: string
  sig_Source :: string
  sig_Type :: string
  sig_Time :: time
  sig_Subject :: Subject
  sig_Severity :: string
  sig_CorrelationKey :: string
  sig_DedupWindow :: duration
  sig_Evidence :: "Evidence list"
  sig_Data :: args

record RemediationIntent =
  ri_ID :: string
  ri_Kind :: ActionKind
  ri_Target :: string
  ri_Args :: args
  ri_TTL :: duration
  ri_DryRun :: bool
  ri_Evidence :: "Evidence list"
  ri_RuleSHA :: string
  ri_Signature :: string

text \<open>The zero value of the struct, for composite literals that name some fields only.\<close>

definition zero_intent :: RemediationIntent where
  "zero_intent =
     \<lparr>ri_ID = [], ri_Kind = [], ri_Target = [], ri_Args = None, ri_TTL = 0, ri_DryRun = False,
      ri_Evidence = [], ri_RuleSHA = [], ri_Signature = []\<rparr>"

definition OutcomeApplied :: string where "OutcomeApplied = ''applied''"
definition OutcomeReverted :: string where "OutcomeReverted = ''reverted''"
definition OutcomeFailed :: string where "OutcomeFailed = ''failed''"

lemmas outcome_defs = OutcomeApplied_def OutcomeReverted_def OutcomeFailed_def

record Receipt =
  rc_IntentID :: string
  rc_Actuator :: string
  rc_AppliedAt :: time
  rc_Before :: any
  rc_After :: any
  rc_Outcome :: string

definition zero_receipt :: Receipt where
  "zero_receipt =
     \<lparr>rc_IntentID = [], rc_Actuator = [], rc_AppliedAt = zero_time, rc_Before = ANil, rc_After = ANil,
      rc_Outcome = []\<rparr>"

section \<open>Deterministic ids and canonical bytes\<close>

definition NUL :: char where "NUL = CHR 0x00"

text \<open>What \<^verbatim>\<open>DeterministicID\<close> writes to the hash: every part followed by a zero byte.\<close>

definition id_preimage :: "string list \<Rightarrow> bytes" where
  "id_preimage parts = concat (map (\<lambda>p. p @ [NUL]) parts)"

definition DeterministicID :: "string list \<Rightarrow> string" where
  "DeterministicID parts = take 16 (hex_encode (sha256 (id_preimage parts)))"

definition marshal_or_empty :: "any option \<Rightarrow> string" where
  "marshal_or_empty v =
     (case json_marshal (case v of None \<Rightarrow> ANil | Some x \<Rightarrow> x) of None \<Rightarrow> [] | Some t \<Rightarrow> t)"

definition canonical_header :: "RemediationIntent \<Rightarrow> string" where
  "canonical_header i =
     ri_ID i @ ''|'' @ ri_Kind i @ ''|'' @ ri_Target i @ ''|'' @ ri_RuleSHA i @ ''|'' @
     duration_string (ri_TTL i) @ ''|''"

definition CanonicalBytes :: "RemediationIntent \<Rightarrow> bytes" where
  "CanonicalBytes i =
     (let m = (case ri_Args i of None \<Rightarrow> [] | Some m \<Rightarrow> m); keys = sort (map fst m)
      in canonical_header i @
         concat (map (\<lambda>k. k @ ''='' @ marshal_or_empty (args_get (ri_Args i) k) @ '';'') keys))"

section \<open>Lemmas\<close>

lemma kind_in_iff: "kind_in k ks \<longleftrightarrow> k \<in> set ks"
  by (induction ks) auto

lemma IsKnownActionKind_iff: "IsKnownActionKind k \<longleftrightarrow> k \<in> set KnownActionKinds"
  by (simp add: IsKnownActionKind_def kind_in_iff)

lemma length_DeterministicID [simp]: "length (DeterministicID parts) = 16"
  by (simp add: DeterministicID_def)

lemma id_preimage_inject:
  assumes "id_preimage ps = id_preimage qs"
    and "\<And>p. p \<in> set ps \<Longrightarrow> NUL \<notin> set p" and "\<And>q. q \<in> set qs \<Longrightarrow> NUL \<notin> set q"
  shows "ps = qs"
  using assms
proof (induction ps arbitrary: qs)
  case Nil
  then show ?case by (cases qs) (auto simp: id_preimage_def)
next
  case (Cons p ps)
  then obtain q qs' where qs: "qs = q # qs'" by (cases qs) (auto simp: id_preimage_def)
  have "p @ NUL # id_preimage ps = q @ NUL # id_preimage qs'"
    using Cons.prems(1) by (simp add: id_preimage_def qs)
  then have "p = q" "id_preimage ps = id_preimage qs'"
    using append_sep_inject [of p NUL _ q] Cons.prems(2,3) qs by auto
  with Cons.IH [of qs'] Cons.prems(2,3) qs show ?case by auto
qed

text \<open>The canonical bytes see the argument map only through its contents.\<close>

lemma CanonicalBytes_perm:
  assumes "mset m = mset m'" and "distinct_keys m"
  shows "CanonicalBytes (i\<lparr>ri_Args := Some m\<rparr>) = CanonicalBytes (i\<lparr>ri_Args := Some m'\<rparr>)"
proof -
  have "sort (map fst m) = sort (map fst m')"
    using assms(1) by (intro sort_mset_cong) (metis mset_map)
  moreover have "map_of m = map_of m'" by (rule map_of_mset_cong [OF assms])
  ultimately show ?thesis
    by (simp add: CanonicalBytes_def canonical_header_def args_get_def)
qed

lemma CanonicalBytes_ignores [simp]:
  "CanonicalBytes (i\<lparr>ri_Signature := s\<rparr>) = CanonicalBytes i"
  "CanonicalBytes (i\<lparr>ri_DryRun := b\<rparr>) = CanonicalBytes i"
  "CanonicalBytes (i\<lparr>ri_Evidence := e\<rparr>) = CanonicalBytes i"
  by (simp_all add: CanonicalBytes_def canonical_header_def)

lemma concat_map_last:
  "ks \<noteq> [] \<Longrightarrow> (\<And>k. f k \<noteq> [] \<and> last (f k) = c) \<Longrightarrow> concat (map f ks) \<noteq> [] \<and> last (concat (map f ks)) = c"
  by (induction ks rule: rev_induct) auto

text \<open>They end in a separator of the format: a bar without arguments, a semicolon with them.\<close>

lemma CanonicalBytes_last:
  "CanonicalBytes i \<noteq> [] \<and> (last (CanonicalBytes i) = CHR ''|'' \<or> last (CanonicalBytes i) = CHR '';'')"
proof -
  let ?f = "\<lambda>k. k @ ''='' @ marshal_or_empty (args_get (ri_Args i) k) @ '';''"
  have hd: "canonical_header i \<noteq> []" "last (canonical_header i) = CHR ''|''"
    by (simp_all add: canonical_header_def)
  obtain ks where ks: "CanonicalBytes i = canonical_header i @ concat (map ?f ks)"
    by (simp add: CanonicalBytes_def Let_def)
  show ?thesis
  proof (cases "ks = []")
    case True
    with ks hd show ?thesis by simp
  next
    case False
    then have "concat (map ?f ks) \<noteq> []" "last (concat (map ?f ks)) = CHR '';''"
      using concat_map_last [of ks ?f "CHR '';''"] by simp_all
    with ks show ?thesis by simp
  qed
qed

end
