(* ===== verification/Signing.thy ===== *)
theory Signing
  imports Core
begin

text \<open>
  Package \<^verbatim>\<open>intent\<close>: signing canonical bytes with Ed25519, the key files, the audit detail of
  an applied intent and its later verification.

  The Ed25519 primitive is a parameter, a record of the three calls the sources make; what
  the sources rely on (RFC 8032: a public key has 32 bytes, a private key 64, and a signature
  made with a private key verifies under its public key) is the locale \<^verbatim>\<open>ed25519_scheme\<close>.
  The file system is an explicit state: the files, which of them can be read, and the error
  a write returns.  A key generation is an argument of the operation that draws it.
\<close>

section \<open>The signature scheme\<close>

record ed25519 =
  ed_Sign :: "bytes \<Rightarrow> bytes \<Rightarrow> bytes"
  ed_Verify :: "bytes \<Rightarrow> bytes \<Rightarrow> bytes \<Rightarrow> bool"
  ed_Public :: "bytes \<Rightarrow> bytes"

definition PublicKeySize :: nat where "PublicKeySize = 32"
definition PrivateKeySize :: nat where "PrivateKeySize = 64"

record Signer =
  sg_Sign :: "bytes \<Rightarrow> string"
  sg_Verify :: "bytes \<Rightarrow> string \<Rightarrow> bool"
  sg_PublicKey :: bytes

text \<open>The struct \<^verbatim>\<open>ed25519Signer\<close> and its methods, as the interface value they implement.\<close>

definition ed25519Signer :: "ed25519 \<Rightarrow> bytes \<Rightarrow> bytes \<Rightarrow> Signer" where
  "ed25519Signer ed priv pub =
     \<lparr>sg_Sign = (\<lambda>payload. b64_encode (ed_Sign ed priv payload)),
      sg_Verify = (\<lambda>payload s. case b64_decode s of None \<Rightarrow> False | Some raw \<Rightarrow> ed_Verify ed pub payload raw),
      sg_PublicKey = pub\<rparr>"

definition NewEd25519Signer :: "ed25519 \<Rightarrow> (bytes \<times> bytes) result \<Rightarrow> Signer result" where
  "NewEd25519Signer ed gen = (case gen of Inl e \<Rightarrow> Inl e | Inr (pub, priv) \<Rightarrow> Inr (ed25519Signer ed priv pub))"

definition signerFromPrivate :: "ed25519 \<Rightarrow> bytes \<Rightarrow> Signer" where
  "signerFromPrivate ed priv = ed25519Signer ed priv (ed_Public ed priv)"

section \<open>Key files\<close>

record FS =
  fs_files :: "bytes dict"
  fs_readable :: "string \<Rightarrow> bool"
  fs_write_error :: "string \<Rightarrow> error option"

definition ReadFile :: "FS \<Rightarrow> string \<Rightarrow> bytes option" where
  "ReadFile fs path = (if fs_readable fs path then map_of (fs_files fs) path else None)"

definition WriteFile :: "FS \<Rightarrow> string \<Rightarrow> bytes \<Rightarrow> error + FS" where
  "WriteFile fs path b =
     (case fs_write_error fs path of
        Some e \<Rightarrow> Inl e
      | None \<Rightarrow> Inr (fs\<lparr>fs_files := AList.update path b (fs_files fs)\<rparr>))"

datatype key_error =
    BadKeyFile string
  | KeyWrongSize string
  | KeyUnreadable string
  | KeyWrite error
  | KeyGenerate error

definition PublicKeyPath :: "string \<Rightarrow> string" where
  "PublicKeyPath privPath = privPath @ ''.pub''"

definition exportPublicKey :: "FS \<Rightarrow> string \<Rightarrow> bytes \<Rightarrow> key_error + FS" where
  "exportPublicKey fs path pub =
     (let enc = b64_encode pub
      in if (case ReadFile fs (PublicKeyPath path) of None \<Rightarrow> False | Some b \<Rightarrow> trim_space b = enc) then Inr fs
         else case WriteFile fs (PublicKeyPath path) enc of Inl e \<Rightarrow> Inl (KeyWrite e) | Inr fs' \<Rightarrow> Inr fs')"

text \<open>Every outcome keeps the file system as the call left it, also when it reports an error.\<close>

definition LoadOrCreateSigner ::
    "ed25519 \<Rightarrow> FS \<Rightarrow> string \<Rightarrow> (bytes \<times> bytes) result \<Rightarrow> FS \<times> (key_error + Signer)" where
  "LoadOrCreateSigner ed fs path gen =
     (case ReadFile fs path of
        Some b \<Rightarrow>
          (case b64_decode (trim_space b) of
             None \<Rightarrow> (fs, Inl (BadKeyFile path))
           | Some raw \<Rightarrow>
               if length raw \<noteq> PrivateKeySize then (fs, Inl (KeyWrongSize path))
               else (case exportPublicKey fs path (ed_Public ed raw) of
                       Inl e \<Rightarrow> (fs, Inl e)
                     | Inr fs' \<Rightarrow> (fs', Inr (signerFromPrivate ed raw))))
      | None \<Rightarrow>
          (case gen of
             Inl e \<Rightarrow> (fs, Inl (KeyGenerate e))
           | Inr (_, priv) \<Rightarrow>
               (case WriteFile fs path (b64_encode priv) of
                  Inl e \<Rightarrow> (fs, Inl (KeyWrite e))
                | Inr fs1 \<Rightarrow>
                    (case exportPublicKey fs1 path (ed_Public ed priv) of
                       Inl e \<Rightarrow> (fs1, Inl e)
                     | Inr fs2 \<Rightarrow> (fs2, Inr (signerFromPrivate ed priv))))))"

definition LoadVerifierKey :: "FS \<Rightarrow> string \<Rightarrow> key_error + bytes" where
  "LoadVerifierKey fs path =
     (case ReadFile fs path of
        None \<Rightarrow> Inl (KeyUnreadable path)
      | Some b \<Rightarrow>
          (case b64_decode (trim_space b) of
             None \<Rightarrow> Inl (BadKeyFile path)
           | Some raw \<Rightarrow> if length raw \<noteq> PublicKeySize then Inl (KeyWrongSize path) else Inr raw))"

section \<open>The audit detail of an applied intent\<close>

definition canonField :: string where "canonField = ''canon=''"
definition sigField :: string where "sigField = ''sig=''"

definition AppliedAuditDetail :: "RemediationIntent \<Rightarrow> string" where
  "AppliedAuditDetail i =
     ri_Kind i @ '' target='' @ ri_Target i @ '' rule='' @ ri_RuleSHA i @ '' '' @
     canonField @ b64_encode (CanonicalBytes i) @ '' '' @ sigField @ ri_Signature i"

definition field :: "string \<Rightarrow> string \<Rightarrow> string option" where
  "field detail marker =
     (case str_index detail marker of
        None \<Rightarrow> None
      | Some idx \<Rightarrow>
          (let rest = drop (idx + length marker) detail
           in Some (case index_byte rest (CHR '' '') of None \<Rightarrow> rest | Some sp \<Rightarrow> take sp rest)))"

text \<open>The two results: whether the signature verifies, and whether there was one to verify.\<close>

definition VerifyAuditDetail :: "ed25519 \<Rightarrow> bytes \<Rightarrow> string \<Rightarrow> bool \<times> bool" where
  "VerifyAuditDetail ed pub detail =
     (case (field detail canonField, field detail sigField) of
        (Some canonB64, Some sigB64) \<Rightarrow>
          (case b64_decode canonB64 of
             None \<Rightarrow> (False, True)
           | Some canon \<Rightarrow>
               (case b64_decode sigB64 of
                  None \<Rightarrow> (False, True)
                | Some s \<Rightarrow> (ed_Verify ed pub canon s, True)))
      | _ \<Rightarrow> (False, False))"

section \<open>The laws of the scheme and of a signer\<close>

text \<open>
  A signer that holds its promise to a verifier: a third party who has only its public key
  accepts what it signs.  This is the contract that the audit detail and the checkpoints
  use; \<^verbatim>\<open>ed25519Signer\<close> meets it when the scheme is correct.
\<close>

locale ed25519_scheme =
  fixes ed :: ed25519
  assumes sign_verifies: "length priv = PrivateKeySize \<Longrightarrow> ed_Verify ed (ed_Public ed priv) m (ed_Sign ed priv m)"
    and public_size: "length priv = PrivateKeySize \<Longrightarrow> length (ed_Public ed priv) = PublicKeySize"

locale honest_signer =
  fixes ed :: ed25519 and s :: Signer
  assumes signature_text: "\<exists>raw. sg_Sign s m = b64_encode raw \<and> ed_Verify ed (sg_PublicKey s) m raw"
    and key_size: "length (sg_PublicKey s) = PublicKeySize"
begin

lemma decode_verifies: "\<exists>raw. b64_decode (sg_Sign s m) = Some raw \<and> ed_Verify ed (sg_PublicKey s) m raw"
  using signature_text [of m] by auto

lemma signature_no_space: "CHR '' '' \<notin> set (sg_Sign s m)"
  using signature_text [of m] b64_encode_no_space by auto

lemma decode_key: "b64_decode (b64_encode (sg_PublicKey s)) = Some (sg_PublicKey s) \<and> length (sg_PublicKey s) = PublicKeySize"
  by (simp add: key_size)

end

lemma honest_signerFromPrivate:
  assumes "ed25519_scheme ed" and "length priv = PrivateKeySize"
  shows "honest_signer ed (signerFromPrivate ed priv)"
  using assms ed25519_scheme.sign_verifies [OF assms] ed25519_scheme.public_size [OF assms]
  by unfold_locales (auto simp: signerFromPrivate_def ed25519Signer_def)

section \<open>Markers in space-separated text\<close>

lemma not_prefix_before_sep:
  assumes "sep \<notin> set m" and "\<not> sublist m p" and "i \<le> length p"
  shows "\<not> prefix m (drop i p @ sep # r)"
proof
  assume "prefix m (drop i p @ sep # r)"
  then consider "prefix m (drop i p)" | x where "m = drop i p @ sep # x"
    by (auto simp: prefix_append prefix_Cons split: if_splits)
  then show False
  proof cases
    case 1
    then have "sublist m p"
      by (meson prefix_imp_sublist sublist_drop sublist_order.order_trans)
    with assms(2) show False ..
  next
    case 2
    with assms(1) show False by simp
  qed
qed

lemma str_index_segment:
  assumes "sep \<notin> set m" and "\<not> sublist m p"
  shows "str_index (p @ sep # m @ r) m = Some (Suc (length p))"
proof -
  have "str_index ((p @ [sep]) @ m @ r) m = Some (length (p @ [sep]))"
  proof (rule str_index_append_prefix)
    fix i assume "i < length (p @ [sep])"
    then have "i \<le> length p" by simp
    with not_prefix_before_sep [OF assms this, of "m @ r"]
    show "\<not> prefix m (drop i ((p @ [sep]) @ m @ r))" by simp
  qed
  then show ?thesis by simp
qed

lemma sublist_sep:
  assumes "sep \<notin> set m" and "\<not> sublist m p" and "\<not> sublist m r" and "m \<noteq> []"
  shows "\<not> sublist m (p @ sep # r)"
proof
  assume "sublist m (p @ sep # r)"
  then obtain u v where uv: "p @ sep # r = u @ m @ v" by (auto simp: sublist_def)
  show False
  proof (cases "length u \<le> length p")
    case True
    then have "drop (length u) (p @ sep # r) = drop (length u) p @ sep # r" by simp
    moreover have "drop (length u) (p @ sep # r) = m @ v" unfolding uv by simp
    ultimately have "prefix m (drop (length u) p @ sep # r)" by (metis prefixI)
    with not_prefix_before_sep [OF assms(1,2) True] show False by simp
  next
    case False
    then obtain k where k: "length u = Suc (length p + k)"
      by (metis add_Suc_right less_iff_Suc_add not_le)
    have "drop (length u) (p @ sep # r) = drop k r" by (simp add: k)
    moreover have "drop (length u) (p @ sep # r) = m @ v" unfolding uv by simp
    ultimately have "drop k r = m @ v" by simp
    then have "sublist m r" by (metis append.assoc append_take_drop_id sublist_appendI)
    with assms(3) show False ..
  qed
qed

lemma field_segment:
  assumes "CHR '' '' \<notin> set m" and "\<not> sublist m p" and "CHR '' '' \<notin> set v"
  shows "field (p @ CHR '' '' # m @ v) m = Some v"
    and "field (p @ CHR '' '' # m @ v @ CHR '' '' # r) m = Some v"
  using str_index_segment [OF assms(1,2)] assms(3)
  by (simp_all add: field_def index_byte_None index_byte_append)

section \<open>Base64 text that ends like the signature marker\<close>

text \<open>
  The text between the two markers is base64, whose padding is the last character of the
  marker.  It can end in \<^verbatim>\<open>ig=\<close> only when the encoded bytes end in one of two bytes, and the
  canonical bytes never do.
\<close>

lemma b64_char_inj: "n < 64 \<Longrightarrow> b64_char n = c \<Longrightarrow> b64_val c = Some n"
  by auto

lemma b64_val_ig: "b64_val (CHR ''i'') = Some 34" "b64_val (CHR ''g'') = Some 32"
  by (simp_all add: b64_val_def)

lemma b64_ig_one:
  fixes x :: char
  defines "a \<equiv> of_char x :: nat"
  assumes "b64_char (a div 4) = CHR ''i''" and "b64_char (a mod 4 * 16) = CHR ''g''"
  shows "a = 138"
proof -
  have "a < 256" by (simp add: a_def)
  from b64_char_inj [OF b64_arith(1) [OF this, of 0 0] assms(2)] b64_char_inj [OF _ assms(3)]
  have q: "a div 4 = 34" "a mod 4 * 16 = 32" by (simp_all add: b64_val_ig)
  from q(2) have "a mod 4 = 2" by linarith
  with q(1) mult_div_mod_eq [of 4 a] show ?thesis by linarith
qed

lemma b64_ig_two:
  fixes x y :: char
  defines "a \<equiv> of_char x :: nat" and "b \<equiv> of_char y :: nat"
  assumes "b64_char (a mod 4 * 16 + b div 16) = CHR ''i''" and "b64_char (b mod 16 * 4) = CHR ''g''"
  shows "b = 40"
proof -
  have lin: "k * 16 + q = 34 \<Longrightarrow> q < 16 \<Longrightarrow> q = 2" for k q :: nat by presburger
  have "a < 256" and b: "b < 256" by (simp_all add: a_def b_def)
  from b64_char_inj [OF b64_arith(2) [OF this, of 0] assms(3)] b64_char_inj [OF _ assms(4)]
  have q: "a mod 4 * 16 + b div 16 = 34" "b mod 16 * 4 = 32" by (simp_all add: b64_val_ig)
  have "b div 16 < 16" using b by (intro less_mult_imp_div_less) simp
  with q(1) have "b div 16 = 2" by (rule lin)
  moreover from q(2) have "b mod 16 = 8" by linarith
  ultimately show ?thesis using mult_div_mod_eq [of 16 b] by linarith
qed

lemma b64_encode_head:
  "b64_encode r = [] \<and> r = [] \<or> (\<exists>a b t. b64_encode r = a # b # t \<and> a \<noteq> CHR ''='' \<and> b \<noteq> CHR ''='')"
proof (cases r rule: b64_encode.cases)
  case (4 x y z r')
  note a = b64_arith [OF nat_of_char_less_256 [of x] nat_of_char_less_256 [of y] nat_of_char_less_256 [of z]]
  show ?thesis using b64_char_neq_pad [OF a(1)] b64_char_neq_pad [OF a(2)] by (simp add: 4 Let_def)
next
  case (3 x y)
  note a = b64_arith [OF nat_of_char_less_256 [of x] nat_of_char_less_256 [of y] nat_of_char_less_256 [of y]]
  show ?thesis using b64_char_neq_pad [OF a(1)] b64_char_neq_pad [OF a(2)] by (simp add: 3 Let_def)
next
  case (2 x)
  note a = b64_arith [OF nat_of_char_less_256 [of x], of 0 0]
  show ?thesis using b64_char_neq_pad [OF a(1)] b64_char_neq_pad [OF a(2)] by (simp add: 2 Let_def)
qed simp

lemma b64_marker_end:
  "sublist ''ig='' (b64_encode bs) \<Longrightarrow>
   bs \<noteq> [] \<and> ((of_char (last bs) :: nat) = 138 \<or> (of_char (last bs) :: nat) = 40)"
proof (induction bs rule: b64_encode.induct)
  case 1
  then show ?case by simp
next
  case (2 x)
  have "b64_char (of_char x mod 4 * 16) \<noteq> CHR ''=''" by (rule b64_char_neq_pad) simp
  with 2 have "b64_char (of_char x div 4) = CHR ''i''" "b64_char (of_char x mod 4 * 16) = CHR ''g''"
    by (auto simp: Let_def sublist_Cons_right)
  from b64_ig_one [OF this] show ?case by simp
next
  case (3 x y)
  have "b64_char (of_char y mod 16 * 4) \<noteq> CHR ''=''" by (rule b64_char_neq_pad) simp
  with 3 have "b64_char (of_char x mod 4 * 16 + of_char y div 16) = CHR ''i''"
    "b64_char (of_char y mod 16 * 4) = CHR ''g''"
    by (auto simp: Let_def sublist_Cons_right)
  from b64_ig_two [OF this] show ?case by simp
next
  case (4 x y z r)
  note a = b64_arith [OF nat_of_char_less_256 [of x] nat_of_char_less_256 [of y] nat_of_char_less_256 [of z]]
  have "sublist ''ig='' (b64_encode r)"
    using "4.prems" b64_encode_head [of r] b64_char_neq_pad [OF a(3)] b64_char_neq_pad [OF a(4)]
    by (auto simp: Let_def sublist_Cons_right)
  from "4.IH" [OF refl refl refl this] show ?case by simp
qed

lemma canonical_no_sig_marker: "\<not> sublist sigField (canonField @ b64_encode (CanonicalBytes i))"
proof
  assume "sublist sigField (canonField @ b64_encode (CanonicalBytes i))"
  then have "sublist ''sig='' (b64_encode (CanonicalBytes i))"
    by (simp add: sigField_def canonField_def sublist_Cons_right)
  moreover have "sublist ''ig='' ''sig=''" by (simp add: sublist_Cons_right)
  ultimately have "sublist ''ig='' (b64_encode (CanonicalBytes i))"
    using sublist_order.order_trans by blast
  from b64_marker_end [OF this] CanonicalBytes_last [of i] show False by auto
qed

section \<open>Verification of an applied intent\<close>

text \<open>The summary at the start of the detail, which must not itself contain a marker.\<close>

definition detail_summary :: "RemediationIntent \<Rightarrow> string" where
  "detail_summary i = ri_Kind i @ '' target='' @ ri_Target i @ '' rule='' @ ri_RuleSHA i"

lemma AppliedAuditDetail_segments:
  "AppliedAuditDetail i =
     detail_summary i @ CHR '' '' # canonField @ b64_encode (CanonicalBytes i) @ CHR '' '' # sigField @ ri_Signature i"
  by (simp add: AppliedAuditDetail_def detail_summary_def)

lemma field_canon:
  assumes "\<not> sublist canonField (detail_summary i)"
  shows "field (AppliedAuditDetail i) canonField = Some (b64_encode (CanonicalBytes i))"
  unfolding AppliedAuditDetail_segments using assms b64_encode_no_space
  by (intro field_segment(2)) (simp_all add: canonField_def)

lemma field_sig:
  assumes "\<not> sublist sigField (detail_summary i)" and "CHR '' '' \<notin> set (ri_Signature i)"
  shows "field (AppliedAuditDetail i) sigField = Some (ri_Signature i)"
proof -
  have "\<not> sublist sigField (detail_summary i @ CHR '' '' # canonField @ b64_encode (CanonicalBytes i))"
    using assms(1) canonical_no_sig_marker [of i] by (intro sublist_sep) (simp_all add: sigField_def)
  from field_segment(1) [OF _ this assms(2)] show ?thesis
    by (simp add: AppliedAuditDetail_segments sigField_def)
qed

lemma VerifyAuditDetail_applied:
  assumes "\<not> sublist canonField (detail_summary i)" and "\<not> sublist sigField (detail_summary i)"
    and "ri_Signature i = b64_encode raw"
  shows "VerifyAuditDetail ed pub (AppliedAuditDetail i) = (ed_Verify ed pub (CanonicalBytes i) raw, True)"
  using field_canon [OF assms(1)] field_sig [OF assms(2)] b64_encode_no_space [of raw]
  by (simp add: VerifyAuditDetail_def assms(3))

context honest_signer
begin

lemma applied_detail_verifies:
  assumes "\<not> sublist canonField (detail_summary i)" and "\<not> sublist sigField (detail_summary i)"
    and "ri_Signature i = sg_Sign s (CanonicalBytes i)"
  shows "VerifyAuditDetail ed (sg_PublicKey s) (AppliedAuditDetail i) = (True, True)"
proof -
  obtain raw where raw: "sg_Sign s (CanonicalBytes i) = b64_encode raw"
    "ed_Verify ed (sg_PublicKey s) (CanonicalBytes i) raw"
    using signature_text by blast
  from VerifyAuditDetail_applied [OF assms(1,2), of raw] raw assms(3) show ?thesis by simp
qed

end

section \<open>Signers made from a private key\<close>

locale ed25519_key = ed25519_scheme +
  fixes priv :: bytes
  assumes priv_size: "length priv = PrivateKeySize"

sublocale ed25519_key \<subseteq> key_signer: honest_signer ed "signerFromPrivate ed priv"
  by (rule honest_signerFromPrivate) (unfold_locales, rule priv_size)

text \<open>
  A concrete scheme that meets the laws, for the witnesses: the public key is the first half
  of the private key and the signature is the public key followed by the message.
\<close>

definition demo_ed :: ed25519 where
  "demo_ed =
     \<lparr>ed_Sign = (\<lambda>priv m. take PublicKeySize priv @ m), ed_Verify = (\<lambda>pub m s. s = pub @ m),
      ed_Public = take PublicKeySize\<rparr>"

definition demo_priv :: bytes where
  "demo_priv = replicate 64 (CHR ''k'')"

interpretation demo_key: ed25519_key demo_ed demo_priv
  by unfold_locales (simp_all add: demo_ed_def demo_priv_def PublicKeySize_def PrivateKeySize_def)

section \<open>Key files\<close>

lemma plain_b64_alphabet: "n < 64 \<Longrightarrow> plain_char (b64_char n)"
  by (auto simp: plain_char_def b64_char_def)

lemma plain_b64: "c \<in> set (b64_encode bs) \<Longrightarrow> plain_char c"
proof -
  assume "c \<in> set (b64_encode bs)"
  then consider "c = CHR ''=''" | "c \<in> b64_alphabet" using set_b64_encode [of bs] by blast
  then show ?thesis
  proof cases
    case 1
    then show ?thesis by (simp add: plain_char_def)
  next
    case 2
    then show ?thesis by (auto simp: b64_alphabet_def plain_b64_alphabet)
  qed
qed

lemma trim_b64 [simp]: "trim_space (b64_encode bs) = b64_encode bs"
proof (cases "b64_encode bs = []")
  case False
  then show ?thesis using plain_b64 [of _ bs] by (intro trim_space_plain) simp_all
qed simp

lemma PublicKeyPath_neq [simp]: "PublicKeyPath p \<noteq> p" "p \<noteq> PublicKeyPath p"
  by (simp_all add: PublicKeyPath_def)

lemma exportPublicKey_ok:
  assumes "exportPublicKey fs path pub = Inr fs'" and "fs_readable fs (PublicKeyPath path)"
  shows "\<exists>b. ReadFile fs' (PublicKeyPath path) = Some b \<and> trim_space b = b64_encode pub"
    and "ReadFile fs' path = ReadFile fs path"
    and "exportPublicKey fs' path pub = Inr fs'"
proof -
  show ex: "\<exists>b. ReadFile fs' (PublicKeyPath path) = Some b \<and> trim_space b = b64_encode pub"
    using assms by (auto simp: exportPublicKey_def WriteFile_def ReadFile_def Let_def
        split: if_splits option.splits sum.splits)
  show "ReadFile fs' path = ReadFile fs path"
    using assms by (auto simp: exportPublicKey_def WriteFile_def ReadFile_def Let_def
        split: if_splits option.splits sum.splits)
  from ex show "exportPublicKey fs' path pub = Inr fs'" by (auto simp: exportPublicKey_def)
qed

lemma WriteFile_ReadFile:
  "WriteFile fs path b = Inr fs' \<Longrightarrow> fs_readable fs path \<Longrightarrow> ReadFile fs' path = Some b"
  "WriteFile fs path b = Inr fs' \<Longrightarrow> fs_readable fs' = fs_readable fs"
  by (auto simp: WriteFile_def ReadFile_def split: option.splits)

lemma LoadOrCreateSigner_ok:
  assumes "LoadOrCreateSigner ed fs path gen = (fs', Inr s)"
    and "fs_readable fs path" and "fs_readable fs (PublicKeyPath path)"
    and "\<And>pub priv. gen = Inr (pub, priv) \<Longrightarrow> length priv = PrivateKeySize"
  shows "\<exists>priv b. length priv = PrivateKeySize \<and> s = signerFromPrivate ed priv
           \<and> ReadFile fs' path = Some b \<and> b64_decode (trim_space b) = Some priv
           \<and> exportPublicKey fs' path (ed_Public ed priv) = Inr fs'
           \<and> (\<exists>c. ReadFile fs' (PublicKeyPath path) = Some c \<and> trim_space c = b64_encode (ed_Public ed priv))"
proof (cases "ReadFile fs path")
  case (Some b)
  with assms(1) obtain priv where p: "b64_decode (trim_space b) = Some priv" "length priv = PrivateKeySize"
    "exportPublicKey fs path (ed_Public ed priv) = Inr fs'" "s = signerFromPrivate ed priv"
    by (auto simp: LoadOrCreateSigner_def split: option.splits if_splits sum.splits)
  from exportPublicKey_ok [OF p(3) assms(3)] p Some show ?thesis by auto
next
  case None
  with assms(1) obtain pub priv fs1 where p: "gen = Inr (pub, priv)" "WriteFile fs path (b64_encode priv) = Inr fs1"
    "exportPublicKey fs1 path (ed_Public ed priv) = Inr fs'" "s = signerFromPrivate ed priv"
    by (auto simp: LoadOrCreateSigner_def split: option.splits if_splits sum.splits)
  note w = WriteFile_ReadFile [OF p(2)]
  have "fs_readable fs1 (PublicKeyPath path)" using w(2) assms(3) by simp
  from exportPublicKey_ok [OF p(3) this] w(1) [OF assms(2)] p assms(4) [OF p(1)] show ?thesis by auto
qed

section \<open>Properties\<close>

text \<open>C18: what the engine writes for an applied intent verifies later.  With a correct Ed25519, a
  private key of the right size and an intent whose kind, target and rule hash contain neither
  field marker, the audit detail of the signed intent is found and verifies under the public
  key alone.\<close>

theorem applied_detail_is_verifiable:
  assumes "ed25519_scheme ed" and "length priv = PrivateKeySize"
    and "\<not> sublist canonField (detail_summary i)" and "\<not> sublist sigField (detail_summary i)"
  shows "VerifyAuditDetail ed (sg_PublicKey (signerFromPrivate ed priv))
           (AppliedAuditDetail (i\<lparr>ri_Signature := sg_Sign (signerFromPrivate ed priv) (CanonicalBytes i)\<rparr>)) = (True, True)"
  using assms(3,4)
  by (intro honest_signer.applied_detail_verifies honest_signerFromPrivate assms(1,2))
     (simp_all add: detail_summary_def)

definition demo_intent :: RemediationIntent where
  "demo_intent =
     zero_intent\<lparr>ri_ID := ''0123456789abcdef'', ri_Kind := ActionRouteOverride, ri_Target := ''gpt-4o'',
                 ri_Args := Some [(''to'', AStr ''ollama/llama3'')], ri_TTL := 30 * minute, ri_RuleSHA := ''abc123''\<rparr>"

lemma demo_intent_summary: "detail_summary demo_intent = ''route_override target=gpt-4o rule=abc123''"
  by (simp add: detail_summary_def demo_intent_def ActionRouteOverride_def)

theorem applied_detail_is_verifiable_witness:
  "VerifyAuditDetail demo_ed (sg_PublicKey (signerFromPrivate demo_ed demo_priv))
     (AppliedAuditDetail (demo_intent\<lparr>ri_Signature := sg_Sign (signerFromPrivate demo_ed demo_priv) (CanonicalBytes demo_intent)\<rparr>))
   = (True, True)"
proof (rule applied_detail_is_verifiable)
  show "ed25519_scheme demo_ed" by (rule demo_key.ed25519_scheme_axioms)
  show "length demo_priv = PrivateKeySize" by (rule demo_key.priv_size)
  show "\<not> sublist canonField (detail_summary demo_intent)" "\<not> sublist sigField (detail_summary demo_intent)"
    by (simp_all add: demo_intent_summary canonField_def sigField_def sublist_Cons_right)
qed

text \<open>A target whose second word starts with the signature marker and is not base64 makes the
  detail of every honestly signed intent fail verification: the first occurrence of the marker
  wins, and the target comes before the signature.\<close>

theorem marker_in_target_breaks_verification:
  assumes "ri_Target i = u @ '' sig='' @ t" and "\<not> sublist sigField (ri_Kind i @ '' target='' @ u)"
    and "CHR '' '' \<notin> set t" and "b64_decode t = None"
  shows "VerifyAuditDetail ed pub (AppliedAuditDetail i) = (False, True)"
proof -
  have d: "AppliedAuditDetail i =
      (ri_Kind i @ '' target='' @ u) @ CHR '' '' # sigField @ t @ CHR '' '' # ''rule='' @ ri_RuleSHA i @ '' '' @
      canonField @ b64_encode (CanonicalBytes i) @ '' '' @ sigField @ ri_Signature i"
    by (simp add: AppliedAuditDetail_def assms(1) sigField_def)
  have "field (AppliedAuditDetail i) sigField = Some t"
    unfolding d using assms(2,3) by (intro field_segment(2)) (simp_all add: sigField_def)
  moreover have "sublist canonField (AppliedAuditDetail i)"
    unfolding sublist_def AppliedAuditDetail_segments
    by (rule exI [of _ "detail_summary i @ '' ''"]) simp
  then have "str_index (AppliedAuditDetail i) canonField \<noteq> None" by (simp only: str_index_sublist)
  then obtain c where "field (AppliedAuditDetail i) canonField = Some c" by (auto simp: field_def Let_def)
  ultimately show ?thesis using assms(4) by (auto simp: VerifyAuditDetail_def split: option.splits)
qed

theorem marker_in_target_breaks_verification_witness:
  "VerifyAuditDetail demo_ed (sg_PublicKey (signerFromPrivate demo_ed demo_priv))
     (AppliedAuditDetail (demo_intent\<lparr>ri_Target := ''gpt-4o sig=x'',
        ri_Signature := sg_Sign (signerFromPrivate demo_ed demo_priv) (CanonicalBytes (demo_intent\<lparr>ri_Target := ''gpt-4o sig=x''\<rparr>))\<rparr>))
   = (False, True)"
  by (rule marker_in_target_breaks_verification [where u = "''gpt-4o''" and t = "''x''"])
     (simp_all add: demo_intent_def ActionRouteOverride_def sigField_def sublist_Cons_right b64_decode_def)

text \<open>Verification authenticates the embedded canonical bytes only.  Replacing the kind, target
  and rule of a persisted detail by any other text without markers leaves the result of the
  verification unchanged.\<close>

theorem summary_edit_undetected:
  assumes "\<not> sublist canonField p" and "\<not> sublist sigField p"
    and "\<not> sublist canonField (detail_summary i)" and "\<not> sublist sigField (detail_summary i)"
    and "ri_Signature i = b64_encode raw"
  shows "VerifyAuditDetail ed pub (p @ drop (length (detail_summary i)) (AppliedAuditDetail i))
         = VerifyAuditDetail ed pub (AppliedAuditDetail i)"
proof -
  let ?c = "b64_encode (CanonicalBytes i)"
  let ?d = "p @ CHR '' '' # canonField @ ?c @ CHR '' '' # sigField @ ri_Signature i"
  have d: "p @ drop (length (detail_summary i)) (AppliedAuditDetail i) = ?d"
    by (simp add: AppliedAuditDetail_segments)
  have "field ?d canonField = Some ?c"
    using assms(1) b64_encode_no_space by (intro field_segment(2)) (simp_all add: canonField_def)
  moreover have "\<not> sublist sigField (p @ CHR '' '' # canonField @ ?c)"
    using assms(2) canonical_no_sig_marker [of i] by (intro sublist_sep) (simp_all add: sigField_def)
  then have "field ((p @ CHR '' '' # canonField @ ?c) @ CHR '' '' # sigField @ ri_Signature i) sigField = Some (ri_Signature i)"
    using b64_encode_no_space [of raw] assms(5) by (intro field_segment(1)) (simp_all add: sigField_def)
  ultimately have "VerifyAuditDetail ed pub ?d = (ed_Verify ed pub (CanonicalBytes i) raw, True)"
    using assms(5) by (simp add: VerifyAuditDetail_def)
  then show ?thesis unfolding d VerifyAuditDetail_applied [OF assms(3,4,5)] .
qed

theorem summary_edit_undetected_witness:
  "let i = demo_intent\<lparr>ri_Signature := b64_encode (CHR ''k'' # ''x'')\<rparr>
   in VerifyAuditDetail demo_ed ''k'' (''page target=other rule=none'' @ drop (length (detail_summary i)) (AppliedAuditDetail i))
      = VerifyAuditDetail demo_ed ''k'' (AppliedAuditDetail i)"
  unfolding Let_def
  by (rule summary_edit_undetected [where raw = "CHR ''k'' # ''x''"])
     (simp_all add: demo_intent_summary [unfolded detail_summary_def] detail_summary_def demo_intent_def
       ActionRouteOverride_def canonField_def sigField_def sublist_Cons_right)

text \<open>C19: signatures are stable across restarts.  After a first successful start at a key path that
  the process can read, a second start finds the same signer, whatever its random source
  yields, and writes nothing; and the verifier who loads the exported file gets exactly the
  public key of that signer.\<close>

theorem signer_stable_across_restarts:
  assumes "ed25519_scheme ed"
    and "LoadOrCreateSigner ed fs path gen = (fs', Inr s)"
    and "fs_readable fs path" and "fs_readable fs (PublicKeyPath path)"
    and "\<And>pub priv. gen = Inr (pub, priv) \<Longrightarrow> length priv = PrivateKeySize"
  shows "LoadOrCreateSigner ed fs' path gen' = (fs', Inr s)
         \<and> LoadVerifierKey fs' (PublicKeyPath path) = Inr (sg_PublicKey s)"
proof -
  obtain priv b c where p: "length priv = PrivateKeySize" "s = signerFromPrivate ed priv"
    "ReadFile fs' path = Some b" "b64_decode (trim_space b) = Some priv"
    "exportPublicKey fs' path (ed_Public ed priv) = Inr fs'"
    "ReadFile fs' (PublicKeyPath path) = Some c" "trim_space c = b64_encode (ed_Public ed priv)"
    using LoadOrCreateSigner_ok [OF assms(2-4)] assms(5) by blast
  then show ?thesis
    using ed25519_scheme.public_size [OF assms(1) p(1)]
    by (simp add: LoadOrCreateSigner_def LoadVerifierKey_def signerFromPrivate_def ed25519Signer_def)
qed

definition demo_fs :: FS where
  "demo_fs = \<lparr>fs_files = [], fs_readable = (\<lambda>_. True), fs_write_error = (\<lambda>_. None)\<rparr>"

theorem signer_stable_across_restarts_witness:
  "LoadOrCreateSigner demo_ed (fst (LoadOrCreateSigner demo_ed demo_fs ''key'' (Inr (take 32 demo_priv, demo_priv)))) ''key'' (Inl ''no entropy'')
   = (fst (LoadOrCreateSigner demo_ed demo_fs ''key'' (Inr (take 32 demo_priv, demo_priv))), Inr (signerFromPrivate demo_ed demo_priv))"
proof -
  have "LoadOrCreateSigner demo_ed demo_fs ''key'' (Inr (take 32 demo_priv, demo_priv)) =
    (fst (LoadOrCreateSigner demo_ed demo_fs ''key'' (Inr (take 32 demo_priv, demo_priv))), Inr (signerFromPrivate demo_ed demo_priv))"
    by (simp add: LoadOrCreateSigner_def demo_fs_def ReadFile_def WriteFile_def exportPublicKey_def Let_def)
  from signer_stable_across_restarts [OF demo_key.ed25519_scheme_axioms this, of "Inl ''no entropy''"]
  show ?thesis using demo_key.priv_size by (simp add: demo_fs_def)
qed

end
