(* ===== verification/AuditChain.thy ===== *)
theory AuditChain
  imports Signing
begin

text \<open>
  \<^verbatim>\<open>state/audit.go\<close>: the hash chain of audit entries, the signed checkpoint over its length
  and head, and the two verification functions that both storage backends share.  The lemmas
  show how a chain grows, that its head determines it up to a SHA-256 collision (which the
  statement exhibits), and what a checkpoint adds.
\<close>

section \<open>The chain\<close>

record AuditEntry =
  ae_Seq :: int
  ae_TS :: time
  ae_Kind :: string
  ae_Detail :: string
  ae_PrevHash :: string
  ae_Hash :: string

definition zero_entry :: AuditEntry where
  "zero_entry = \<lparr>ae_Seq = 0, ae_TS = zero_time, ae_Kind = [], ae_Detail = [], ae_PrevHash = [], ae_Hash = []\<rparr>"

text \<open>The bytes written to the hash.\<close>

definition chain_preimage :: "string \<Rightarrow> string \<Rightarrow> string \<Rightarrow> string \<Rightarrow> bytes" where
  "chain_preimage ts kind detail prev = ts @ [NUL] @ kind @ [NUL] @ detail @ [NUL] @ prev"

definition ChainHash :: "string \<Rightarrow> string \<Rightarrow> string \<Rightarrow> string \<Rightarrow> string" where
  "ChainHash ts kind detail prev = hex_encode (sha256 (chain_preimage ts kind detail prev))"

fun verify_from :: "string \<Rightarrow> AuditEntry list \<Rightarrow> bool" where
  "verify_from prev [] = True"
| "verify_from prev (e # es) =
     (let ts = format_rfc3339 (ae_TS e)
      in if ae_PrevHash e \<noteq> prev \<or> ae_Hash e \<noteq> ChainHash ts (ae_Kind e) (ae_Detail e) prev then False
         else verify_from (ae_Hash e) es)"

definition VerifyChain :: "AuditEntry list \<Rightarrow> bool" where
  "VerifyChain es = verify_from [] es"

section \<open>Checkpoints\<close>

record Checkpoint =
  cp_Count :: int
  cp_HeadHash :: string
  cp_Sig :: string
  cp_PubKey :: string

definition zero_checkpoint :: Checkpoint where
  "zero_checkpoint = \<lparr>cp_Count = 0, cp_HeadHash = [], cp_Sig = [], cp_PubKey = []\<rparr>"

text \<open>The digits are written into a 20-byte buffer from its end; negation wraps like \<^verbatim>\<open>int\<close>.\<close>

function itoa_digits :: "int \<Rightarrow> string" where
  "itoa_digits n = (if n > 0 then itoa_digits (n div 10) @ [digit_char (n mod 10)] else [])"
  by pat_completeness auto
termination
  by (relation "measure nat") auto

declare itoa_digits.simps [simp del]

definition itoa :: "int \<Rightarrow> string" where
  "itoa n =
     (if n = 0 then ''0''
      else (let neg = n < 0; m = (if neg then wrap64 (- n) else n)
            in (if neg then ''-'' else []) @ itoa_digits m))"

definition CheckpointPayload :: "int \<Rightarrow> string \<Rightarrow> bytes" where
  "CheckpointPayload cnt headHash =
     sha256 (''sloppy-audit-checkpoint-v1'' @ [NUL] @ itoa cnt @ [NUL] @ headHash)"

definition MakeCheckpoint :: "Signer \<Rightarrow> int \<Rightarrow> string \<Rightarrow> Checkpoint" where
  "MakeCheckpoint s cnt headHash =
     \<lparr>cp_Count = cnt, cp_HeadHash = headHash, cp_Sig = sg_Sign s (CheckpointPayload cnt headHash),
      cp_PubKey = b64_encode (sg_PublicKey s)\<rparr>"

definition head_hash :: "AuditEntry list \<Rightarrow> string" where
  "head_hash es = (if es = [] then [] else ae_Hash (last es))"

definition VerifyAgainstCheckpoint :: "ed25519 \<Rightarrow> AuditEntry list \<Rightarrow> Checkpoint \<Rightarrow> bool \<Rightarrow> bool \<Rightarrow> bool" where
  "VerifyAgainstCheckpoint ed es cp cpFound requireCheckpoint =
     (if \<not> VerifyChain es then False
      else if \<not> cpFound then (if requireCheckpoint \<and> es \<noteq> [] then False else True)
      else if cp_Count cp \<noteq> int (length es) \<or> cp_HeadHash cp \<noteq> head_hash es then False
      else case b64_decode (cp_PubKey cp) of
        None \<Rightarrow> False
      | Some pub \<Rightarrow>
          if length pub \<noteq> PublicKeySize then False
          else (case b64_decode (cp_Sig cp) of
                  None \<Rightarrow> False
                | Some s \<Rightarrow> ed_Verify ed pub (CheckpointPayload (cp_Count cp) (cp_HeadHash cp)) s))"

section \<open>How chains grow\<close>

lemma verify_from_append:
  "verify_from prev (es @ fs) \<longleftrightarrow>
     verify_from prev es \<and> verify_from (if es = [] then prev else ae_Hash (last es)) fs"
  by (induction es arbitrary: prev) (auto simp: Let_def)

lemma VerifyChain_append: "VerifyChain (es @ fs) \<longleftrightarrow> VerifyChain es \<and> verify_from (head_hash es) fs"
  by (simp add: VerifyChain_def verify_from_append head_hash_def)

lemma VerifyChain_snoc:
  "VerifyChain (es @ [e]) \<longleftrightarrow>
     VerifyChain es \<and> ae_PrevHash e = head_hash es
     \<and> ae_Hash e = ChainHash (format_rfc3339 (ae_TS e)) (ae_Kind e) (ae_Detail e) (head_hash es)"
  by (auto simp: VerifyChain_append Let_def)

lemma VerifyChain_prefix: "VerifyChain es \<Longrightarrow> VerifyChain (take n es)"
  using VerifyChain_append [of "take n es" "drop n es"] by simp

lemma head_hash_simps [simp]: "head_hash [] = []" "head_hash (es @ [e]) = ae_Hash e"
  by (simp_all add: head_hash_def)

section \<open>The preimage of an entry is framed\<close>

definition time_char :: "char \<Rightarrow> bool" where
  "time_char c \<longleftrightarrow> is_digit c \<or> c \<in> {CHR ''-'', CHR ''T'', CHR '':'', CHR ''.'', CHR ''Z''}"

lemma pad_int_chars: "c \<in> set (pad_int w n) \<Longrightarrow> is_digit c \<or> c = CHR ''-''"
  using dec_digits_are_digits [of n] dec_digits_are_digits [of "- n"]
  by (auto simp: pad_int_def pad_digits_def Let_def list_all_iff split: if_splits)

lemma strip_zeros_subset: "set (strip_zeros s) \<subseteq> set s"
  using set_dropWhileD by (fastforce simp: strip_zeros_def)

lemma format_rfc3339_chars: "c \<in> set (format_rfc3339 t) \<Longrightarrow> time_char c"
  using strip_zeros_subset
  by (fastforce simp: format_rfc3339_def Let_def time_char_def frac_text_def
      split: prod.splits if_splits dest: pad_int_chars)

lemma time_char_NUL: "\<not> time_char NUL"
  by (simp add: time_char_def NUL_def is_digit_def)

lemma format_rfc3339_NUL: "NUL \<notin> set (format_rfc3339 t)"
  using format_rfc3339_chars time_char_NUL by blast

lemma hex_NUL: "NUL \<notin> set (hex_encode b)"
  using set_hex_encode [of b] by (auto simp: hex_chars_def NUL_def)

lemma chain_preimage_inject:
  assumes "chain_preimage ts k d p = chain_preimage ts' k' d' p'"
    and "NUL \<notin> set ts" "NUL \<notin> set ts'" "NUL \<notin> set k" "NUL \<notin> set k'" "NUL \<notin> set p" "NUL \<notin> set p'"
  shows "ts = ts' \<and> k = k' \<and> d = d' \<and> p = p'"
proof -
  have "ts = ts' \<and> k @ NUL # d @ NUL # p = k' @ NUL # d' @ NUL # p'"
    using assms(1-3) by (intro append_sep_inject [of ts NUL]) (simp_all add: chain_preimage_def)
  moreover then have "k = k' \<and> d @ NUL # p = d' @ NUL # p'"
    using assms(4,5) by (intro append_sep_inject [of k NUL]) simp_all
  moreover then have "d = d' \<and> p = p'"
    using assms(6,7) by (intro append_sep_inject_right [of d NUL]) simp_all
  ultimately show ?thesis by simp
qed

section \<open>The head determines the chain\<close>

lemma of_char_hex_digit: "n < 16 \<Longrightarrow> of_char (hex_digit n) = (if n < 10 then 48 + n else 87 + n)"
  by (simp add: hex_digit_def)

lemma hex_digit_inj:
  assumes "m < 16" and "n < 16" and "hex_digit m = hex_digit n"
  shows "m = n"
proof -
  have lin: "(if m < 10 then 48 + m else 87 + m) = (if n < 10 then 48 + n else 87 + n) \<Longrightarrow> m = n" for m n :: nat
    by (simp split: if_splits)
  show ?thesis
    by (rule lin) (simp only: of_char_hex_digit [OF assms(1), symmetric] of_char_hex_digit [OF assms(2), symmetric] assms(3))
qed

lemma hex_encode_inject: "hex_encode a = hex_encode b \<Longrightarrow> a = b"
proof (induction a arbitrary: b)
  case Nil
  then show ?case by (cases b) (simp_all add: hex_encode_def)
next
  case (Cons x a)
  then obtain y b' where b: "b = y # b'" by (cases b) (auto simp: hex_encode_def)
  have lt: "(of_char c :: nat) div 16 < 16" "(of_char c :: nat) mod 16 < 16" for c
    by (simp_all add: less_mult_imp_div_less)
  have "hex_digit (of_char x div 16) = hex_digit (of_char y div 16)"
    "hex_digit (of_char x mod 16) = hex_digit (of_char y mod 16)" "hex_encode a = hex_encode b'"
    using Cons.prems by (simp_all add: b hex_encode_def)
  then have "of_char x div 16 = (of_char y :: nat) div 16" "of_char x mod 16 = (of_char y :: nat) mod 16" "a = b'"
    using hex_digit_inj lt Cons.IH by blast+
  then show ?case unfolding b by (metis div_mult_mod_eq of_char_eq_iff)
qed

definition entry_preimage :: "AuditEntry \<Rightarrow> bytes" where
  "entry_preimage e = chain_preimage (format_rfc3339 (ae_TS e)) (ae_Kind e) (ae_Detail e) (ae_PrevHash e)"

text \<open>Everything of an entry that the chain covers: all fields but the sequence number.\<close>

definition entry_content :: "AuditEntry \<Rightarrow> string \<times> string \<times> string \<times> string \<times> string" where
  "entry_content e = (format_rfc3339 (ae_TS e), ae_Kind e, ae_Detail e, ae_PrevHash e, ae_Hash e)"

definition kind_framed :: "AuditEntry \<Rightarrow> bool" where
  "kind_framed e \<longleftrightarrow> NUL \<notin> set (ae_Kind e)"

definition sha256_collision :: "bytes \<Rightarrow> bytes \<Rightarrow> bool" where
  "sha256_collision p q \<longleftrightarrow> p \<noteq> q \<and> sha256 p = sha256 q"

definition chain_collision :: "AuditEntry list \<Rightarrow> AuditEntry list \<Rightarrow> bool" where
  "chain_collision es es' \<longleftrightarrow>
     list_ex (\<lambda>(e, e'). sha256_collision (entry_preimage e) (entry_preimage e')) (zip es es')"

lemma head_hash_NUL: "VerifyChain es \<Longrightarrow> NUL \<notin> set (head_hash es)"
  by (cases es rule: rev_cases) (auto simp: VerifyChain_snoc ChainHash_def hex_NUL)

lemma snoc_determined:
  assumes "VerifyChain (es @ [e])" "VerifyChain (es' @ [e'])" "ae_Hash e = ae_Hash e'"
    and "kind_framed e" "kind_framed e'"
  shows "entry_content e = entry_content e' \<or> sha256_collision (entry_preimage e) (entry_preimage e')"
proof (cases "entry_preimage e = entry_preimage e'")
  case True
  have "NUL \<notin> set (ae_PrevHash e)" "NUL \<notin> set (ae_PrevHash e')"
    using assms(1,2) head_hash_NUL by (auto simp: VerifyChain_snoc)
  with True assms(3-5) show ?thesis
    using chain_preimage_inject [OF True [unfolded entry_preimage_def]] format_rfc3339_NUL
    by (simp add: entry_content_def kind_framed_def)
next
  case False
  have "hex_encode (sha256 (entry_preimage e)) = hex_encode (sha256 (entry_preimage e'))"
    using assms(1-3) by (simp add: VerifyChain_snoc ChainHash_def entry_preimage_def)
  with False show ?thesis by (auto simp: sha256_collision_def dest: hex_encode_inject)
qed

lemma head_determines_chain:
  assumes "VerifyChain es" "VerifyChain es'" "length es = length es'" "head_hash es = head_hash es'"
    and "list_all kind_framed es" "list_all kind_framed es'"
  shows "map entry_content es = map entry_content es' \<or> chain_collision es es'"
  using assms
proof (induction es arbitrary: es' rule: rev_induct)
  case Nil
  then show ?case by simp
next
  case (snoc e es)
  then obtain fs f where es': "es' = fs @ [f]" by (cases es' rule: rev_cases) auto
  from snoc.prems have len: "length es = length fs" by (simp add: es')
  from snoc.prems have "entry_content e = entry_content f \<or> sha256_collision (entry_preimage e) (entry_preimage f)"
    by (intro snoc_determined [of es e fs f]) (simp_all add: es')
  then show ?case
  proof
    assume "sha256_collision (entry_preimage e) (entry_preimage f)"
    then show ?thesis by (simp add: es' chain_collision_def len)
  next
    assume c: "entry_content e = entry_content f"
    then have "head_hash es = head_hash fs"
      using snoc.prems(1,2) by (auto simp: es' VerifyChain_snoc entry_content_def)
    with snoc.IH [of fs] snoc.prems c len show ?thesis
      by (auto simp: es' VerifyChain_snoc chain_collision_def)
  qed
qed

section \<open>Checkpoints\<close>

context honest_signer
begin

text \<open>An honest checkpoint accepts exactly the valid chains of its length and head.\<close>

lemma checkpoint_accepts_iff:
  "VerifyAgainstCheckpoint ed es (MakeCheckpoint s n h) True req \<longleftrightarrow>
     VerifyChain es \<and> int (length es) = n \<and> head_hash es = h"
  using decode_key decode_verifies [of "CheckpointPayload n h"]
  by (auto simp: VerifyAgainstCheckpoint_def MakeCheckpoint_def)

lemma checkpoint_tamper:
  assumes "VerifyChain es" and "list_all kind_framed es" "list_all kind_framed es'"
    and "VerifyAgainstCheckpoint ed es' (MakeCheckpoint s (int (length es)) (head_hash es)) True req"
  shows "map entry_content es' = map entry_content es \<or> chain_collision es' es"
  using assms by (intro head_determines_chain) (simp_all add: checkpoint_accepts_iff)

end

section \<open>Decimal printing\<close>

lemma itoa_digits_dec: "0 < n \<Longrightarrow> itoa_digits n = dec_digits n"
proof (induction n rule: itoa_digits.induct)
  case (1 n)
  show ?case
  proof (cases "n < 10")
    case True
    with "1.prems" show ?thesis
      by (simp add: itoa_digits.simps [of n] itoa_digits.simps [of 0] dec_digits.simps [of n] not_less)
  next
    case False
    with "1" show ?thesis by (simp add: itoa_digits.simps [of n] dec_digits.simps [of n])
  qed
qed

lemma itoa_dec:
  assumes "in_int64 n" and "n \<noteq> int64_min"
  shows "itoa n = int_to_dec n"
proof -
  have "in_int64 (- n)" using assms by (auto simp: in_int64_def int64_min_def int64_max_def)
  then show ?thesis
    by (auto simp: itoa_def int_to_dec_def Let_def itoa_digits_dec dec_digits.simps [of 0] digit_char_def char_of_def)
qed

section \<open>Properties\<close>

text \<open>C4: a checkpoint pins the whole chain.  If a chain is accepted against the checkpoint that an
  honest signer made for a valid chain, then it is that chain, entry by entry (all fields the
  hash covers), or two corresponding entries exhibit a SHA-256 collision.  The kinds must not
  contain a zero byte; details are arbitrary.\<close>

theorem checkpoint_detects_tampering:
  assumes "ed25519_scheme ed" and "length priv = PrivateKeySize"
    and "VerifyChain es" and "list_all kind_framed es" and "list_all kind_framed es'"
    and "VerifyAgainstCheckpoint ed es'
           (MakeCheckpoint (signerFromPrivate ed priv) (int (length es)) (head_hash es)) True req"
  shows "map entry_content es' = map entry_content es \<or> chain_collision es' es"
  using honest_signer.checkpoint_tamper [OF honest_signerFromPrivate [OF assms(1,2)] assms(3-6)] .

definition demo_entry :: AuditEntry where
  "demo_entry =
     \<lparr>ae_Seq = 1, ae_TS = 0, ae_Kind = ''intent.applied'', ae_Detail = ''page target=x rule=y'', ae_PrevHash = [],
      ae_Hash = ChainHash (format_rfc3339 0) ''intent.applied'' ''page target=x rule=y'' []\<rparr>"

lemma demo_entry_ok: "VerifyChain [demo_entry]" "list_all kind_framed [demo_entry]"
  by (simp_all add: VerifyChain_def demo_entry_def kind_framed_def NUL_def)

theorem checkpoint_detects_tampering_witness:
  "VerifyAgainstCheckpoint demo_ed [demo_entry]
     (MakeCheckpoint (signerFromPrivate demo_ed demo_priv) (int (length [demo_entry])) (head_hash [demo_entry])) True True
   \<and> (map entry_content [demo_entry] = map entry_content [demo_entry] \<or> chain_collision [demo_entry] [demo_entry])"
proof -
  have ok: "VerifyAgainstCheckpoint demo_ed [demo_entry]
     (MakeCheckpoint (signerFromPrivate demo_ed demo_priv) (int (length [demo_entry])) (head_hash [demo_entry])) True True"
    using demo_entry_ok(1) by (simp add: demo_key.key_signer.checkpoint_accepts_iff)
  from checkpoint_detects_tampering [OF demo_key.ed25519_scheme_axioms demo_key.priv_size demo_entry_ok(1,2,2) ok] ok
  show ?thesis by blast
qed

text \<open>C11: an honest checkpoint accepts exactly the valid chains of its own length and head hash, so
  truncation, deletion and replacement are refused; and without a checkpoint a store that
  requires one accepts only the empty chain, so stripping the checkpoint is refused too.\<close>

theorem checkpoint_acceptance:
  assumes "ed25519_scheme ed" and "length priv = PrivateKeySize"
  shows "(VerifyAgainstCheckpoint ed es (MakeCheckpoint (signerFromPrivate ed priv) n h) True req
          \<longleftrightarrow> VerifyChain es \<and> int (length es) = n \<and> head_hash es = h)
         \<and> (VerifyAgainstCheckpoint ed es cp False True \<longleftrightarrow> es = [])"
  using honest_signer.checkpoint_accepts_iff [OF honest_signerFromPrivate [OF assms]]
  by (auto simp: VerifyAgainstCheckpoint_def VerifyChain_def)

theorem checkpoint_acceptance_witness:
  "\<not> VerifyAgainstCheckpoint demo_ed [] (MakeCheckpoint (signerFromPrivate demo_ed demo_priv) 1 (ae_Hash demo_entry)) True False
   \<and> \<not> VerifyAgainstCheckpoint demo_ed [demo_entry] zero_checkpoint False True"
  using checkpoint_acceptance [OF demo_key.ed25519_scheme_axioms demo_key.priv_size, of "[]" 1 "ae_Hash demo_entry" False]
    checkpoint_acceptance [OF demo_key.ed25519_scheme_axioms demo_key.priv_size, of "[demo_entry]" _ _ _ zero_checkpoint]
  by simp

text \<open>Nothing ties the checkpoint to the operator's key.  Any valid chain, with a checkpoint
  signed under any private key whatsoever, is accepted, also by a store that requires a
  checkpoint: the public key used for the check is the one stored beside the signature.\<close>

theorem checkpoint_key_not_pinned:
  assumes "ed25519_scheme ed" and "length attacker_priv = PrivateKeySize" and "VerifyChain es'"
  shows "VerifyAgainstCheckpoint ed es'
           (MakeCheckpoint (signerFromPrivate ed attacker_priv) (int (length es')) (head_hash es')) True True"
  using honest_signer.checkpoint_accepts_iff [OF honest_signerFromPrivate [OF assms(1,2)]] assms(3) by simp

theorem checkpoint_key_not_pinned_witness:
  "VerifyAgainstCheckpoint demo_ed []
     (MakeCheckpoint (signerFromPrivate demo_ed (replicate 64 (CHR ''z''))) (int (length ([] :: AuditEntry list))) (head_hash [])) True True"
  by (rule checkpoint_key_not_pinned [OF demo_key.ed25519_scheme_axioms])
     (simp_all add: PrivateKeySize_def VerifyChain_def)

text \<open>The chain alone has no length anchor (the documented limitation): every prefix of a valid
  chain is valid, down to the empty one.\<close>

theorem chain_prefix_valid:
  assumes "VerifyChain es"
  shows "VerifyChain (take n es)"
  using assms by (rule VerifyChain_prefix)

theorem chain_prefix_valid_witness: "VerifyChain (take 0 [demo_entry])"
  by (rule chain_prefix_valid [OF demo_entry_ok(1)])

text \<open>The zero-byte framing of the chain hash is ambiguous between kind and detail: moving a
  zero byte and what precedes it from the detail to the kind gives the same hash.\<close>

theorem chain_hash_framing_ambiguous:
  "ChainHash ts (k @ NUL # d1) d2 prev = ChainHash ts k (d1 @ NUL # d2) prev"
  by (simp add: ChainHash_def chain_preimage_def)

text \<open>The hand-written decimal conversion of the checkpoint payload agrees with the ordinary one
  for every \<^verbatim>\<open>int\<close> but the least, its text parses back, and it fits the 20-byte buffer.\<close>

theorem itoa_correct:
  assumes "in_int64 n" and "n \<noteq> int64_min"
  shows "itoa n = int_to_dec n \<and> atoi (itoa n) = Some n \<and> length (itoa n) \<le> 20"
proof -
  have "length (dec_digits \<bar>n\<bar>) \<le> 19"
    using assms by (intro length_dec_digits) (auto simp: in_int64_def int64_min_def int64_max_def)
  then have "length (int_to_dec n) \<le> 20"
    by (cases "n < 0") (simp_all add: int_to_dec_def)
  then show ?thesis using itoa_dec [OF assms] atoi_int_to_dec [OF assms(1)] by simp
qed

theorem itoa_correct_witness: "itoa (- 1234567) = int_to_dec (- 1234567) \<and> length (itoa (- 1234567)) \<le> 20"
proof -
  have "in_int64 (- 1234567)" "(- 1234567 :: int) \<noteq> int64_min"
    by (simp_all add: in_int64_def int64_min_def int64_max_def)
  from itoa_correct [OF this] show ?thesis by blast
qed

end
