(* ===== verification/Store.thy ===== *)
theory Store
  imports AuditChain
begin

text \<open>
  \<^verbatim>\<open>state/store.go\<close>: the interface of the durable backend.  A Go interface value is a record of
  its methods over the backend's state; a method returns its results and the state after it.
  The context argument only carries cancellation, which shows as an error result.

  The contract of a backend is the locale \<^verbatim>\<open>store\<close>, over an abstract view of its contents: a
  successful write has its effect on the view, a failed one has it or has none (a lost reply),
  reads change nothing and report the view, and a healthy backend (one whose storage raises no
  error) succeeds.  The lemmas inside it are what the callers use: a key is claimed at most
  once between releases.
\<close>

section \<open>Options and records\<close>

record storeConfig =
  cfg_checkpointSigner :: "Signer option"
  cfg_requireCheckpoint :: bool

type_synonym StoreOption = "storeConfig \<Rightarrow> storeConfig"

definition WithCheckpointSigner :: "Signer option \<Rightarrow> StoreOption" where
  "WithCheckpointSigner s = (\<lambda>c. c\<lparr>cfg_checkpointSigner := s\<rparr>)"

definition WithRequireCheckpoint :: "bool \<Rightarrow> StoreOption" where
  "WithRequireCheckpoint req = (\<lambda>c. c\<lparr>cfg_requireCheckpoint := req\<rparr>)"

definition applyStoreOptions :: "StoreOption list \<Rightarrow> storeConfig" where
  "applyStoreOptions opts = fold (\<lambda>opt c. opt c) opts \<lparr>cfg_checkpointSigner = None, cfg_requireCheckpoint = False\<rparr>"

record PendingRevert =
  pr_IntentID :: string
  pr_Kind :: string
  pr_Target :: string
  pr_ArgsJSON :: string
  pr_DueAt :: time

section \<open>The interface\<close>

record 's store_ops =
  ClaimIntent :: "string \<Rightarrow> 's \<Rightarrow> bool result \<times> 's"
  ReleaseIntent :: "string \<Rightarrow> 's \<Rightarrow> error option \<times> 's"
  AppendAudit :: "string \<Rightarrow> string \<Rightarrow> 's \<Rightarrow> AuditEntry result \<times> 's"
  Audit_entries :: "'s \<Rightarrow> AuditEntry list result \<times> 's"
  VerifyAudit :: "'s \<Rightarrow> bool \<times> 's"
  ScheduleRevert :: "PendingRevert \<Rightarrow> 's \<Rightarrow> error option \<times> 's"
  DueReverts :: "time \<Rightarrow> 's \<Rightarrow> PendingRevert list result \<times> 's"
  MarkReverted :: "string \<Rightarrow> 's \<Rightarrow> error option \<times> 's"
  RecordAction :: "string \<Rightarrow> time \<Rightarrow> 's \<Rightarrow> error option \<times> 's"
  CountActions :: "string \<Rightarrow> time \<Rightarrow> 's \<Rightarrow> int result \<times> 's"
  RecordOutstanding :: "string \<Rightarrow> PendingRevert \<Rightarrow> 's \<Rightarrow> error option \<times> 's"
  Outstanding :: "string \<Rightarrow> 's \<Rightarrow> (PendingRevert list \<times> error option) \<times> 's"
  ClearOutstanding :: "string \<Rightarrow> 's \<Rightarrow> error option \<times> 's"
  RecordUsage :: "string \<Rightarrow> string \<Rightarrow> f64 \<Rightarrow> time \<Rightarrow> 's \<Rightarrow> error option \<times> 's"
  SpendSince :: "string \<Rightarrow> time \<Rightarrow> 's \<Rightarrow> f64 result \<times> 's"
  PruneUsage :: "time \<Rightarrow> 's \<Rightarrow> error option \<times> 's"

section \<open>The abstract contents\<close>

text \<open>Both backends keep times as RFC 3339 text; what is read back is the stored time.\<close>

definition stored_time :: "time \<Rightarrow> time" where
  "stored_time t = parse_or_zero (format_rfc3339 t)"

record view =
  v_claimed :: "string set"
  v_reverts :: "string \<rightharpoonup> PendingRevert"
  v_outstanding :: "string \<Rightarrow> string \<rightharpoonup> PendingRevert"
  v_log :: "(string \<times> string) list"

definition eff_claim :: "string \<Rightarrow> view \<Rightarrow> view" where
  "eff_claim i v = v\<lparr>v_claimed := insert i (v_claimed v)\<rparr>"

definition eff_release :: "string \<Rightarrow> view \<Rightarrow> view" where
  "eff_release i v = v\<lparr>v_claimed := v_claimed v - {i}\<rparr>"

definition eff_append :: "string \<Rightarrow> string \<Rightarrow> view \<Rightarrow> view" where
  "eff_append k d v = v\<lparr>v_log := v_log v @ [(k, d)]\<rparr>"

text \<open>Scheduling an id that is already pending changes nothing.\<close>

definition eff_schedule :: "PendingRevert \<Rightarrow> view \<Rightarrow> view" where
  "eff_schedule r v =
     (case v_reverts v (pr_IntentID r) of
        Some _ \<Rightarrow> v
      | None \<Rightarrow> v\<lparr>v_reverts := (v_reverts v)(pr_IntentID r \<mapsto> r\<lparr>pr_DueAt := stored_time (pr_DueAt r)\<rparr>)\<rparr>)"

definition eff_mark :: "string \<Rightarrow> view \<Rightarrow> view" where
  "eff_mark i v = v\<lparr>v_reverts := (v_reverts v)(i := None)\<rparr>"

text \<open>The outstanding set keeps no due time.\<close>

definition eff_outstanding :: "string \<Rightarrow> PendingRevert \<Rightarrow> view \<Rightarrow> view" where
  "eff_outstanding key r v =
     v\<lparr>v_outstanding := (v_outstanding v)
        (key := (v_outstanding v key)(pr_IntentID r \<mapsto> r\<lparr>pr_DueAt := zero_time\<rparr>))\<rparr>"

definition eff_clear :: "string \<Rightarrow> view \<Rightarrow> view" where
  "eff_clear key v = v\<lparr>v_outstanding := (v_outstanding v)(key := Map.empty)\<rparr>"

lemmas eff_defs =
  eff_claim_def eff_release_def eff_append_def eff_schedule_def eff_mark_def eff_outstanding_def eff_clear_def

lemma eff_claimed [simp]:
  "v_claimed (eff_claim i v) = insert i (v_claimed v)"
  "v_claimed (eff_release i v) = v_claimed v - {i}"
  "v_claimed (eff_append k d v) = v_claimed v"
  "v_claimed (eff_schedule r v) = v_claimed v"
  "v_claimed (eff_mark i v) = v_claimed v"
  "v_claimed (eff_outstanding key r v) = v_claimed v"
  "v_claimed (eff_clear key v) = v_claimed v"
  by (simp_all add: eff_defs split: option.splits)

lemma eff_reverts [simp]:
  "v_reverts (eff_claim i v) = v_reverts v"
  "v_reverts (eff_release i v) = v_reverts v"
  "v_reverts (eff_append k d v) = v_reverts v"
  "v_reverts (eff_mark i v) = (v_reverts v)(i := None)"
  "v_reverts (eff_outstanding key r v) = v_reverts v"
  "v_reverts (eff_clear key v) = v_reverts v"
  by (simp_all add: eff_defs)

lemma eff_out [simp]:
  "v_outstanding (eff_claim i v) = v_outstanding v"
  "v_outstanding (eff_release i v) = v_outstanding v"
  "v_outstanding (eff_append k d v) = v_outstanding v"
  "v_outstanding (eff_schedule r v) = v_outstanding v"
  "v_outstanding (eff_mark i v) = v_outstanding v"
  "v_outstanding (eff_clear key v) = (v_outstanding v)(key := Map.empty)"
  by (simp_all add: eff_defs split: option.splits)

section \<open>The contract\<close>

text \<open>
  What a write and a read promise, from a state that meets the backend's own invariant, the
  results and the state after.
\<close>

definition step_ok :: "('s \<Rightarrow> bool) \<Rightarrow> ('s \<Rightarrow> bool) \<Rightarrow> 's \<Rightarrow> bool \<Rightarrow> 's \<Rightarrow> bool" where
  "step_ok sinv healthy s ok s' \<longleftrightarrow> sinv s' \<and> (healthy s \<longrightarrow> ok \<and> healthy s')"

definition write_ok ::
    "('s \<Rightarrow> view) \<Rightarrow> ('s \<Rightarrow> bool) \<Rightarrow> ('s \<Rightarrow> bool) \<Rightarrow> (view \<Rightarrow> view) \<Rightarrow> 's \<Rightarrow> error option \<times> 's \<Rightarrow> bool" where
  "write_ok vw sinv healthy eff s r \<longleftrightarrow>
     step_ok sinv healthy s (fst r = None) (snd r)
     \<and> (vw (snd r) = eff (vw s) \<or> fst r \<noteq> None \<and> vw (snd r) = vw s)"

definition read_ok ::
    "('s \<Rightarrow> view) \<Rightarrow> ('s \<Rightarrow> bool) \<Rightarrow> ('s \<Rightarrow> bool) \<Rightarrow> ('a \<Rightarrow> view \<Rightarrow> bool) \<Rightarrow> 's \<Rightarrow> 'a result \<times> 's \<Rightarrow> bool" where
  "read_ok vw sinv healthy P s r \<longleftrightarrow>
     step_ok sinv healthy s (\<not> isl (fst r)) (snd r)
     \<and> vw (snd r) = vw s \<and> (case fst r of Inl _ \<Rightarrow> True | Inr x \<Rightarrow> P x (vw s))"

text \<open>A query whose caller keeps the rows read before an error: those are some of the rows.\<close>

definition rows_ok ::
    "('s \<Rightarrow> view) \<Rightarrow> ('s \<Rightarrow> bool) \<Rightarrow> ('s \<Rightarrow> bool) \<Rightarrow> ('a list \<Rightarrow> view \<Rightarrow> bool) \<Rightarrow> 's \<Rightarrow> ('a list \<times> error option) \<times> 's \<Rightarrow> bool" where
  "rows_ok vw sinv healthy P s r \<longleftrightarrow>
     step_ok sinv healthy s (snd (fst r) = None) (snd r)
     \<and> vw (snd r) = vw s \<and> (\<exists>rest. P (fst (fst r) @ rest) (vw s) \<and> (snd (fst r) = None \<longrightarrow> rest = []))"

definition claim_ok :: "('s \<Rightarrow> view) \<Rightarrow> ('s \<Rightarrow> bool) \<Rightarrow> ('s \<Rightarrow> bool) \<Rightarrow> string \<Rightarrow> 's \<Rightarrow> bool result \<times> 's \<Rightarrow> bool" where
  "claim_ok vw sinv healthy i s r \<longleftrightarrow>
     step_ok sinv healthy s (\<not> isl (fst r)) (snd r)
     \<and> (case fst r of
          Inr True \<Rightarrow> i \<notin> v_claimed (vw s) \<and> vw (snd r) = eff_claim i (vw s)
        | Inr False \<Rightarrow> i \<in> v_claimed (vw s) \<and> vw (snd r) = vw s
        | Inl _ \<Rightarrow> vw (snd r) = vw s \<or> vw (snd r) = eff_claim i (vw s))"

definition append_ok ::
    "('s \<Rightarrow> view) \<Rightarrow> ('s \<Rightarrow> bool) \<Rightarrow> ('s \<Rightarrow> bool) \<Rightarrow> string \<Rightarrow> string \<Rightarrow> 's \<Rightarrow> AuditEntry result \<times> 's \<Rightarrow> bool" where
  "append_ok vw sinv healthy k d s r \<longleftrightarrow>
     step_ok sinv healthy s (\<not> isl (fst r)) (snd r)
     \<and> (case fst r of
          Inr e \<Rightarrow> ae_Kind e = k \<and> ae_Detail e = d \<and> vw (snd r) = eff_append k d (vw s)
        | Inl _ \<Rightarrow> vw (snd r) = vw s \<or> vw (snd r) = eff_append k d (vw s))"

text \<open>A due query reports every pending revert whose time has come, once, and no other.\<close>

definition due_spec :: "time \<Rightarrow> PendingRevert list \<Rightarrow> view \<Rightarrow> bool" where
  "due_spec now rs v \<longleftrightarrow>
     distinct (map pr_IntentID rs) \<and> set rs = {r. v_reverts v (pr_IntentID r) = Some r \<and> pr_DueAt r \<le> now}"

definition outstanding_spec :: "string \<Rightarrow> PendingRevert list \<Rightarrow> view \<Rightarrow> bool" where
  "outstanding_spec key rs v \<longleftrightarrow>
     distinct (map pr_IntentID rs) \<and> set rs = {r. v_outstanding v key (pr_IntentID r) = Some r}"

locale store =
  fixes ops :: "'s store_ops" and vw :: "'s \<Rightarrow> view" and sinv :: "'s \<Rightarrow> bool" and healthy :: "'s \<Rightarrow> bool"
  assumes claim_law: "sinv s \<Longrightarrow> claim_ok vw sinv healthy i s (ClaimIntent ops i s)"
    and release_law: "sinv s \<Longrightarrow> write_ok vw sinv healthy (eff_release i) s (ReleaseIntent ops i s)"
    and append_law: "sinv s \<Longrightarrow> append_ok vw sinv healthy k d s (AppendAudit ops k d s)"
    and audit_law: "sinv s \<Longrightarrow> read_ok vw sinv healthy (\<lambda>es v. True) s (Audit_entries ops s)"
    and verify_law: "sinv s \<Longrightarrow> vw (snd (VerifyAudit ops s)) = vw s \<and> step_ok sinv healthy s True (snd (VerifyAudit ops s))"
    and schedule_law: "sinv s \<Longrightarrow> write_ok vw sinv healthy (eff_schedule r) s (ScheduleRevert ops r s)"
    and due_law: "sinv s \<Longrightarrow> read_ok vw sinv healthy (due_spec now) s (DueReverts ops now s)"
    and mark_law: "sinv s \<Longrightarrow> write_ok vw sinv healthy (eff_mark i) s (MarkReverted ops i s)"
    and record_action_law: "sinv s \<Longrightarrow> write_ok vw sinv healthy (\<lambda>v. v) s (RecordAction ops sha t s)"
    and count_law: "sinv s \<Longrightarrow> read_ok vw sinv healthy (\<lambda>n v. True) s (CountActions ops sha since s)"
    and record_outstanding_law:
      "sinv s \<Longrightarrow> write_ok vw sinv healthy (eff_outstanding key r) s (RecordOutstanding ops key r s)"
    and outstanding_law: "sinv s \<Longrightarrow> rows_ok vw sinv healthy (outstanding_spec key) s (Outstanding ops key s)"
    and clear_law: "sinv s \<Longrightarrow> write_ok vw sinv healthy (eff_clear key) s (ClearOutstanding ops key s)"
    and usage_law: "sinv s \<Longrightarrow> write_ok vw sinv healthy (\<lambda>v. v) s (RecordUsage ops tenant model cost t s)"
    and spend_law: "sinv s \<Longrightarrow> read_ok vw sinv healthy (\<lambda>x v. True) s (SpendSince ops tenant since s)"
    and prune_law: "sinv s \<Longrightarrow> write_ok vw sinv healthy (\<lambda>v. v) s (PruneUsage ops before s)"

section \<open>Sequences of calls\<close>

text \<open>
  The calls of all clients, replicas included, in the order the backend serialises them.
  Only the result of a claim matters here.
\<close>

datatype store_call =
    Claim string
  | Release string
  | Append string string
  | Entries
  | Verify
  | Schedule PendingRevert
  | Due time
  | Mark string
  | Record_Action string time
  | Count string time
  | Record_Outstanding string PendingRevert
  | Get_Outstanding string
  | Clear string
  | Usage string string f64 time
  | Spend string time
  | Prune time

fun invoke :: "'s store_ops \<Rightarrow> store_call \<Rightarrow> 's \<Rightarrow> bool \<times> 's" where
  "invoke ops (Claim i) s = (let r = ClaimIntent ops i s in (fst r = Inr True, snd r))"
| "invoke ops (Release i) s = (False, snd (ReleaseIntent ops i s))"
| "invoke ops (Append k d) s = (False, snd (AppendAudit ops k d s))"
| "invoke ops Entries s = (False, snd (Audit_entries ops s))"
| "invoke ops Verify s = (False, snd (VerifyAudit ops s))"
| "invoke ops (Schedule r) s = (False, snd (ScheduleRevert ops r s))"
| "invoke ops (Due t) s = (False, snd (DueReverts ops t s))"
| "invoke ops (Mark i) s = (False, snd (MarkReverted ops i s))"
| "invoke ops (Record_Action sha t) s = (False, snd (RecordAction ops sha t s))"
| "invoke ops (Count sha t) s = (False, snd (CountActions ops sha t s))"
| "invoke ops (Record_Outstanding k r) s = (False, snd (RecordOutstanding ops k r s))"
| "invoke ops (Get_Outstanding k) s = (False, snd (Outstanding ops k s))"
| "invoke ops (Clear k) s = (False, snd (ClearOutstanding ops k s))"
| "invoke ops (Usage t m c a) s = (False, snd (RecordUsage ops t m c a s))"
| "invoke ops (Spend t a) s = (False, snd (SpendSince ops t a s))"
| "invoke ops (Prune t) s = (False, snd (PruneUsage ops t s))"

fun claim_wins :: "'s store_ops \<Rightarrow> string \<Rightarrow> store_call list \<Rightarrow> 's \<Rightarrow> nat" where
  "claim_wins ops i [] s = 0"
| "claim_wins ops i (c # cs) s =
     (let (won, s') = invoke ops c s
      in (if c = Claim i \<and> won then 1 else 0) + claim_wins ops i cs s')"

fun run_calls :: "'s store_ops \<Rightarrow> store_call list \<Rightarrow> 's \<Rightarrow> 's" where
  "run_calls ops [] s = s"
| "run_calls ops (c # cs) s = run_calls ops cs (snd (invoke ops c s))"

text \<open>The effect each call has on the view when it has one.\<close>

fun call_effect :: "store_call \<Rightarrow> view \<Rightarrow> view" where
  "call_effect (Claim i) = eff_claim i"
| "call_effect (Release i) = eff_release i"
| "call_effect (Append k d) = eff_append k d"
| "call_effect (Schedule r) = eff_schedule r"
| "call_effect (Mark i) = eff_mark i"
| "call_effect (Record_Outstanding key r) = eff_outstanding key r"
| "call_effect (Clear key) = eff_clear key"
| "call_effect _ = (\<lambda>v. v)"

lemma call_effect_claimed:
  "v_claimed (call_effect c v) =
     (case c of Claim i \<Rightarrow> insert i (v_claimed v) | Release i \<Rightarrow> v_claimed v - {i} | _ \<Rightarrow> v_claimed v)"
  by (cases c) simp_all

lemma step_okD: "step_ok sinv healthy s ok s' \<Longrightarrow> sinv s'" "step_ok sinv healthy s ok s' \<Longrightarrow> healthy s \<Longrightarrow> ok \<and> healthy s'"
  by (simp_all add: step_ok_def)

lemma write_okD:
  "write_ok vw sinv healthy eff s r \<Longrightarrow> vw (snd r) = vw s \<or> vw (snd r) = eff (vw s)"
  "write_ok vw sinv healthy eff s r \<Longrightarrow> step_ok sinv healthy s True (snd r)"
  "write_ok vw sinv healthy eff s (None, s') \<Longrightarrow> vw s' = eff (vw s)"
  by (auto simp: write_ok_def step_ok_def)

lemma read_okD:
  "read_ok vw sinv healthy P s r \<Longrightarrow> vw (snd r) = vw s"
  "read_ok vw sinv healthy P s r \<Longrightarrow> step_ok sinv healthy s True (snd r)"
  "read_ok vw sinv healthy P s (Inr x, s') \<Longrightarrow> P x (vw s)"
  by (auto simp: read_ok_def step_ok_def)

lemma rows_okD:
  "rows_ok vw sinv healthy P s r \<Longrightarrow> vw (snd r) = vw s"
  "rows_ok vw sinv healthy P s r \<Longrightarrow> step_ok sinv healthy s True (snd r)"
  "rows_ok vw sinv healthy P s ((rs, None), s') \<Longrightarrow> P rs (vw s)"
  by (auto simp: rows_ok_def step_ok_def)

lemma claim_okD:
  "claim_ok vw sinv healthy i s r \<Longrightarrow> vw (snd r) = vw s \<or> vw (snd r) = eff_claim i (vw s)"
  "claim_ok vw sinv healthy i s r \<Longrightarrow> step_ok sinv healthy s True (snd r)"
  by (auto simp: claim_ok_def step_ok_def split: sum.splits bool.splits)

lemma append_okD:
  "append_ok vw sinv healthy k d s r \<Longrightarrow> vw (snd r) = vw s \<or> vw (snd r) = eff_append k d (vw s)"
  "append_ok vw sinv healthy k d s r \<Longrightarrow> step_ok sinv healthy s True (snd r)"
  by (auto simp: append_ok_def step_ok_def split: sum.splits)

context store
begin

lemmas writes =
  release_law schedule_law mark_law record_action_law record_outstanding_law clear_law usage_law prune_law
lemmas reads = audit_law due_law count_law spend_law

lemma invoke_step:
  assumes "sinv s"
  shows "step_ok sinv healthy s True (snd (invoke ops c s))"
  using assms
  apply (cases c)
  apply (simp_all only: invoke.simps Let_def snd_conv)
  subgoal by (rule claim_law [THEN claim_okD(2)])
  subgoal by (rule release_law [THEN write_okD(2)])
  subgoal by (rule append_law [THEN append_okD(2)])
  subgoal by (rule audit_law [THEN read_okD(2)])
  subgoal by (rule verify_law [THEN conjunct2])
  subgoal by (rule schedule_law [THEN write_okD(2)])
  subgoal by (rule due_law [THEN read_okD(2)])
  subgoal by (rule mark_law [THEN write_okD(2)])
  subgoal by (rule record_action_law [THEN write_okD(2)])
  subgoal by (rule count_law [THEN read_okD(2)])
  subgoal by (rule record_outstanding_law [THEN write_okD(2)])
  subgoal by (rule outstanding_law [THEN rows_okD(2)])
  subgoal by (rule clear_law [THEN write_okD(2)])
  subgoal by (rule usage_law [THEN write_okD(2)])
  subgoal by (rule spend_law [THEN read_okD(2)])
  subgoal by (rule prune_law [THEN write_okD(2)])
  done

lemma invoke_inv: "sinv s \<Longrightarrow> sinv (snd (invoke ops c s))"
  using invoke_step by (rule step_okD(1))

lemma invoke_healthy: "sinv s \<Longrightarrow> healthy s \<Longrightarrow> healthy (snd (invoke ops c s))"
  using step_okD(2) [OF invoke_step, of s] by simp

lemma invoke_view:
  assumes "sinv s"
  shows "vw (snd (invoke ops c s)) = vw s \<or> vw (snd (invoke ops c s)) = call_effect c (vw s)"
proof (cases c)
  case (Claim i)
  then show ?thesis using claim_okD(1) [OF claim_law [OF assms]] by (simp add: Let_def)
next
  case (Append k d)
  then show ?thesis using append_okD(1) [OF append_law [OF assms]] by simp
next
  case (Release i)
  then show ?thesis using write_okD(1) [OF release_law [OF assms]] by simp
next
  case (Schedule r)
  then show ?thesis using write_okD(1) [OF schedule_law [OF assms]] by simp
next
  case (Mark i)
  then show ?thesis using write_okD(1) [OF mark_law [OF assms]] by simp
next
  case (Record_Outstanding key r)
  then show ?thesis using write_okD(1) [OF record_outstanding_law [OF assms]] by simp
next
  case (Clear key)
  then show ?thesis using write_okD(1) [OF clear_law [OF assms]] by simp
next
  case (Record_Action sha t)
  then show ?thesis using write_okD(1) [OF record_action_law [OF assms]] by simp
next
  case (Usage tenant m c t)
  then show ?thesis using write_okD(1) [OF usage_law [OF assms]] by simp
next
  case (Prune t)
  then show ?thesis using write_okD(1) [OF prune_law [OF assms]] by simp
qed (simp_all add: assms verify_law reads [THEN read_okD(1)] outstanding_law [THEN rows_okD(1)])

lemma run_calls_inv: "sinv s \<Longrightarrow> sinv (run_calls ops cs s)"
  by (induction cs arbitrary: s) (simp_all add: invoke_inv)

lemma invoke_claimed:
  "sinv s \<Longrightarrow> v_claimed (vw (snd (invoke ops c s))) = v_claimed (vw s) \<or>
   v_claimed (vw (snd (invoke ops c s))) = v_claimed (call_effect c (vw s))"
  using invoke_view [of s c] by auto

lemma invoke_keeps_claims:
  "sinv s \<Longrightarrow> c \<noteq> Release i \<Longrightarrow> i \<in> v_claimed (vw s) \<Longrightarrow> i \<in> v_claimed (vw (snd (invoke ops c s)))"
  using invoke_claimed [of s c] by (auto simp: call_effect_claimed split: store_call.splits)

lemma invoke_keeps_free:
  "sinv s \<Longrightarrow> c \<noteq> Claim i \<Longrightarrow> i \<notin> v_claimed (vw s) \<Longrightarrow> i \<notin> v_claimed (vw (snd (invoke ops c s)))"
  using invoke_claimed [of s c] by (auto simp: call_effect_claimed split: store_call.splits)

lemma invoke_claim_wins:
  assumes "sinv s" and "fst (invoke ops (Claim i) s)"
  shows "i \<notin> v_claimed (vw s)" "i \<in> v_claimed (vw (snd (invoke ops (Claim i) s)))"
  using assms claim_law [of s i] by (auto simp: claim_ok_def Let_def)

lemma claim_wins_Cons:
  "claim_wins ops i (c # cs) s =
     (if c = Claim i \<and> fst (invoke ops c s) then 1 else 0) + claim_wins ops i cs (snd (invoke ops c s))"
  by (simp add: case_prod_beta)

declare invoke.simps [simp del] claim_wins.simps(2) [simp del]

lemma no_win_when_claimed:
  "sinv s \<Longrightarrow> i \<in> v_claimed (vw s) \<Longrightarrow> Release i \<notin> set cs \<Longrightarrow> claim_wins ops i cs s = 0"
proof (induction cs arbitrary: s)
  case (Cons c cs)
  have "\<not> (c = Claim i \<and> fst (invoke ops c s))" using invoke_claim_wins(1) Cons.prems(1,2) by blast
  moreover have "i \<in> v_claimed (vw (snd (invoke ops c s)))"
    using Cons.prems by (intro invoke_keeps_claims) auto
  ultimately show ?case using Cons.IH Cons.prems(1,3) invoke_inv by (simp add: claim_wins_Cons)
qed simp

lemma wins_at_most_once: "sinv s \<Longrightarrow> Release i \<notin> set cs \<Longrightarrow> claim_wins ops i cs s \<le> 1"
proof (induction cs arbitrary: s)
  case (Cons c cs)
  note iv = invoke_inv [OF Cons.prems(1), of c]
  show ?case
  proof (cases "c = Claim i \<and> fst (invoke ops c s)")
    case True
    then have "i \<in> v_claimed (vw (snd (invoke ops c s)))" using invoke_claim_wins(2) Cons.prems(1) by blast
    with True Cons.prems(2) no_win_when_claimed [OF iv, of i cs] show ?thesis by (simp add: claim_wins_Cons)
  next
    case False
    with Cons.IH [OF iv] Cons.prems(2) show ?thesis by (auto simp: claim_wins_Cons)
  qed
qed simp

text \<open>On a healthy backend a free key that somebody claims is won by somebody.\<close>

lemma wins_once_when_healthy:
  "sinv s \<Longrightarrow> healthy s \<Longrightarrow> i \<notin> v_claimed (vw s) \<Longrightarrow> Release i \<notin> set cs \<Longrightarrow> Claim i \<in> set cs \<Longrightarrow>
   claim_wins ops i cs s = 1"
proof (induction cs arbitrary: s)
  case (Cons c cs)
  note iv = invoke_inv [OF Cons.prems(1), of c]
  show ?case
  proof (cases "c = Claim i")
    case True
    have won: "fst (invoke ops c s)"
      using claim_law [of s i] Cons.prems(1-3) True
      by (cases "fst (ClaimIntent ops i s)") (auto simp: invoke.simps claim_ok_def step_ok_def Let_def split: bool.splits)
    with True have "i \<in> v_claimed (vw (snd (invoke ops c s)))" using invoke_claim_wins(2) Cons.prems(1) by blast
    with won True Cons.prems(4) no_win_when_claimed [OF iv, of i cs] show ?thesis
      by (simp add: claim_wins_Cons)
  next
    case False
    have "healthy (snd (invoke ops c s))" using Cons.prems(1,2) by (rule invoke_healthy)
    moreover have "i \<notin> v_claimed (vw (snd (invoke ops c s)))"
      using Cons.prems(1) False Cons.prems(3) by (rule invoke_keeps_free)
    ultimately show ?thesis using iv False Cons.IH Cons.prems(4,5) by (simp add: claim_wins_Cons)
  qed
qed simp

text \<open>On a healthy backend every call has exactly its effect, so a history of calls computes on
  the view like the history of their effects.\<close>

lemma eff_claim_absorb: "i \<in> v_claimed v \<Longrightarrow> eff_claim i v = v"
  by (simp add: eff_claim_def insert_absorb)

lemma claim_healthy:
  assumes "sinv s" "healthy s"
  shows "vw (snd (ClaimIntent ops i s)) = eff_claim i (vw s)"
  using claim_law [OF assms(1), of i] assms(2)
  by (cases "fst (ClaimIntent ops i s)") (auto simp: claim_ok_def step_ok_def eff_claim_absorb split: bool.splits)

lemma append_healthy:
  assumes "sinv s" "healthy s"
  shows "vw (snd (AppendAudit ops k d s)) = eff_append k d (vw s)"
  using append_law [OF assms(1), of k d] assms(2)
  by (cases "fst (AppendAudit ops k d s)") (auto simp: append_ok_def step_ok_def)

lemma write_healthy:
  "write_ok vw sinv healthy eff s r \<Longrightarrow> healthy s \<Longrightarrow> vw (snd r) = eff (vw s)"
  by (auto simp: write_ok_def step_ok_def)

lemma invoke_view_healthy:
  assumes "sinv s" "healthy s"
  shows "vw (snd (invoke ops c s)) = call_effect c (vw s)"
proof (cases c)
  case (Release i)
  then show ?thesis using write_healthy [OF release_law [OF assms(1)] assms(2)] by (simp add: invoke.simps)
next
  case (Schedule r)
  then show ?thesis using write_healthy [OF schedule_law [OF assms(1)] assms(2)] by (simp add: invoke.simps)
next
  case (Mark i)
  then show ?thesis using write_healthy [OF mark_law [OF assms(1)] assms(2)] by (simp add: invoke.simps)
next
  case (Record_Outstanding key r)
  then show ?thesis using write_healthy [OF record_outstanding_law [OF assms(1)] assms(2)] by (simp add: invoke.simps)
next
  case (Clear key)
  then show ?thesis using write_healthy [OF clear_law [OF assms(1)] assms(2)] by (simp add: invoke.simps)
qed (use invoke_view [OF assms(1), of c] in \<open>simp_all add: invoke.simps Let_def claim_healthy [OF assms] append_healthy [OF assms]\<close>)

lemma run_calls_view:
  "sinv s \<Longrightarrow> healthy s \<Longrightarrow> vw (run_calls ops cs s) = fold call_effect cs (vw s)"
  by (induction cs arbitrary: s) (simp_all add: invoke_inv invoke_healthy invoke_view_healthy)

end

end
