(* ===== verification/Sqlite.thy ===== *)
theory Sqlite
  imports Store
begin

text \<open>
  \<^verbatim>\<open>state/sqlite.go\<close>: the SQLite backend.  The state is the tables of the schema; every SQL
  statement of the source is translated into its effect on them (a primary-key conflict, an
  upsert, \<^verbatim>\<open>INSERT OR IGNORE\<close>, \<^verbatim>\<open>ORDER BY\<close>, text comparison byte by byte).  One connection
  serialises the statements.

  The environment is part of the state: the tick that numbers the statements, the schedule of
  driver failures (a failing statement may or may not have had its effect), the clock, and
  SQLite's floating-point \<^verbatim>\<open>SUM\<close>, whose rounding is the library's own.
\<close>

section \<open>Tables\<close>

record audit_row =
  ar_seq :: int
  ar_ts :: string
  ar_kind :: string
  ar_detail :: string
  ar_prev_hash :: string
  ar_hash :: string

record revert_row =
  rv_intent_id :: string
  rv_kind :: string
  rv_target :: string
  rv_args :: string
  rv_due_at :: string

record onclear_row =
  oc_key :: string
  oc_intent_id :: string
  oc_kind :: string
  oc_target :: string
  oc_args :: string

record usage_row =
  us_tenant :: string
  us_model :: string
  us_cost :: f64
  us_ts :: string

record sqlite_db =
  applied_intents :: "string list"
  audit :: "audit_row list"
  audit_sequence :: int
  audit_checkpoint :: "Checkpoint option"
  pending_reverts :: "revert_row list"
  rule_actions :: "(string \<times> string) list"
  onclear :: "onclear_row list"
  usage :: "usage_row list"

definition empty_db :: sqlite_db where
  "empty_db =
     \<lparr>applied_intents = [], audit = [], audit_sequence = 0, audit_checkpoint = None, pending_reverts = [],
      rule_actions = [], onclear = [], usage = []\<rparr>"

datatype fault = FailBefore error | FailAfter error

fun fault_error :: "fault \<Rightarrow> error" where
  "fault_error (FailBefore e) = e"
| "fault_error (FailAfter e) = e"

record sqliteStore =
  st_db :: sqlite_db
  st_signer :: "Signer option"
  st_require :: bool
  st_tick :: nat
  st_fault :: "nat \<Rightarrow> fault option"
  st_clock :: "nat \<Rightarrow> time"
  st_sum :: "f64 list \<Rightarrow> f64"
  st_rows :: "nat \<Rightarrow> nat"

section \<open>Statements\<close>

definition next_tick :: "sqliteStore \<Rightarrow> sqliteStore" where
  "next_tick s = s\<lparr>st_tick := Suc (st_tick s)\<rparr>"

definition fault_now :: "sqliteStore \<Rightarrow> fault option" where
  "fault_now s = st_fault s (st_tick s)"

definition set_db :: "sqlite_db \<Rightarrow> sqliteStore \<Rightarrow> sqliteStore" where
  "set_db db s = s\<lparr>st_db := db\<rparr>"

text \<open>One writing statement outside a transaction, and one query.\<close>

definition exec :: "(sqlite_db \<Rightarrow> sqlite_db) \<Rightarrow> sqliteStore \<Rightarrow> error option \<times> sqliteStore" where
  "exec f s =
     (case fault_now s of
        None \<Rightarrow> (None, next_tick (set_db (f (st_db s)) s))
      | Some (FailBefore e) \<Rightarrow> (Some e, next_tick s)
      | Some (FailAfter e) \<Rightarrow> (Some e, next_tick (set_db (f (st_db s)) s)))"

definition query :: "(sqlite_db \<Rightarrow> 'a) \<Rightarrow> sqliteStore \<Rightarrow> 'a result \<times> sqliteStore" where
  "query f s =
     (case fault_now s of
        None \<Rightarrow> (Inr (f (st_db s)), next_tick s)
      | Some e \<Rightarrow> (Inl (fault_error e), next_tick s))"

text \<open>A query of many rows: it can fail when it starts and, by \<^verbatim>\<open>rows.Err\<close>, when it ends.\<close>

definition query_rows :: "(sqlite_db \<Rightarrow> 'a) \<Rightarrow> sqliteStore \<Rightarrow> 'a result \<times> sqliteStore" where
  "query_rows f s =
     (case query f s of
        (Inl e, s1) \<Rightarrow> (Inl e, s1)
      | (Inr x, s1) \<Rightarrow> (case query (\<lambda>_. ()) s1 of (Inl e, s2) \<Rightarrow> (Inl e, s2) | (Inr _, s2) \<Rightarrow> (Inr x, s2)))"

text \<open>The same where the caller also gets the rows read before the iteration broke off.\<close>

definition query_partial :: "(sqlite_db \<Rightarrow> 'a list) \<Rightarrow> sqliteStore \<Rightarrow> ('a list \<times> error option) \<times> sqliteStore" where
  "query_partial f s =
     (case query f s of
        (Inl e, s1) \<Rightarrow> (([], Some e), s1)
      | (Inr rows, s1) \<Rightarrow>
          (case query (\<lambda>_. ()) s1 of
             (Inl e, s2) \<Rightarrow> ((take (st_rows s1 (st_tick s1)) rows, Some e), s2)
           | (Inr _, s2) \<Rightarrow> ((rows, None), s2)))"

section \<open>Opening\<close>

text \<open>The schema only creates what is missing, so an existing database keeps its rows.\<close>

definition OpenSQLite ::
    "sqlite_db \<Rightarrow> (nat \<Rightarrow> fault option) \<Rightarrow> (nat \<Rightarrow> time) \<Rightarrow> (f64 list \<Rightarrow> f64) \<Rightarrow> (nat \<Rightarrow> nat) \<Rightarrow> StoreOption list
     \<Rightarrow> error + sqliteStore" where
  "OpenSQLite db faults clock summation rows opts =
     (let cfg = applyStoreOptions opts;
          s = \<lparr>st_db = db, st_signer = cfg_checkpointSigner cfg, st_require = cfg_requireCheckpoint cfg,
               st_tick = 0, st_fault = faults, st_clock = clock, st_sum = summation, st_rows = rows\<rparr>
      in case exec (\<lambda>d. d) s of
           (Some e, _) \<Rightarrow> Inl e
         | (None, s1) \<Rightarrow> (case exec (\<lambda>d. d) s1 of (Some e, _) \<Rightarrow> Inl e | (None, s2) \<Rightarrow> Inr s2))"

section \<open>Idempotency keys\<close>

text \<open>\<^verbatim>\<open>INSERT\<close> with a primary key: a duplicate is the driver's constraint error, not an I/O error.\<close>

definition sqlite_ClaimIntent :: "string \<Rightarrow> sqliteStore \<Rightarrow> bool result \<times> sqliteStore" where
  "sqlite_ClaimIntent i s =
     (case exec (\<lambda>db. if i \<in> set (applied_intents db) then db
                      else db\<lparr>applied_intents := applied_intents db @ [i]\<rparr>) s of
        (Some e, s') \<Rightarrow> (Inl e, s')
      | (None, s') \<Rightarrow> (Inr (i \<notin> set (applied_intents (st_db s))), s'))"

definition sqlite_ReleaseIntent :: "string \<Rightarrow> sqliteStore \<Rightarrow> error option \<times> sqliteStore" where
  "sqlite_ReleaseIntent i = exec (\<lambda>db. db\<lparr>applied_intents := filter (\<lambda>x. x \<noteq> i) (applied_intents db)\<rparr>)"

section \<open>The audit log\<close>

definition audit_in_order :: "sqlite_db \<Rightarrow> audit_row list" where
  "audit_in_order db = sort_key ar_seq (audit db)"

definition last_hash :: "sqlite_db \<Rightarrow> string option" where
  "last_hash db = (if audit db = [] then None else Some (ar_hash (last (audit_in_order db))))"

text \<open>\<^verbatim>\<open>AUTOINCREMENT\<close>: the sequence number is one more than the largest ever given.\<close>

definition insert_audit :: "string \<Rightarrow> string \<Rightarrow> string \<Rightarrow> string \<Rightarrow> string \<Rightarrow> sqlite_db \<Rightarrow> sqlite_db" where
  "insert_audit ts kind detail prev h db =
     db\<lparr>audit := audit db @ [\<lparr>ar_seq = audit_sequence db + 1, ar_ts = ts, ar_kind = kind, ar_detail = detail,
                             ar_prev_hash = prev, ar_hash = h\<rparr>],
        audit_sequence := audit_sequence db + 1\<rparr>"

text \<open>A statement inside the transaction: it fails or is due to take effect at the commit.\<close>

definition in_tx :: "sqliteStore \<Rightarrow> error option \<times> sqliteStore" where
  "in_tx s = (case fault_now s of None \<Rightarrow> (None, next_tick s) | Some f \<Rightarrow> (Some (fault_error f), next_tick s))"

text \<open>
  \<^verbatim>\<open>AppendAudit\<close>.  The error of the query for the previous hash is discarded, and the previous
  hash is then the empty string.  A failed commit may have committed.
\<close>

definition commit_tx :: "sqlite_db \<Rightarrow> AuditEntry \<Rightarrow> sqliteStore \<Rightarrow> AuditEntry result \<times> sqliteStore" where
  "commit_tx db entry s =
     (case exec (\<lambda>_. db) s of (Some e, s') \<Rightarrow> (Inl e, s') | (None, s') \<Rightarrow> (Inr entry, s'))"

definition checkpoint_tx :: "sqlite_db \<Rightarrow> string \<Rightarrow> AuditEntry \<Rightarrow> sqliteStore \<Rightarrow> AuditEntry result \<times> sqliteStore" where
  "checkpoint_tx db h entry s =
     (case st_signer s of
        None \<Rightarrow> commit_tx db entry s
      | Some signer \<Rightarrow>
          (case in_tx s of
             (Some e, s1) \<Rightarrow> (Inl e, s1)
           | (None, s1) \<Rightarrow>
               (let cp = MakeCheckpoint signer (int (length (audit db))) h
                in case in_tx s1 of
                     (Some e, s2) \<Rightarrow> (Inl e, s2)
                   | (None, s2) \<Rightarrow> commit_tx (db\<lparr>audit_checkpoint := Some cp\<rparr>) entry s2)))"

definition sqlite_AppendAudit :: "string \<Rightarrow> string \<Rightarrow> sqliteStore \<Rightarrow> AuditEntry result \<times> sqliteStore" where
  "sqlite_AppendAudit kind detail s =
     (case in_tx s of
        (Some e, s1) \<Rightarrow> (Inl e, s1)
      | (None, s1) \<Rightarrow>
          (let (q, s2) = query last_hash s1;
               prev = (case q of Inl _ \<Rightarrow> [] | Inr None \<Rightarrow> [] | Inr (Some p) \<Rightarrow> p);
               ts = format_rfc3339 (st_clock s2 (st_tick s2));
               h = ChainHash ts kind detail prev
           in case in_tx s2 of
                (Some e, s3) \<Rightarrow> (Inl e, s3)
              | (None, s3) \<Rightarrow>
                  (let db = insert_audit ts kind detail prev h (st_db s3);
                       entry = \<lparr>ae_Seq = audit_sequence db, ae_TS = parse_or_zero ts, ae_Kind = kind,
                                ae_Detail = detail, ae_PrevHash = prev, ae_Hash = h\<rparr>
                   in checkpoint_tx db h entry s3)))"

definition row_entry :: "audit_row \<Rightarrow> AuditEntry" where
  "row_entry r =
     \<lparr>ae_Seq = ar_seq r, ae_TS = parse_or_zero (ar_ts r), ae_Kind = ar_kind r, ae_Detail = ar_detail r,
      ae_PrevHash = ar_prev_hash r, ae_Hash = ar_hash r\<rparr>"

definition sqlite_Audit :: "sqliteStore \<Rightarrow> AuditEntry list result \<times> sqliteStore" where
  "sqlite_Audit = query_rows (\<lambda>db. map row_entry (audit_in_order db))"

definition loadCheckpoint :: "sqliteStore \<Rightarrow> (Checkpoint \<times> bool) result \<times> sqliteStore" where
  "loadCheckpoint =
     query (\<lambda>db. case audit_checkpoint db of None \<Rightarrow> (zero_checkpoint, False) | Some cp \<Rightarrow> (cp, True))"

definition sqlite_VerifyAudit :: "ed25519 \<Rightarrow> sqliteStore \<Rightarrow> bool \<times> sqliteStore" where
  "sqlite_VerifyAudit ed s =
     (case sqlite_Audit s of
        (Inl _, s1) \<Rightarrow> (False, s1)
      | (Inr es, s1) \<Rightarrow>
          (case loadCheckpoint s1 of
             (Inl _, s2) \<Rightarrow> (False, s2)
           | (Inr (cp, found), s2) \<Rightarrow>
               (VerifyAgainstCheckpoint ed es cp found (st_signer s2 \<noteq> None \<or> st_require s2), s2)))"

section \<open>Pending reverts\<close>

definition insert_revert :: "PendingRevert \<Rightarrow> sqlite_db \<Rightarrow> sqlite_db" where
  "insert_revert r db =
     (if pr_IntentID r \<in> rv_intent_id ` set (pending_reverts db) then db
      else db\<lparr>pending_reverts := pending_reverts db @
             [\<lparr>rv_intent_id = pr_IntentID r, rv_kind = pr_Kind r, rv_target = pr_Target r, rv_args = pr_ArgsJSON r,
               rv_due_at = format_rfc3339 (pr_DueAt r)\<rparr>]\<rparr>)"

definition sqlite_ScheduleRevert :: "PendingRevert \<Rightarrow> sqliteStore \<Rightarrow> error option \<times> sqliteStore" where
  "sqlite_ScheduleRevert r = exec (insert_revert r)"

definition row_revert :: "revert_row \<Rightarrow> PendingRevert" where
  "row_revert r =
     \<lparr>pr_IntentID = rv_intent_id r, pr_Kind = rv_kind r, pr_Target = rv_target r, pr_ArgsJSON = rv_args r,
      pr_DueAt = parse_or_zero (rv_due_at r)\<rparr>"

definition sqlite_DueReverts :: "time \<Rightarrow> sqliteStore \<Rightarrow> PendingRevert list result \<times> sqliteStore" where
  "sqlite_DueReverts now =
     query_rows (\<lambda>db. filter (\<lambda>r. \<not> pr_DueAt r > now) (map row_revert (sort_key rv_due_at (pending_reverts db))))"

definition sqlite_MarkReverted :: "string \<Rightarrow> sqliteStore \<Rightarrow> error option \<times> sqliteStore" where
  "sqlite_MarkReverted i = exec (\<lambda>db. db\<lparr>pending_reverts := filter (\<lambda>r. rv_intent_id r \<noteq> i) (pending_reverts db)\<rparr>)"

section \<open>Rule firings\<close>

definition sqlite_RecordAction :: "string \<Rightarrow> time \<Rightarrow> sqliteStore \<Rightarrow> error option \<times> sqliteStore" where
  "sqlite_RecordAction sha t = exec (\<lambda>db. db\<lparr>rule_actions := rule_actions db @ [(sha, format_rfc3339 t)]\<rparr>)"

definition sqlite_CountActions :: "string \<Rightarrow> time \<Rightarrow> sqliteStore \<Rightarrow> int result \<times> sqliteStore" where
  "sqlite_CountActions sha since =
     query (\<lambda>db. int (length (filter (\<lambda>(k, ts). k = sha \<and> ts \<ge> format_rfc3339 since) (rule_actions db))))"

section \<open>Outstanding intents of on-clear rules\<close>

definition replace_onclear :: "string \<Rightarrow> PendingRevert \<Rightarrow> sqlite_db \<Rightarrow> sqlite_db" where
  "replace_onclear key r db =
     db\<lparr>onclear := filter (\<lambda>x. \<not> (oc_key x = key \<and> oc_intent_id x = pr_IntentID r)) (onclear db) @
        [\<lparr>oc_key = key, oc_intent_id = pr_IntentID r, oc_kind = pr_Kind r, oc_target = pr_Target r,
          oc_args = pr_ArgsJSON r\<rparr>]\<rparr>"

definition sqlite_RecordOutstanding :: "string \<Rightarrow> PendingRevert \<Rightarrow> sqliteStore \<Rightarrow> error option \<times> sqliteStore" where
  "sqlite_RecordOutstanding key r = exec (replace_onclear key r)"

definition row_outstanding :: "onclear_row \<Rightarrow> PendingRevert" where
  "row_outstanding r =
     \<lparr>pr_IntentID = oc_intent_id r, pr_Kind = oc_kind r, pr_Target = oc_target r, pr_ArgsJSON = oc_args r,
      pr_DueAt = zero_time\<rparr>"

definition sqlite_Outstanding :: "string \<Rightarrow> sqliteStore \<Rightarrow> (PendingRevert list \<times> error option) \<times> sqliteStore" where
  "sqlite_Outstanding key = query_partial (\<lambda>db. map row_outstanding (filter (\<lambda>r. oc_key r = key) (onclear db)))"

definition sqlite_ClearOutstanding :: "string \<Rightarrow> sqliteStore \<Rightarrow> error option \<times> sqliteStore" where
  "sqlite_ClearOutstanding key = exec (\<lambda>db. db\<lparr>onclear := filter (\<lambda>r. oc_key r \<noteq> key) (onclear db)\<rparr>)"

section \<open>Usage\<close>

definition sqlite_RecordUsage :: "string \<Rightarrow> string \<Rightarrow> f64 \<Rightarrow> time \<Rightarrow> sqliteStore \<Rightarrow> error option \<times> sqliteStore" where
  "sqlite_RecordUsage tenant model cost t =
     exec (\<lambda>db. db\<lparr>usage := usage db @
       [\<lparr>us_tenant = tenant, us_model = model, us_cost = cost, us_ts = format_rfc3339 t\<rparr>]\<rparr>)"

definition sqlite_SpendSince :: "string \<Rightarrow> time \<Rightarrow> sqliteStore \<Rightarrow> f64 result \<times> sqliteStore" where
  "sqlite_SpendSince tenant since s =
     query (\<lambda>db. let rows = filter (\<lambda>u. us_tenant u = tenant \<and> us_ts u \<ge> format_rfc3339 since) (usage db)
                  in if rows = [] then F64 0 else st_sum s (map us_cost rows)) s"

definition sqlite_PruneUsage :: "time \<Rightarrow> sqliteStore \<Rightarrow> error option \<times> sqliteStore" where
  "sqlite_PruneUsage before = exec (\<lambda>db. db\<lparr>usage := filter (\<lambda>u. \<not> us_ts u < format_rfc3339 before) (usage db)\<rparr>)"

section \<open>The backend as an implementation of the interface\<close>

definition sqlite_ops :: "ed25519 \<Rightarrow> sqliteStore store_ops" where
  "sqlite_ops ed =
     \<lparr>ClaimIntent = sqlite_ClaimIntent, ReleaseIntent = sqlite_ReleaseIntent, AppendAudit = sqlite_AppendAudit,
      Audit_entries = sqlite_Audit, VerifyAudit = sqlite_VerifyAudit ed, ScheduleRevert = sqlite_ScheduleRevert,
      DueReverts = sqlite_DueReverts, MarkReverted = sqlite_MarkReverted, RecordAction = sqlite_RecordAction,
      CountActions = sqlite_CountActions, RecordOutstanding = sqlite_RecordOutstanding,
      Outstanding = sqlite_Outstanding, ClearOutstanding = sqlite_ClearOutstanding,
      RecordUsage = sqlite_RecordUsage, SpendSince = sqlite_SpendSince, PruneUsage = sqlite_PruneUsage\<rparr>"

section \<open>Invariant and view of the tables\<close>

text \<open>What the keys of the schema and \<^verbatim>\<open>AUTOINCREMENT\<close> guarantee.\<close>

definition db_inv :: "sqlite_db \<Rightarrow> bool" where
  "db_inv db \<longleftrightarrow>
     distinct (applied_intents db)
     \<and> distinct (map rv_intent_id (pending_reverts db))
     \<and> distinct (map (\<lambda>r. (oc_key r, oc_intent_id r)) (onclear db))
     \<and> sorted_wrt (<) (map ar_seq (audit db)) \<and> list_all (\<lambda>r. ar_seq r \<le> audit_sequence db) (audit db)"

definition db_view :: "sqlite_db \<Rightarrow> view" where
  "db_view db =
     \<lparr>v_claimed = set (applied_intents db),
      v_reverts = map_of (map (\<lambda>r. (rv_intent_id r, row_revert r)) (pending_reverts db)),
      v_outstanding = (\<lambda>key. map_of (map (\<lambda>r. (oc_intent_id r, row_outstanding r)) (filter (\<lambda>r. oc_key r = key) (onclear db)))),
      v_log = map (\<lambda>r. (ar_kind r, ar_detail r)) (audit db)\<rparr>"

definition sqlite_inv :: "sqliteStore \<Rightarrow> bool" where
  "sqlite_inv s \<longleftrightarrow> db_inv (st_db s)"

definition sqlite_view :: "sqliteStore \<Rightarrow> view" where
  "sqlite_view s = db_view (st_db s)"

definition sqlite_healthy :: "sqliteStore \<Rightarrow> bool" where
  "sqlite_healthy s \<longleftrightarrow> (\<forall>n \<ge> st_tick s. st_fault s n = None)"

lemma db_inv_empty [simp]: "db_inv empty_db"
  by (simp add: db_inv_def empty_db_def)

lemma healthy_fault_now: "sqlite_healthy s \<Longrightarrow> fault_now s = None"
  by (simp add: sqlite_healthy_def fault_now_def)

lemma tick_simps [simp]:
  "st_db (next_tick s) = st_db s" "st_signer (next_tick s) = st_signer s" "st_require (next_tick s) = st_require s"
  "st_fault (next_tick s) = st_fault s" "st_clock (next_tick s) = st_clock s" "st_sum (next_tick s) = st_sum s" "st_rows (next_tick s) = st_rows s"
  "st_tick (next_tick s) = Suc (st_tick s)"
  "st_db (set_db d s) = d" "st_signer (set_db d s) = st_signer s" "st_require (set_db d s) = st_require s"
  "st_fault (set_db d s) = st_fault s" "st_clock (set_db d s) = st_clock s" "st_sum (set_db d s) = st_sum s" "st_rows (set_db d s) = st_rows s"
  "st_tick (set_db d s) = st_tick s"
  by (simp_all add: next_tick_def set_db_def)

lemma healthy_tick [simp]:
  "sqlite_healthy s \<Longrightarrow> sqlite_healthy (next_tick s)" "sqlite_healthy (set_db d s) = sqlite_healthy s"
  by (simp_all add: sqlite_healthy_def)

text \<open>A statement that has an effect on the tables has the promised effect on the view.\<close>

lemma exec_write_ok:
  assumes "sqlite_inv s" and "db_inv (f (st_db s))" and "db_view (f (st_db s)) = eff (db_view (st_db s))"
  shows "write_ok sqlite_view sqlite_inv sqlite_healthy eff s (exec f s)"
  using assms
  by (auto simp: exec_def write_ok_def step_ok_def sqlite_inv_def sqlite_view_def dest: healthy_fault_now
      split: option.splits fault.splits)

lemma query_read_ok:
  assumes "sqlite_inv s" and "P (f (st_db s)) (db_view (st_db s))"
  shows "read_ok sqlite_view sqlite_inv sqlite_healthy P s (query f s)"
  using assms
  by (auto simp: query_def read_ok_def step_ok_def sqlite_inv_def sqlite_view_def dest: healthy_fault_now
      split: option.splits)

lemma query_rows_read_ok:
  assumes "sqlite_inv s" and "P (f (st_db s)) (db_view (st_db s))"
  shows "read_ok sqlite_view sqlite_inv sqlite_healthy P s (query_rows f s)"
  using assms healthy_fault_now [OF healthy_tick(1), of s]
  by (auto simp: query_rows_def query_def read_ok_def step_ok_def sqlite_inv_def sqlite_view_def
      dest: healthy_fault_now split: option.splits)

lemma query_partial_rows_ok:
  assumes "sqlite_inv s" and "P (f (st_db s)) (db_view (st_db s))"
  shows "rows_ok sqlite_view sqlite_inv sqlite_healthy P s (query_partial f s)"
proof -
  have "\<exists>rest. P (take n (f (st_db s)) @ rest) (db_view (st_db s))" for n
    using assms(2) by (intro exI [of _ "drop n (f (st_db s))"]) simp
  then show ?thesis
    using assms healthy_fault_now [OF healthy_tick(1), of s]
    by (auto simp: query_partial_def query_def rows_ok_def step_ok_def sqlite_inv_def sqlite_view_def
        dest: healthy_fault_now split: option.splits)
qed

section \<open>Effects of the statements\<close>

lemma release_effect:
  fixes db i
  defines "db' \<equiv> db\<lparr>applied_intents := filter (\<lambda>x. x \<noteq> i) (applied_intents db)\<rparr>"
  assumes "db_inv db"
  shows "db_inv db'" "db_view db' = eff_release i (db_view db)"
  using assms by (auto simp: db_inv_def db_view_def eff_release_def)

lemma insert_revert_effect:
  assumes "db_inv db"
  shows "db_inv (insert_revert r db)" "db_view (insert_revert r db) = eff_schedule r (db_view db)"
proof -
  let ?m = "map_of (map (\<lambda>r. (rv_intent_id r, row_revert r)) (pending_reverts db))"
  have dom: "?m (pr_IntentID r) = None \<longleftrightarrow> pr_IntentID r \<notin> rv_intent_id ` set (pending_reverts db)"
    by (auto simp: map_of_eq_None_iff image_image)
  show "db_inv (insert_revert r db)" using assms by (auto simp: db_inv_def insert_revert_def)
  show "db_view (insert_revert r db) = eff_schedule r (db_view db)"
  proof (cases "?m (pr_IntentID r)")
    case None
    with dom show ?thesis
      by (auto simp: insert_revert_def db_view_def eff_schedule_def row_revert_def stored_time_def map_add_def
          split: option.splits)
  next
    case (Some x)
    with dom show ?thesis by (simp add: insert_revert_def db_view_def eff_schedule_def)
  qed
qed

lemma map_of_filter_ne:
  "map_of (map (\<lambda>r. (f r, g r)) (filter (\<lambda>r. f r \<noteq> i) xs)) = (map_of (map (\<lambda>r. (f r, g r)) xs))(i := None)"
  by (induction xs) auto

lemma mark_effect:
  fixes db i
  defines "db' \<equiv> db\<lparr>pending_reverts := filter (\<lambda>r. rv_intent_id r \<noteq> i) (pending_reverts db)\<rparr>"
  assumes "db_inv db"
  shows "db_inv db'" "db_view db' = eff_mark i (db_view db)"
  using assms by (auto simp: db_inv_def db_view_def eff_mark_def map_of_filter_ne distinct_map_filter)

lemma clear_effect:
  fixes db key
  defines "db' \<equiv> db\<lparr>onclear := filter (\<lambda>r. oc_key r \<noteq> key) (onclear db)\<rparr>"
  assumes "db_inv db"
  shows "db_inv db'" "db_view db' = eff_clear key (db_view db)"
proof -
  show "db_inv db'" using assms by (auto simp: db_inv_def distinct_map_filter)
  have "filter (\<lambda>r. oc_key r = k) (filter (\<lambda>r. oc_key r \<noteq> key) xs) =
      (if k = key then [] else filter (\<lambda>r. oc_key r = k) xs)" for k and xs :: "onclear_row list"
    by (induction xs) auto
  then show "db_view db' = eff_clear key (db_view db)"
    by (simp add: db'_def db_view_def eff_clear_def fun_eq_iff del: filter_filter)
qed

lemma replace_onclear_effect:
  assumes "db_inv db"
  shows "db_inv (replace_onclear key r db)" "db_view (replace_onclear key r db) = eff_outstanding key r (db_view db)"
proof -
  show "db_inv (replace_onclear key r db)"
    using assms by (auto simp: db_inv_def replace_onclear_def distinct_map_filter)
  let ?keep = "\<lambda>x. oc_key x = key \<longrightarrow> oc_intent_id x \<noteq> pr_IntentID r"
  have other: "filter (\<lambda>x. oc_key x = k) (filter ?keep xs) =
      (if k = key then filter (\<lambda>x. oc_intent_id x \<noteq> pr_IntentID r) (filter (\<lambda>x. oc_key x = k) xs)
       else filter (\<lambda>x. oc_key x = k) xs)" for k and xs :: "onclear_row list"
    by (induction xs) auto
  show "db_view (replace_onclear key r db) = eff_outstanding key r (db_view db)"
    by (auto simp: db_view_def replace_onclear_def eff_outstanding_def fun_eq_iff other
        map_of_filter_ne [where f = oc_intent_id] map_add_def row_outstanding_def
        simp del: filter_filter split: option.splits)
qed

lemma due_rows_spec:
  assumes "db_inv db"
  shows "due_spec now (filter (\<lambda>r. \<not> pr_DueAt r > now) (map row_revert (sort_key rv_due_at (pending_reverts db)))) (db_view db)"
proof -
  have d: "distinct (map rv_intent_id (pending_reverts db))" using assms by (simp add: db_inv_def)
  have ids: "pr_IntentID \<circ> row_revert = rv_intent_id" by (simp add: fun_eq_iff row_revert_def)
  have "distinct (map rv_intent_id (sort_key rv_due_at (pending_reverts db)))"
    using d by (metis distinct_map mset_eq_imp_distinct_iff mset_sort set_sort)
  then have "distinct (map pr_IntentID (filter (\<lambda>r. \<not> pr_DueAt r > now) (map row_revert (sort_key rv_due_at (pending_reverts db)))))"
    by (intro distinct_map_filter) (simp add: ids)
  moreover have "map_of (map (\<lambda>r. (rv_intent_id r, row_revert r)) (pending_reverts db)) (pr_IntentID p) = Some p
      \<longleftrightarrow> p \<in> row_revert ` set (pending_reverts db)" for p
    using d by (subst map_of_eq_Some_iff) (auto simp: comp_def row_revert_def image_iff)
  ultimately show ?thesis by (auto simp: due_spec_def db_view_def not_less)
qed

lemma outstanding_rows_spec:
  assumes "db_inv db"
  shows "outstanding_spec key (map row_outstanding (filter (\<lambda>r. oc_key r = key) (onclear db))) (db_view db)"
proof -
  have "inj_on (\<lambda>r. (oc_key r, oc_intent_id r)) (set (onclear db))" "distinct (onclear db)"
    using assms by (auto simp: db_inv_def distinct_map)
  then have d: "distinct (map oc_intent_id (filter (\<lambda>r. oc_key r = key) (onclear db)))"
    by (auto simp: distinct_map inj_on_def)
  have ids: "pr_IntentID \<circ> row_outstanding = oc_intent_id" by (simp add: fun_eq_iff row_outstanding_def)
  have "map_of (map (\<lambda>r. (oc_intent_id r, row_outstanding r)) (filter (\<lambda>r. oc_key r = key) (onclear db))) (pr_IntentID p) = Some p
      \<longleftrightarrow> p \<in> row_outstanding ` set (filter (\<lambda>r. oc_key r = key) (onclear db))" for p
    using d by (subst map_of_eq_Some_iff) (auto simp: comp_def row_outstanding_def image_iff)
  with d show ?thesis by (auto simp: outstanding_spec_def db_view_def ids)
qed

section \<open>The append transaction\<close>

lemma insert_audit_effect:
  assumes "db_inv db"
  shows "db_inv (insert_audit ts k d p h db)" "db_view (insert_audit ts k d p h db) = eff_append k d (db_view db)"
  using assms by (auto simp: db_inv_def db_view_def eff_append_def insert_audit_def sorted_wrt_append list_all_iff)

lemma checkpoint_effect [simp]:
  "db_inv (db\<lparr>audit_checkpoint := c\<rparr>) = db_inv db" "db_view (db\<lparr>audit_checkpoint := c\<rparr>) = db_view db"
  by (simp_all add: db_inv_def db_view_def)

abbreviation sqlite_append_ok :: "string \<Rightarrow> string \<Rightarrow> sqliteStore \<Rightarrow> AuditEntry result \<times> sqliteStore \<Rightarrow> bool" where
  "sqlite_append_ok \<equiv> append_ok sqlite_view sqlite_inv sqlite_healthy"

text \<open>Moving the promise of an append back over a statement that leaves the tables alone.\<close>

lemma append_ok_before:
  assumes "sqlite_append_ok k d s1 r" and "st_db s1 = st_db s" and "sqlite_healthy s \<Longrightarrow> sqlite_healthy s1"
  shows "sqlite_append_ok k d s r"
  using assms by (auto simp: append_ok_def step_ok_def sqlite_view_def split: sum.splits)

lemma append_ok_failed:
  assumes "sqlite_inv s" and "fault_now s \<noteq> None" and "st_db s1 = st_db s"
  shows "sqlite_append_ok k d s (Inl e, s1)"
  using assms by (auto simp: append_ok_def step_ok_def sqlite_view_def sqlite_inv_def dest: healthy_fault_now)

lemma in_tx_cases:
  obtains "fault_now s = None" "in_tx s = (None, next_tick s)"
  | f where "fault_now s = Some f" "in_tx s = (Some (fault_error f), next_tick s)"
  by (cases "fault_now s") (auto simp: in_tx_def)

lemma commit_append_ok:
  assumes "sqlite_inv s" and "db_inv db" and "db_view db = eff_append k d (db_view (st_db s))"
    and "ae_Kind entry = k" "ae_Detail entry = d"
  shows "sqlite_append_ok k d s (commit_tx db entry s)"
  using assms
  by (auto simp: commit_tx_def exec_def append_ok_def step_ok_def sqlite_view_def sqlite_inv_def
      dest: healthy_fault_now split: option.splits fault.splits)

lemma checkpoint_append_ok:
  assumes "sqlite_inv s" and "db_inv db" and "db_view db = eff_append k d (db_view (st_db s))"
    and "ae_Kind entry = k" "ae_Detail entry = d"
  shows "sqlite_append_ok k d s (checkpoint_tx db h entry s)"
proof (cases "st_signer s")
  case None
  then show ?thesis using commit_append_ok [OF assms] by (simp add: checkpoint_tx_def)
next
  case (Some signer)
  let ?s1 = "next_tick s" and ?s2 = "next_tick (next_tick s)"
  let ?db = "db\<lparr>audit_checkpoint := Some (MakeCheckpoint signer (int (length (audit db))) h)\<rparr>"
  have i: "sqlite_inv ?s1" "sqlite_inv ?s2" using assms(1) by (simp_all add: sqlite_inv_def)
  have "sqlite_append_ok k d ?s2 (commit_tx ?db entry ?s2)"
    using assms(2-5) by (intro commit_append_ok i(2)) simp_all
  then have c: "sqlite_append_ok k d ?s1 (commit_tx ?db entry ?s2)" by (rule append_ok_before) simp_all
  have f: "sqlite_append_ok k d ?s1 (Inl e, ?s2)" if "fault_now ?s1 \<noteq> None" for e
    using i(1) that by (rule append_ok_failed) simp
  show ?thesis
  proof (cases s rule: in_tx_cases)
    case 1
    have "sqlite_append_ok k d ?s1 (case in_tx ?s1 of (Some e, s2) \<Rightarrow> (Inl e, s2) | (None, s2) \<Rightarrow> commit_tx ?db entry s2)"
      using c f by (cases "?s1" rule: in_tx_cases) simp_all
    from append_ok_before [OF this] show ?thesis by (simp add: checkpoint_tx_def Some 1 Let_def)
  next
    case (2 e)
    then show ?thesis using append_ok_failed [OF assms(1), of ?s1] by (simp add: checkpoint_tx_def Some)
  qed
qed

lemma sqlite_append_law:
  assumes "sqlite_inv s"
  shows "sqlite_append_ok k d s (sqlite_AppendAudit k d s)"
proof -
  let ?s1 = "next_tick s" and ?s2 = "next_tick (next_tick s)" and ?s3 = "next_tick (next_tick (next_tick s))"
  have i: "sqlite_inv ?s2" "sqlite_inv ?s3" using assms by (simp_all add: sqlite_inv_def)
  have db: "db_inv (st_db s)" using assms by (simp add: sqlite_inv_def)
  obtain q where q: "query last_hash ?s1 = (q, ?s2)" by (cases "fault_now ?s1") (simp_all add: query_def)
  define prev where "prev = (case q of Inl _ \<Rightarrow> [] | Inr None \<Rightarrow> [] | Inr (Some p) \<Rightarrow> p)"
  define ts where "ts = format_rfc3339 (st_clock ?s2 (st_tick ?s2))"
  define db' where "db' = insert_audit ts k d prev (ChainHash ts k d prev) (st_db s)"
  define entry where "entry = \<lparr>ae_Seq = audit_sequence db', ae_TS = parse_or_zero ts, ae_Kind = k,
    ae_Detail = d, ae_PrevHash = prev, ae_Hash = ChainHash ts k d prev\<rparr>"
  have "sqlite_append_ok k d ?s3 (checkpoint_tx db' (ChainHash ts k d prev) entry ?s3)"
    using insert_audit_effect [OF db] by (intro checkpoint_append_ok i(2)) (simp_all add: db'_def entry_def)
  then have c: "sqlite_append_ok k d ?s2 (checkpoint_tx db' (ChainHash ts k d prev) entry ?s3)"
    by (rule append_ok_before) simp_all
  have f: "sqlite_append_ok k d ?s2 (Inl e, ?s3)" if "fault_now ?s2 \<noteq> None" for e
    using i(1) that by (rule append_ok_failed) simp
  show ?thesis
  proof (cases s rule: in_tx_cases)
    case 1
    have "sqlite_append_ok k d ?s2
        (case in_tx ?s2 of (Some e, s3) \<Rightarrow> (Inl e, s3)
         | (None, s3) \<Rightarrow> checkpoint_tx db' (ChainHash ts k d prev) entry s3)"
      using c f by (cases "?s2" rule: in_tx_cases) simp_all
    moreover have "sqlite_AppendAudit k d s =
        (case in_tx ?s2 of (Some e, s3) \<Rightarrow> (Inl e, s3)
         | (None, s3) \<Rightarrow> checkpoint_tx db' (ChainHash ts k d prev) entry s3)"
      by (cases "?s2" rule: in_tx_cases)
         (simp_all add: sqlite_AppendAudit_def 1 q Let_def db'_def entry_def prev_def ts_def)
    ultimately show ?thesis by (auto intro: append_ok_before)
  next
    case (2 e)
    then show ?thesis using append_ok_failed [OF assms, of ?s1] by (simp add: sqlite_AppendAudit_def)
  qed
qed

section \<open>The backend meets the contract\<close>

lemma sqlite_claim_law:
  assumes "sqlite_inv s"
  shows "claim_ok sqlite_view sqlite_inv sqlite_healthy i s (sqlite_ClaimIntent i s)"
  using assms
  by (auto simp: sqlite_ClaimIntent_def exec_def claim_ok_def step_ok_def sqlite_view_def sqlite_inv_def db_inv_def
      db_view_def eff_claim_def dest: healthy_fault_now split: option.splits fault.splits)

lemma sqlite_verify_law:
  "sqlite_inv s \<Longrightarrow>
   sqlite_view (snd (sqlite_VerifyAudit ed s)) = sqlite_view s
   \<and> step_ok sqlite_inv sqlite_healthy s True (snd (sqlite_VerifyAudit ed s))"
  by (auto simp: sqlite_VerifyAudit_def sqlite_Audit_def loadCheckpoint_def query_rows_def query_def step_ok_def
      sqlite_inv_def sqlite_view_def split: option.splits prod.splits)

lemma other_tables_effect [simp]:
  "db_inv (db\<lparr>rule_actions := ra\<rparr>) = db_inv db" "db_view (db\<lparr>rule_actions := ra\<rparr>) = db_view db"
  "db_inv (db\<lparr>usage := u\<rparr>) = db_inv db" "db_view (db\<lparr>usage := u\<rparr>) = db_view db"
  by (simp_all add: db_inv_def db_view_def)

interpretation sqlite: store "sqlite_ops ed" sqlite_view sqlite_inv sqlite_healthy
proof (unfold_locales, goal_cases)
  case (1 s i) then show ?case by (simp add: sqlite_ops_def sqlite_claim_law)
next
  case (2 s i) then show ?case
    unfolding sqlite_ops_def store_ops.simps sqlite_ReleaseIntent_def
    by (intro exec_write_ok release_effect) (simp_all add: sqlite_inv_def)
next
  case (3 s k d) then show ?case by (simp add: sqlite_ops_def sqlite_append_law)
next
  case (4 s) then show ?case by (simp add: sqlite_ops_def sqlite_Audit_def query_rows_read_ok)
next
  case (5 s) then show ?case by (simp add: sqlite_ops_def sqlite_verify_law)
next
  case (6 s r) then show ?case
    unfolding sqlite_ops_def store_ops.simps sqlite_ScheduleRevert_def
    by (intro exec_write_ok insert_revert_effect) (simp_all add: sqlite_inv_def)
next
  case (7 s now) then show ?case
    unfolding sqlite_ops_def store_ops.simps sqlite_DueReverts_def
    by (intro query_rows_read_ok due_rows_spec) (simp_all add: sqlite_inv_def)
next
  case (8 s i) then show ?case
    unfolding sqlite_ops_def store_ops.simps sqlite_MarkReverted_def
    by (intro exec_write_ok mark_effect) (simp_all add: sqlite_inv_def)
next
  case (9 s sha t) then show ?case
    unfolding sqlite_ops_def store_ops.simps sqlite_RecordAction_def
    by (intro exec_write_ok) (simp_all add: sqlite_inv_def)
next
  case (10 s sha since) then show ?case by (simp add: sqlite_ops_def sqlite_CountActions_def query_read_ok)
next
  case (11 s key r) then show ?case
    unfolding sqlite_ops_def store_ops.simps sqlite_RecordOutstanding_def
    by (intro exec_write_ok replace_onclear_effect) (simp_all add: sqlite_inv_def)
next
  case (12 s key) then show ?case
    unfolding sqlite_ops_def store_ops.simps sqlite_Outstanding_def
    by (intro query_partial_rows_ok outstanding_rows_spec) (simp_all add: sqlite_inv_def)
next
  case (13 s key) then show ?case
    unfolding sqlite_ops_def store_ops.simps sqlite_ClearOutstanding_def
    by (intro exec_write_ok clear_effect) (simp_all add: sqlite_inv_def)
next
  case (14 s tenant model cost t) then show ?case
    unfolding sqlite_ops_def store_ops.simps sqlite_RecordUsage_def
    by (intro exec_write_ok) (simp_all add: sqlite_inv_def)
next
  case (15 s tenant since) then show ?case
    by (simp add: sqlite_ops_def sqlite_SpendSince_def query_read_ok)
next
  case (16 s before) then show ?case
    unfolding sqlite_ops_def store_ops.simps sqlite_PruneUsage_def
    by (intro exec_write_ok) (simp_all add: sqlite_inv_def)
qed

section \<open>The audit log stays verifiable\<close>

definition audit_entries :: "sqlite_db \<Rightarrow> AuditEntry list" where
  "audit_entries db = map row_entry (audit_in_order db)"

text \<open>
  What an honest history leaves: a valid chain, and the checkpoint of the store's own signer
  over its length and head (none before the first entry, none at all without a signer).
\<close>

definition audit_sound :: "Signer option \<Rightarrow> sqlite_db \<Rightarrow> bool" where
  "audit_sound sg db \<longleftrightarrow>
     db_inv db \<and> VerifyChain (audit_entries db)
     \<and> audit_checkpoint db =
         (case sg of
            None \<Rightarrow> None
          | Some g \<Rightarrow> if audit db = [] then None
                      else Some (MakeCheckpoint g (int (length (audit db))) (head_hash (audit_entries db))))"

lemma audit_in_order_id: "db_inv db \<Longrightarrow> audit_in_order db = audit db"
  unfolding audit_in_order_def
  by (rule sort_key_id_if_sorted) (simp add: db_inv_def sorted_wrt_mono_rel [of _ "(<)"] strict_sorted_imp_sorted)

lemma audit_sound_empty [simp]: "audit_sound sg empty_db"
  by (simp add: audit_sound_def audit_entries_def audit_in_order_def empty_db_def db_inv_def VerifyChain_def split: option.splits)

lemma last_hash_head:
  assumes "db_inv db"
  shows "(case last_hash db of None \<Rightarrow> [] | Some p \<Rightarrow> p) = head_hash (audit_entries db)"
  using assms
  by (simp add: last_hash_def head_hash_def audit_entries_def audit_in_order_id last_map row_entry_def)

lemma insert_audit_entries:
  assumes "db_inv db"
  shows "audit_entries (insert_audit ts k d p h db) =
     audit_entries db @ [row_entry \<lparr>ar_seq = audit_sequence db + 1, ar_ts = ts, ar_kind = k, ar_detail = d,
                                    ar_prev_hash = p, ar_hash = h\<rparr>]"
  using audit_in_order_id [OF insert_audit_effect(1) [OF assms]] audit_in_order_id [OF assms]
  by (simp add: audit_entries_def insert_audit_def)

lemma insert_audit_chain:
  fixes db t k d
  defines "ts \<equiv> format_rfc3339 t" and "p \<equiv> head_hash (audit_entries db)"
  assumes "db_inv db" and "VerifyChain (audit_entries db)" and "year_ok t"
  shows "VerifyChain (audit_entries (insert_audit ts k d p (ChainHash ts k d p) db))"
    and "head_hash (audit_entries (insert_audit ts k d p (ChainHash ts k d p) db)) = ChainHash ts k d p"
proof -
  have t: "parse_or_zero ts = t"
    using parse_format_rfc3339 [OF assms(5)] by (simp add: ts_def parse_or_zero_def)
  show "VerifyChain (audit_entries (insert_audit ts k d p (ChainHash ts k d p) db))"
    using assms(4) t by (simp add: insert_audit_entries [OF assms(3)] VerifyChain_snoc row_entry_def ts_def p_def)
  show "head_hash (audit_entries (insert_audit ts k d p (ChainHash ts k d p) db)) = ChainHash ts k d p"
    by (simp add: insert_audit_entries [OF assms(3)] row_entry_def)
qed

lemma checkpoint_fields [simp]:
  "audit_entries (db\<lparr>audit_checkpoint := c\<rparr>) = audit_entries db" "audit (db\<lparr>audit_checkpoint := c\<rparr>) = audit db"
  by (simp_all add: audit_entries_def audit_in_order_def)

lemma commit_tx_db: "st_db (snd (commit_tx db e s)) = st_db s \<or> st_db (snd (commit_tx db e s)) = db"
  by (auto simp: commit_tx_def exec_def split: option.splits fault.splits)

lemma checkpoint_tx_db:
  "st_db (snd (checkpoint_tx db h e s)) = st_db s \<or>
   st_db (snd (checkpoint_tx db h e s)) =
     (case st_signer s of None \<Rightarrow> db
      | Some g \<Rightarrow> db\<lparr>audit_checkpoint := Some (MakeCheckpoint g (int (length (audit db))) h)\<rparr>)"
proof (cases "st_signer s")
  case None
  then show ?thesis using commit_tx_db [of db e s] by (simp add: checkpoint_tx_def)
next
  case (Some g)
  let ?db = "db\<lparr>audit_checkpoint := Some (MakeCheckpoint g (int (length (audit db))) h)\<rparr>"
  show ?thesis
    using commit_tx_db [of ?db e "next_tick (next_tick s)"]
    by (cases s rule: in_tx_cases; cases "next_tick s" rule: in_tx_cases) (simp_all add: checkpoint_tx_def Some Let_def)
qed

text \<open>The row an append inserts when the previous hash could be read.\<close>

lemma append_db:
  assumes "st_fault s (Suc (st_tick s)) = None"
  defines "ts \<equiv> format_rfc3339 (st_clock s (st_tick s + 2))"
    and "p \<equiv> (case last_hash (st_db s) of None \<Rightarrow> [] | Some p \<Rightarrow> p)"
  shows "st_db (snd (sqlite_AppendAudit k d s)) = st_db s \<or>
     (let db = insert_audit ts k d p (ChainHash ts k d p) (st_db s)
      in st_db (snd (sqlite_AppendAudit k d s)) =
           (case st_signer s of None \<Rightarrow> db
            | Some g \<Rightarrow> db\<lparr>audit_checkpoint := Some (MakeCheckpoint g (int (length (audit db))) (ChainHash ts k d p))\<rparr>))"
proof -
  let ?s2 = "next_tick (next_tick s)" and ?s3 = "next_tick (next_tick (next_tick s))"
  have q: "query last_hash (next_tick s) = (Inr (last_hash (st_db s)), ?s2)"
    using assms(1) by (simp add: query_def fault_now_def)
  define db where "db = insert_audit ts k d p (ChainHash ts k d p) (st_db s)"
  define e where "e = \<lparr>ae_Seq = audit_sequence db, ae_TS = parse_or_zero ts, ae_Kind = k,
    ae_Detail = d, ae_PrevHash = p, ae_Hash = ChainHash ts k d p\<rparr>"
  have "sqlite_AppendAudit k d s = (case in_tx ?s2 of (Some e, s3) \<Rightarrow> (Inl e, s3)
      | (None, s3) \<Rightarrow> checkpoint_tx db (ChainHash ts k d p) e s3)" if "fault_now s = None"
    using that by (cases "?s2" rule: in_tx_cases)
      (simp_all add: sqlite_AppendAudit_def in_tx_def [of s] q Let_def db_def e_def p_def ts_def)
  moreover have "st_db (snd (sqlite_AppendAudit k d s)) = st_db s" if "fault_now s \<noteq> None"
    using that by (auto simp: sqlite_AppendAudit_def in_tx_def)
  ultimately show ?thesis
    using checkpoint_tx_db [of db "ChainHash ts k d p" e ?s3]
    by (cases "fault_now s"; cases "?s2" rule: in_tx_cases) (simp_all add: db_def [symmetric] Let_def)
qed

lemma append_keeps_sound:
  assumes "audit_sound (st_signer s) (st_db s)"
    and "st_fault s (Suc (st_tick s)) = None" and "year_ok (st_clock s (st_tick s + 2))"
  shows "audit_sound (st_signer s) (st_db (snd (sqlite_AppendAudit k d s)))"
proof -
  have i: "db_inv (st_db s)" and v: "VerifyChain (audit_entries (st_db s))"
    using assms(1) by (simp_all add: audit_sound_def)
  note lh = last_hash_head [OF i]
  note ch = insert_audit_chain [OF i v assms(3), of k d]
  have "audit (insert_audit ts k d p h (st_db s)) \<noteq> []" for ts p h by (simp add: insert_audit_def)
  moreover have "audit_checkpoint (insert_audit ts k d p h (st_db s)) = audit_checkpoint (st_db s)" for ts p h
    by (simp add: insert_audit_def)
  ultimately show ?thesis
    using append_db [OF assms(2), of k d] assms(1) ch insert_audit_effect(1) [OF i]
    by (auto simp: audit_sound_def lh Let_def split: option.splits)
qed

lemma VerifyAudit_sound:
  assumes "audit_sound (st_signer s) (st_db s)" and "sqlite_healthy s"
    and "st_signer s = None \<longrightarrow> \<not> st_require s \<or> audit (st_db s) = []"
    and "\<And>g. st_signer s = Some g \<Longrightarrow> honest_signer ed g"
  shows "fst (sqlite_VerifyAudit ed s)"
proof -
  have f: "fault_now s = None" "fault_now (next_tick s) = None" "fault_now (next_tick (next_tick s)) = None"
    using assms(2) by (simp_all add: healthy_fault_now)
  have es: "map row_entry (audit_in_order (st_db s)) = audit_entries (st_db s)" by (simp add: audit_entries_def)
  have len: "length (audit_entries (st_db s)) = length (audit (st_db s))"
    by (simp add: audit_entries_def audit_in_order_def)
  have v: "VerifyChain (audit_entries (st_db s))" using assms(1) by (simp add: audit_sound_def)
  show ?thesis
  proof (cases "st_signer s")
    case None
    with assms(1,3) v show ?thesis
      by (auto simp: sqlite_VerifyAudit_def sqlite_Audit_def loadCheckpoint_def query_rows_def query_def f es
          audit_sound_def VerifyAgainstCheckpoint_def audit_entries_def audit_in_order_def)
  next
    case (Some g)
    have acc: "VerifyAgainstCheckpoint ed es (MakeCheckpoint g n h) True req \<longleftrightarrow>
        VerifyChain es \<and> int (length es) = n \<and> head_hash es = h" for es n h req
      by (rule honest_signer.checkpoint_accepts_iff [OF assms(4) [OF Some]])
    show ?thesis
    proof (cases "audit (st_db s) = []")
      case True
      then have "audit_entries (st_db s) = []" using len by simp
      with True Some assms(1) show ?thesis
        by (simp add: sqlite_VerifyAudit_def sqlite_Audit_def loadCheckpoint_def query_rows_def query_def f es
            audit_sound_def VerifyAgainstCheckpoint_def VerifyChain_def)
    next
      case False
      with Some assms(1) v show ?thesis
        by (simp add: sqlite_VerifyAudit_def sqlite_Audit_def loadCheckpoint_def query_rows_def query_def f es
            audit_sound_def acc len)
    qed
  qed
qed

section \<open>Whole histories\<close>

text \<open>No statement touches the environment of the store or its configuration.\<close>

definition same_env :: "sqliteStore \<Rightarrow> sqliteStore \<Rightarrow> bool" where
  "same_env s s' \<longleftrightarrow>
     st_signer s' = st_signer s \<and> st_require s' = st_require s \<and> st_fault s' = st_fault s
     \<and> st_clock s' = st_clock s \<and> st_sum s' = st_sum s \<and> st_rows s' = st_rows s"

lemma same_env_refl [simp]: "same_env s s" "same_env s (next_tick s)" "same_env s (next_tick (set_db d s))"
  by (simp_all add: same_env_def)

lemma same_env_tick [simp]: "same_env (next_tick s) s' = same_env s s'"
  by (simp add: same_env_def)

lemma same_env_exec [frame_simps]: "same_env s (snd (exec f s))"
  by (simp add: exec_def split: option.splits fault.splits)

lemma same_env_query [frame_simps]: "same_env s (snd (query f s))"
  by (simp add: query_def split: option.splits)

lemma same_env_query_rows [frame_simps]: "same_env s (snd (query_rows f s))"
  by (auto simp: query_rows_def query_def same_env_def split: option.splits)

lemma same_env_commit [frame_simps]: "same_env s (snd (commit_tx db e s))"
  using same_env_exec [of s "\<lambda>_. db"] by (auto simp: commit_tx_def split: prod.splits option.splits)

lemma same_env_checkpoint [frame_simps]: "same_env s (snd (checkpoint_tx db h e s))"
  using same_env_commit [of s db e] same_env_commit [of "next_tick (next_tick s)" _ e]
  by (cases "st_signer s"; cases s rule: in_tx_cases; cases "next_tick s" rule: in_tx_cases)
     (simp_all add: checkpoint_tx_def Let_def same_env_def)

lemma same_env_append [frame_simps]: "same_env s (snd (sqlite_AppendAudit k d s))"
proof -
  let ?s2 = "next_tick (next_tick s)"
  have "same_env s (snd (checkpoint_tx db h e (next_tick ?s2)))" for db h e
    using same_env_checkpoint [of "next_tick ?s2" db h e] by simp
  moreover have "snd (query last_hash (next_tick s)) = ?s2"
    by (cases "fault_now (next_tick s)") (simp_all add: query_def)
  ultimately show ?thesis
    by (cases s rule: in_tx_cases; cases ?s2 rule: in_tx_cases)
       (simp_all add: sqlite_AppendAudit_def Let_def case_prod_beta, simp_all add: same_env_def)
qed

lemma same_env_query_partial [frame_simps]: "same_env s (snd (query_partial f s))"
  by (auto simp: query_partial_def query_def same_env_def split: option.splits)

lemma same_env_claim [frame_simps]: "same_env s (snd (sqlite_ClaimIntent i s))"
  by (simp add: sqlite_ClaimIntent_def exec_def split: option.splits fault.splits)

lemma same_env_verify [frame_simps]: "same_env s (snd (sqlite_VerifyAudit ed s))"
  by (auto simp: sqlite_VerifyAudit_def sqlite_Audit_def loadCheckpoint_def query_rows_def query_def same_env_def
      split: option.splits prod.splits)

lemmas sqlite_op_defs =
  sqlite_ReleaseIntent_def sqlite_Audit_def sqlite_ScheduleRevert_def sqlite_DueReverts_def sqlite_MarkReverted_def
  sqlite_RecordAction_def sqlite_CountActions_def sqlite_RecordOutstanding_def sqlite_Outstanding_def
  sqlite_ClearOutstanding_def sqlite_RecordUsage_def sqlite_SpendSince_def sqlite_PruneUsage_def

lemma invoke_same_env: "same_env s (snd (invoke (sqlite_ops ed) c s))"
  by (cases c) (simp_all add: invoke.simps sqlite_ops_def frame_simps sqlite_op_defs Let_def)

definition audit_part :: "sqlite_db \<Rightarrow> audit_row list \<times> Checkpoint option" where
  "audit_part db = (audit db, audit_checkpoint db)"

lemma audit_part_simps [simp]:
  "audit_part (db\<lparr>applied_intents := a\<rparr>) = audit_part db"
  "audit_part (db\<lparr>pending_reverts := p\<rparr>) = audit_part db"
  "audit_part (db\<lparr>rule_actions := ra\<rparr>) = audit_part db"
  "audit_part (db\<lparr>onclear := oc\<rparr>) = audit_part db"
  "audit_part (db\<lparr>usage := u\<rparr>) = audit_part db"
  "audit_part (insert_revert r db) = audit_part db"
  "audit_part (replace_onclear key r db) = audit_part db"
  by (simp_all add: audit_part_def insert_revert_def replace_onclear_def)

lemma exec_audit_part:
  "(\<And>db. audit_part (f db) = audit_part db) \<Longrightarrow> audit_part (st_db (snd (exec f s))) = audit_part (st_db s)"
  by (simp add: exec_def split: option.splits fault.splits)

lemma query_db [simp]: "st_db (snd (query f s)) = st_db s" "st_db (snd (query_rows g s)) = st_db s"
  "st_db (snd (query_partial h s)) = st_db s"
  by (auto simp: query_rows_def query_partial_def query_def split: option.splits)

lemma verify_db [simp]: "st_db (snd (sqlite_VerifyAudit ed s)) = st_db s"
  by (auto simp: sqlite_VerifyAudit_def sqlite_Audit_def loadCheckpoint_def query_rows_def query_def
      split: option.splits prod.splits)

lemma claim_audit_part: "audit_part (st_db (snd (sqlite_ClaimIntent i s))) = audit_part (st_db s)"
  by (simp add: sqlite_ClaimIntent_def exec_def audit_part_def split: option.splits fault.splits)

lemma invoke_audit_part:
  "\<not> (\<exists>k d. c = Append k d) \<Longrightarrow> audit_part (st_db (snd (invoke (sqlite_ops ed) c s))) = audit_part (st_db s)"
  by (cases c)
     (simp_all add: invoke.simps sqlite_ops_def sqlite_op_defs Let_def claim_audit_part exec_audit_part)

lemma audit_sound_audit_part:
  "audit_part db' = audit_part db \<Longrightarrow> db_inv db' \<Longrightarrow> audit_sound sg db \<Longrightarrow> audit_sound sg db'"
proof -
  assume "audit_part db' = audit_part db" "db_inv db'" "audit_sound sg db"
  moreover from this have "audit_entries db' = audit_entries db"
    by (simp add: audit_entries_def audit_in_order_def audit_part_def)
  ultimately show ?thesis by (cases sg) (simp_all add: audit_sound_def audit_part_def)
qed

lemma invoke_keeps_sound:
  assumes "audit_sound (st_signer s) (st_db s)" and "sqlite_healthy s" and "\<And>n. year_ok (st_clock s n)"
  shows "audit_sound (st_signer s) (st_db (snd (invoke (sqlite_ops ed) c s)))"
proof (cases "\<exists>k d. c = Append k d")
  case True
  then obtain k d where c: "c = Append k d" by blast
  have "st_fault s (Suc (st_tick s)) = None" using assms(2) by (simp add: sqlite_healthy_def)
  with assms show ?thesis by (simp add: c invoke.simps sqlite_ops_def append_keeps_sound)
next
  case False
  have "sqlite_inv s" using assms(1) by (simp add: audit_sound_def sqlite_inv_def)
  then have "db_inv (st_db (snd (invoke (sqlite_ops ed) c s)))"
    using sqlite.invoke_inv [of s ed c] by (simp add: sqlite_inv_def)
  with assms(1) False invoke_audit_part [of c ed s] show ?thesis by (blast intro: audit_sound_audit_part)
qed

lemma run_keeps_sound:
  assumes "audit_sound (st_signer s) (st_db s)" "sqlite_healthy s" "\<And>n. year_ok (st_clock s n)"
  shows "audit_sound (st_signer s) (st_db (run_calls (sqlite_ops ed) cs s)) \<and> sqlite_healthy (run_calls (sqlite_ops ed) cs s)
         \<and> same_env s (run_calls (sqlite_ops ed) cs s)"
  using assms
proof (induction cs arbitrary: s)
  case (Cons c cs)
  let ?s' = "snd (invoke (sqlite_ops ed) c s)"
  have e: "same_env s ?s'" by (rule invoke_same_env)
  have "sqlite_inv s" using Cons.prems(1) by (simp add: audit_sound_def sqlite_inv_def)
  then have "sqlite_healthy ?s'" using Cons.prems(2) by (rule sqlite.invoke_healthy)
  moreover have "audit_sound (st_signer ?s') (st_db ?s')"
    using invoke_keeps_sound [OF Cons.prems, of ed c] e by (simp add: same_env_def)
  moreover have "year_ok (st_clock ?s' n)" for n using Cons.prems(3) e by (simp add: same_env_def)
  ultimately show ?case using Cons.IH [of ?s'] e by (simp add: same_env_def)
qed simp

section \<open>Properties\<close>

text \<open>C12: the at-most-once gate.  In every serialised sequence of calls to the store, by any number of
  callers and under any schedule of driver failures, at most one claim of an id succeeds as
  long as nobody releases it.\<close>

theorem claim_at_most_once:
  assumes "sqlite_inv s" and "Release i \<notin> set cs"
  shows "claim_wins (sqlite_ops ed) i cs s \<le> 1"
  using assms by (rule sqlite.wins_at_most_once)

definition demo_store :: sqliteStore where
  "demo_store =
     \<lparr>st_db = empty_db, st_signer = None, st_require = False, st_tick = 0, st_fault = (\<lambda>_. None),
      st_clock = (\<lambda>n. int n * second), st_sum = (\<lambda>_. F64 0), st_rows = (\<lambda>_. 0)\<rparr>"

lemma demo_store_ok: "sqlite_inv demo_store" "sqlite_healthy demo_store"
  by (simp_all add: demo_store_def sqlite_inv_def sqlite_healthy_def)

theorem claim_at_most_once_witness:
  "claim_wins (sqlite_ops demo_ed) ''a'' [Claim ''a'', Append ''k'' ''d'', Claim ''a'', Release ''b'', Claim ''a''] demo_store \<le> 1"
  by (rule claim_at_most_once [OF demo_store_ok(1)]) simp

text \<open>The gate is live.  When storage raises no error, a free id that is claimed at all, and not
  released, is won by exactly one of its claims.\<close>

theorem claim_exactly_once:
  assumes "sqlite_inv s" and "sqlite_healthy s" and "i \<notin> set (applied_intents (st_db s))"
    and "Release i \<notin> set cs" and "Claim i \<in> set cs"
  shows "claim_wins (sqlite_ops ed) i cs s = 1"
proof -
  have "i \<notin> v_claimed (sqlite_view s)" using assms(3) by (simp add: sqlite_view_def db_view_def)
  from sqlite.wins_once_when_healthy [OF assms(1,2) this assms(4,5)] show ?thesis .
qed

theorem claim_exactly_once_witness:
  "claim_wins (sqlite_ops demo_ed) ''a'' [Claim ''b'', Claim ''a'', Claim ''a''] demo_store = 1"
  by (rule claim_exactly_once [OF demo_store_ok]) (simp_all add: demo_store_def empty_db_def)

text \<open>C7: the tables implement the abstract store.  When storage raises no error, running any
  sequence of calls on the tables and then abstracting gives the same contents (claimed ids,
  pending reverts, outstanding intents, audit log) as running the effects of the calls on the
  abstraction, and the key constraints of the schema hold throughout.\<close>

theorem sqlite_refines_view:
  assumes "sqlite_inv s" and "sqlite_healthy s"
  shows "sqlite_view (run_calls (sqlite_ops ed) cs s) = fold call_effect cs (sqlite_view s)
         \<and> sqlite_inv (run_calls (sqlite_ops ed) cs s)"
  using sqlite.run_calls_view [OF assms] sqlite.run_calls_inv [OF assms(1)] by simp

theorem sqlite_refines_view_witness:
  "v_claimed (sqlite_view (run_calls (sqlite_ops demo_ed) [Claim ''a'', Claim ''b'', Release ''a''] demo_store)) = {''b''}"
proof -
  note ref = sqlite_refines_view [OF demo_store_ok, THEN conjunct1, of demo_ed "[Claim ''a'', Claim ''b'', Release ''a'']"]
  have "v_claimed (sqlite_view demo_store) = {}"
    by (simp add: sqlite_view_def db_view_def demo_store_def empty_db_def)
  then show ?thesis unfolding ref by auto
qed

text \<open>Under any failures, one call changes the abstract contents by its effect or not at all, and
  keeps the key constraints of the schema.\<close>

theorem sqlite_call_effect:
  assumes "sqlite_inv s"
  shows "sqlite_inv (snd (invoke (sqlite_ops ed) c s))
         \<and> (sqlite_view (snd (invoke (sqlite_ops ed) c s)) = sqlite_view s
            \<or> sqlite_view (snd (invoke (sqlite_ops ed) c s)) = call_effect c (sqlite_view s))"
  using sqlite.invoke_inv [OF assms] sqlite.invoke_view [OF assms] by blast

theorem sqlite_call_effect_witness:
  "sqlite_inv (snd (invoke (sqlite_ops demo_ed) (Claim ''a'') (demo_store\<lparr>st_fault := \<lambda>_. Some (FailAfter ''timeout'')\<rparr>)))"
proof -
  have "sqlite_inv (demo_store\<lparr>st_fault := \<lambda>_. Some (FailAfter ''timeout'')\<rparr>)"
    using demo_store_ok(1) by (simp add: sqlite_inv_def)
  from sqlite_call_effect [OF this] show ?thesis by blast
qed

lemma opened_store_verifies:
  assumes "ed25519_scheme ed" and "length priv = PrivateKeySize"
    and "OpenSQLite empty_db (\<lambda>_. None) clock summation rows [WithCheckpointSigner (Some (signerFromPrivate ed priv))] = Inr s"
    and "\<And>n. year_ok (clock n)"
  shows "fst (VerifyAudit (sqlite_ops ed) (run_calls (sqlite_ops ed) cs s))"
proof -
  let ?g = "signerFromPrivate ed priv" and ?s' = "run_calls (sqlite_ops ed) cs s"
  from assms(3) have s: "st_db s = empty_db" "st_signer s = Some ?g" "st_clock s = clock" "st_fault s = (\<lambda>_. None)"
    by (auto simp: OpenSQLite_def exec_def fault_now_def next_tick_def set_db_def applyStoreOptions_def
        WithCheckpointSigner_def Let_def)
  have run: "audit_sound (Some ?g) (st_db ?s')" "sqlite_healthy ?s'" "same_env s ?s'"
    using run_keeps_sound [of s ed cs] assms(4) s by (auto simp: sqlite_healthy_def)
  have "st_signer ?s' = Some ?g" using run(3) s(2) by (simp add: same_env_def)
  with run(1,2) show ?thesis
    using VerifyAudit_sound [of ?s' ed] honest_signerFromPrivate [OF assms(1,2)] by (simp add: sqlite_ops_def)
qed

text \<open>A store opened on a new database with an honest checkpoint signer passes its own audit
  verification after every sequence of calls, when storage raises no error and the clock stays
  within the four-digit years.\<close>

theorem audit_always_verifies:
  assumes "ed25519_scheme ed" and "length priv = PrivateKeySize"
    and "OpenSQLite empty_db (\<lambda>_. None) clock summation rows [WithCheckpointSigner (Some (signerFromPrivate ed priv))] = Inr s"
    and "\<And>n. year_ok (clock n)"
  shows "fst (VerifyAudit (sqlite_ops ed) (run_calls (sqlite_ops ed) cs s))"
  using assms by (rule opened_store_verifies)

lemma year_ok_epoch: "year_ok 0"
  by (simp add: year_ok_def second_def civil_of_days_def epoch_day_def days_before_def Let_def month_lengths_def leap_year_def)

theorem audit_always_verifies_witness:
  "\<exists>s. OpenSQLite empty_db (\<lambda>_. None) (\<lambda>_. 0) (\<lambda>_. F64 0) (\<lambda>_. 0) [WithCheckpointSigner (Some (signerFromPrivate demo_ed demo_priv))] = Inr s
       \<and> fst (VerifyAudit (sqlite_ops demo_ed) (run_calls (sqlite_ops demo_ed) [Append ''k'' ''d'', Append ''k'' ''e''] s))"
proof -
  obtain s where s: "OpenSQLite empty_db (\<lambda>_. None) (\<lambda>_. 0) (\<lambda>_. F64 0) (\<lambda>_. 0)
      [WithCheckpointSigner (Some (signerFromPrivate demo_ed demo_priv))] = Inr s"
    by (simp add: OpenSQLite_def exec_def fault_now_def Let_def next_tick_def set_db_def)
  from audit_always_verifies [OF demo_key.ed25519_scheme_axioms demo_key.priv_size s year_ok_epoch] s show ?thesis by blast
qed

text \<open>The append when only the query for the previous hash fails.\<close>

lemma append_lost_read:
  assumes "st_fault s = (\<lambda>n. if n = Suc (st_tick s) then Some f else None)" and "db_inv (st_db s)"
  defines "ts \<equiv> format_rfc3339 (st_clock s (st_tick s + 2))"
  shows "(\<exists>e. fst (sqlite_AppendAudit k d s) = Inr e)
         \<and> audit_entries (st_db (snd (sqlite_AppendAudit k d s))) =
             audit_entries (st_db s) @ [row_entry \<lparr>ar_seq = audit_sequence (st_db s) + 1, ar_ts = ts, ar_kind = k,
               ar_detail = d, ar_prev_hash = [], ar_hash = ChainHash ts k d []\<rparr>]"
proof -
  have f: "fault_now s = None" "fault_now (next_tick s) = Some f" "fault_now (next_tick (next_tick s)) = None"
    "fault_now (next_tick (next_tick (next_tick s))) = None"
    "fault_now (next_tick (next_tick (next_tick (next_tick s)))) = None"
    "fault_now (next_tick (next_tick (next_tick (next_tick (next_tick s))))) = None"
    using assms(1) by (simp_all add: fault_now_def)
  show ?thesis
    by (simp add: sqlite_AppendAudit_def in_tx_def query_def checkpoint_tx_def commit_tx_def exec_def f Let_def
        ts_def insert_audit_entries [OF assms(2)] split: option.splits)
qed

text \<open>C38: a failed read of the previous hash forks the chain.  \<^verbatim>\<open>AppendAudit\<close> ignores the error of
  that query and links the new entry to the empty hash: it reports success, and from then on
  the non-empty log does not verify.\<close>

theorem lost_read_forks_chain:
  assumes "st_fault s = (\<lambda>n. if n = Suc (st_tick s) then Some f else None)"
    and "audit_sound (st_signer s) (st_db s)" and "audit (st_db s) \<noteq> []"
  shows "(\<exists>e. fst (sqlite_AppendAudit k d s) = Inr e)
         \<and> \<not> fst (sqlite_VerifyAudit ed (snd (sqlite_AppendAudit k d s)))"
proof -
  let ?s' = "snd (sqlite_AppendAudit k d s)"
  have i: "db_inv (st_db s)" and v: "VerifyChain (audit_entries (st_db s))"
    using assms(2) by (simp_all add: audit_sound_def)
  note a = append_lost_read [OF assms(1) i, of k d]
  have ne: "audit_entries (st_db s) \<noteq> []" using assms(3) i by (simp add: audit_entries_def audit_in_order_id)
  then obtain es e where es: "audit_entries (st_db s) = es @ [e]" by (cases "audit_entries (st_db s)" rule: rev_cases) auto
  have "head_hash (audit_entries (st_db s)) \<noteq> []"
  proof
    assume "head_hash (audit_entries (st_db s)) = []"
    with v have "ChainHash (format_rfc3339 (ae_TS e)) (ae_Kind e) (ae_Detail e) (head_hash es) = []"
      by (simp add: es VerifyChain_snoc)
    then have "length (ChainHash (format_rfc3339 (ae_TS e)) (ae_Kind e) (ae_Detail e) (head_hash es)) = 0" by simp
    then show False by (simp add: ChainHash_def)
  qed
  then have "\<not> VerifyChain (audit_entries (st_db ?s'))"
    using a by (simp add: VerifyChain_snoc row_entry_def)
  then have "\<not> fst (sqlite_VerifyAudit ed ?s')"
    by (auto simp: sqlite_VerifyAudit_def sqlite_Audit_def loadCheckpoint_def query_rows_def query_def
        VerifyAgainstCheckpoint_def audit_entries_def split: option.splits prod.splits)
  with a show ?thesis by blast
qed

definition demo_store1 :: sqliteStore where
  "demo_store1 = snd (sqlite_AppendAudit ''k'' ''d'' (demo_store\<lparr>st_clock := \<lambda>_. 0\<rparr>))"

definition demo_lossy :: sqliteStore where
  "demo_lossy =
     demo_store1\<lparr>st_fault := \<lambda>n. if n = Suc (st_tick demo_store1) then Some (FailBefore ''interrupted'') else None\<rparr>"

theorem lost_read_forks_chain_witness:
  "\<not> fst (sqlite_VerifyAudit demo_ed (snd (sqlite_AppendAudit ''k'' ''e'' demo_lossy)))"
proof -
  let ?d = "demo_store\<lparr>st_clock := \<lambda>_. 0\<rparr>"
  have "audit_sound (st_signer ?d) (st_db ?d)" by (simp add: demo_store_def)
  then have "audit_sound (st_signer ?d) (st_db demo_store1)"
    unfolding demo_store1_def by (rule append_keeps_sound) (simp_all add: demo_store_def year_ok_epoch)
  moreover have "st_signer demo_store1 = st_signer ?d"
    using same_env_append [of ?d] by (simp add: same_env_def demo_store1_def)
  moreover have "audit (st_db demo_store1) \<noteq> []"
    by (simp add: demo_store1_def demo_store_def sqlite_AppendAudit_def in_tx_def query_def checkpoint_tx_def
        commit_tx_def exec_def fault_now_def Let_def insert_audit_def next_tick_def set_db_def)
  ultimately show ?thesis
    using lost_read_forks_chain [of demo_lossy "FailBefore ''interrupted''" "''k''" "''e''" demo_ed]
    by (simp add: demo_lossy_def)
qed

section \<open>Times compared as text\<close>

text \<open>The rows that recording the given firings leaves.\<close>

definition action_rows :: "(string \<times> time) list \<Rightarrow> (string \<times> string) list" where
  "action_rows acts = map (\<lambda>(k, t). (k, format_rfc3339 t)) acts"

lemma text_ge_bounds:
  assumes "year_ok t" "year_ok u"
  shows "u div second < t div second \<Longrightarrow> format_rfc3339 u \<le> format_rfc3339 t"
    and "format_rfc3339 u \<le> format_rfc3339 t \<Longrightarrow> u div second \<le> t div second"
proof -
  show "u div second < t div second \<Longrightarrow> format_rfc3339 u \<le> format_rfc3339 t"
    using format_rfc3339_less [OF assms(2,1)] by simp
  show "u div second \<le> t div second" if le: "format_rfc3339 u \<le> format_rfc3339 t"
  proof (rule ccontr)
    assume "\<not> u div second \<le> t div second"
    then have "format_rfc3339 t < format_rfc3339 u" by (intro format_rfc3339_less [OF assms]) simp
    with le show False by (simp add: leD)
  qed
qed

lemma filter_length_mono: "(\<And>x. x \<in> set xs \<Longrightarrow> P x \<Longrightarrow> Q x) \<Longrightarrow> length (filter P xs) \<le> length (filter Q xs)"
  by (induction xs) (auto simp: le_SucI)

text \<open>Counting firings by timestamp text is right up to one second.  The count since an instant
  is at least the number of firings in later seconds and at most the number in the same or
  later seconds, for all times within the four-digit years.\<close>

theorem count_actions_within_a_second:
  assumes "rule_actions (st_db s) = action_rows acts" and "list_all (\<lambda>(k, t). year_ok t) acts" and "year_ok since"
    and "sqlite_CountActions sha since s = (Inr n, s')"
  shows "int (length (filter (\<lambda>(k, t). k = sha \<and> since div second < t div second) acts)) \<le> n
         \<and> n \<le> int (length (filter (\<lambda>(k, t). k = sha \<and> since div second \<le> t div second) acts))"
proof -
  have n: "n = int (length (filter (\<lambda>(k, t). k = sha \<and> format_rfc3339 since \<le> format_rfc3339 t) acts))"
    using assms(4) by (auto simp: sqlite_CountActions_def query_def assms(1) action_rows_def filter_map comp_def
        case_prod_beta' split: option.splits)
  show ?thesis
    unfolding n of_nat_le_iff using assms(2,3) text_ge_bounds
    by (intro conjI filter_length_mono) (fastforce simp: list_all_iff)+
qed

theorem count_actions_within_a_second_witness:
  "\<exists>n s'. sqlite_CountActions ''r'' 0 (demo_store\<lparr>st_db := empty_db\<lparr>rule_actions := action_rows [(''r'', 0)]\<rparr>\<rparr>) = (Inr n, s') \<and> n \<le> 1"
proof -
  let ?s = "demo_store\<lparr>st_db := empty_db\<lparr>rule_actions := action_rows [(''r'', 0)]\<rparr>\<rparr>"
  obtain n s' where q: "sqlite_CountActions ''r'' 0 ?s = (Inr n, s')"
    by (simp add: sqlite_CountActions_def query_def fault_now_def demo_store_def)
  have "rule_actions (st_db ?s) = action_rows [(''r'', 0)]" by simp
  from count_actions_within_a_second [OF this _ year_ok_epoch q] q show ?thesis
    by (simp add: year_ok_epoch)
qed

text \<open>Within one second the text comparison is wrong.  A firing recorded in the course of a second
  is not counted since the start of that second, because the text of a whole second has no
  fraction and sorts after the texts that have one.\<close>

theorem count_misses_same_second:
  assumes "year_ok t" and "t mod second = 0" and "0 < f" and "f < second"
    and "rule_actions (st_db s) = action_rows [(sha, t + f)]" and "fault_now s = None"
  shows "fst (sqlite_CountActions sha t s) = Inr 0 \<and> t < t + f"
  using format_rfc3339_fraction_first [OF assms(1-4)] assms(3,5,6)
  by (simp add: sqlite_CountActions_def query_def action_rows_def leD)

theorem count_misses_same_second_witness:
  "fst (sqlite_CountActions ''r'' 0 (demo_store\<lparr>st_db := empty_db\<lparr>rule_actions := action_rows [(''r'', 0 + 500000000)]\<rparr>\<rparr>)) = Inr 0"
  using count_misses_same_second [OF year_ok_epoch, of 500000000
      "demo_store\<lparr>st_db := empty_db\<lparr>rule_actions := action_rows [(''r'', 0 + 500000000)]\<rparr>\<rparr>" "''r''"]
  by (simp add: second_def fault_now_def demo_store_def)

text \<open>A scheduled revert is found when it is due, not before, with everything that was stored.  It
  needs a free id, a due time in the four-digit years and storage without errors.\<close>

theorem revert_round_trip:
  assumes "sqlite_inv s" and "sqlite_healthy s"
    and "pr_IntentID r \<notin> rv_intent_id ` set (pending_reverts (st_db s))" and "year_ok (pr_DueAt r)"
  shows "\<exists>rs. fst (sqlite_DueReverts now (snd (sqlite_ScheduleRevert r s))) = Inr rs
              \<and> (r \<in> set rs \<longleftrightarrow> pr_DueAt r \<le> now)"
proof -
  let ?s1 = "snd (ScheduleRevert (sqlite_ops demo_ed) r s)"
  let ?d = "DueReverts (sqlite_ops demo_ed) now ?s1"
  note w = sqlite.schedule_law [OF assms(1), of r demo_ed]
  have i1: "sqlite_inv ?s1" and h1: "sqlite_healthy ?s1"
    using w assms(2) by (auto simp: write_ok_def step_ok_def)
  have "v_reverts (sqlite_view s) (pr_IntentID r) = None"
    using assms(3) by (auto simp: sqlite_view_def db_view_def map_of_eq_None_iff image_image)
  moreover have "sqlite_view ?s1 = eff_schedule r (sqlite_view s)"
    using w assms(2) by (auto simp: write_ok_def step_ok_def)
  moreover have "stored_time (pr_DueAt r) = pr_DueAt r"
    using parse_format_rfc3339 [OF assms(4)] by (simp add: stored_time_def parse_or_zero_def)
  ultimately have p: "v_reverts (sqlite_view ?s1) (pr_IntentID r) = Some r"
    by (simp add: eff_schedule_def)
  note q = sqlite.due_law [OF i1, of now demo_ed]
  obtain rs where rs: "fst ?d = Inr rs" using q h1 by (cases "fst ?d") (auto simp: read_ok_def step_ok_def)
  then have "due_spec now rs (sqlite_view ?s1)" using q by (simp add: read_ok_def)
  with p have "r \<in> set rs \<longleftrightarrow> pr_DueAt r \<le> now" by (auto simp: due_spec_def)
  with rs show ?thesis by (simp add: sqlite_ops_def)
qed

theorem revert_round_trip_witness:
  "\<exists>rs. fst (sqlite_DueReverts 5 (snd (sqlite_ScheduleRevert
          \<lparr>pr_IntentID = ''i'', pr_Kind = ''page'', pr_Target = ''t'', pr_ArgsJSON = ''{}'', pr_DueAt = 0\<rparr> demo_store))) = Inr rs
        \<and> rs \<noteq> []"
proof -
  let ?r = "\<lparr>pr_IntentID = ''i'', pr_Kind = ''page'', pr_Target = ''t'', pr_ArgsJSON = ''{}'', pr_DueAt = 0\<rparr>"
  have "pr_IntentID ?r \<notin> rv_intent_id ` set (pending_reverts (st_db demo_store))" "year_ok (pr_DueAt ?r)"
    by (simp_all add: demo_store_def empty_db_def year_ok_epoch)
  from revert_round_trip [OF demo_store_ok this, of 5] show ?thesis by fastforce
qed

end
