(* ===== verification/Ledger.thy ===== *)
theory Ledger
  imports Sqlite
begin

text \<open>
  Package \<^verbatim>\<open>ledger\<close>: pricing token usage and the spend windows that rules see as \<^verbatim>\<open>state.*\<close>.
  The ledger uses two methods of the store; the YAML decoder of the price book is a
  parameter.  Prices and costs are 64-bit floats, every operation rounded (no fused
  multiply-add).
\<close>

definition StateKeySpend1h :: string where "StateKeySpend1h = ''spend_1h_usd''"
definition StateKeySpend24h :: string where "StateKeySpend24h = ''spend_24h_usd''"

record Price =
  InputPer1K :: f64
  OutputPer1K :: f64

type_synonym PriceBook = "Price dict"

definition LoadPriceBook :: "(bytes \<Rightarrow> PriceBook option result) \<Rightarrow> bytes \<Rightarrow> PriceBook option result" where
  "LoadPriceBook yaml b = (case yaml b of Inl e \<Rightarrow> Inl e | Inr pb \<Rightarrow> Inr pb)"

record CostLedger =
  led_prices :: PriceBook

definition New_ledger :: "PriceBook option \<Rightarrow> CostLedger" where
  "New_ledger pb = \<lparr>led_prices = (case pb of None \<Rightarrow> [] | Some p \<Rightarrow> p)\<rparr>"

definition price_of :: "CostLedger \<Rightarrow> string \<Rightarrow> Price" where
  "price_of l model =
     (case map_of (led_prices l) model of None \<Rightarrow> \<lparr>InputPer1K = F64 0, OutputPer1K = F64 0\<rparr> | Some p \<Rightarrow> p)"

definition usage_cost :: "Price \<Rightarrow> int \<Rightarrow> int \<Rightarrow> f64" where
  "usage_cost p inTok outTok =
     f64_add (f64_mul (f64_div (f64_of_int inTok) (F64 1000)) (InputPer1K p))
             (f64_mul (f64_div (f64_of_int outTok) (F64 1000)) (OutputPer1K p))"

definition Record_usage ::
    "'s store_ops \<Rightarrow> CostLedger \<Rightarrow> string \<Rightarrow> string \<Rightarrow> int \<Rightarrow> int \<Rightarrow> time \<Rightarrow> 's \<Rightarrow> error option \<times> 's" where
  "Record_usage ops l tenant model inTok outTok t =
     RecordUsage ops tenant model (usage_cost (price_of l model) inTok outTok) t"

definition Spend_window :: "'s store_ops \<Rightarrow> CostLedger \<Rightarrow> string \<Rightarrow> duration \<Rightarrow> time \<Rightarrow> 's \<Rightarrow> f64 result \<times> 's" where
  "Spend_window ops l tenant window now = SpendSince ops tenant (time_add now (wrap64 (- window)))"

definition StateFor :: "'s store_ops \<Rightarrow> CostLedger \<Rightarrow> string \<Rightarrow> time \<Rightarrow> 's \<Rightarrow> any dict result \<times> 's" where
  "StateFor ops l tenant now s =
     (case SpendSince ops tenant (time_add now (- hour)) s of
        (Inl e, s1) \<Rightarrow> (Inl e, s1)
      | (Inr h, s1) \<Rightarrow>
          (case SpendSince ops tenant (time_add now (- (24 * hour))) s1 of
             (Inl e, s2) \<Rightarrow> (Inl e, s2)
           | (Inr d, s2) \<Rightarrow> (Inr [(StateKeySpend1h, AFloat h), (StateKeySpend24h, AFloat d)], s2)))"

section \<open>Lemmas\<close>

context store
begin

lemma StateFor_step:
  assumes "sinv s"
  shows "vw (snd (StateFor ops l tenant now s)) = vw s \<and> step_ok sinv healthy s True (snd (StateFor ops l tenant now s))"
proof (cases "SpendSince ops tenant (time_add now (- hour)) s")
  case (Pair r s1)
  have 1: "read_ok vw sinv healthy (\<lambda>x v. True) s (r, s1)"
    using spend_law [OF assms, of tenant "time_add now (- hour)"] by (simp add: Pair)
  then have i1: "sinv s1" by (simp add: read_ok_def step_ok_def)
  show ?thesis
  proof (cases r)
    case (Inl e)
    with 1 show ?thesis by (simp add: StateFor_def Pair read_ok_def step_ok_def)
  next
    case (Inr h)
    have 2: "read_ok vw sinv healthy (\<lambda>x v. True) s1 (SpendSince ops tenant (time_add now (- (24 * hour))) s1)"
      by (rule spend_law [OF i1])
    with 1 Inr show ?thesis
      by (auto simp: StateFor_def Pair read_ok_def step_ok_def split: sum.splits prod.splits)
  qed
qed

end

lemma tokens_per_1k_finite:
  assumes "0 \<le> n" and "n \<le> int64_max"
  shows "\<exists>v. f64_div (f64_of_int n) (F64 1000) = F64 v \<and> 0 \<le> v"
proof -
  have n: "(of_int n :: rat) \<le> 2 ^ 63"
    using assms(2) of_int_le_iff [of n "2 ^ 63", where 'a = rat] by (simp add: int64_max_def)
  then have "(of_int n :: rat) \<le> 2 ^ 1000" by (rule order_trans) (simp add: power_increasing)
  then obtain v where v: "f64_of_int n = F64 v" "0 \<le> v" "v \<le> 2 * of_int n + 1"
    using f64_round_finite [of "of_int n"] assms(1) by (auto simp: f64_of_int_def)
  have "v / 1000 \<le> 2 ^ 1000"
  proof -
    have "v / 1000 \<le> v" using v(2) by simp
    also have "\<dots> \<le> 2 * 2 ^ 63 + 1" using v(3) n by linarith
    also have "\<dots> \<le> (2 :: rat) ^ 1000" by simp
    finally show ?thesis .
  qed
  then obtain w where "f64_round (v / 1000) = F64 w" "0 \<le> w"
    using f64_round_finite [of "v / 1000"] v(2) by auto
  with v(1) show ?thesis by simp
qed

lemma usage_part_nonneg:
  assumes "0 \<le> n" "n \<le> int64_max" and "0 \<le> q"
  shows "f64_nonneg (f64_mul (f64_div (f64_of_int n) (F64 1000)) (F64 q))"
  using tokens_per_1k_finite [OF assms(1,2)] assms(3) by (auto intro!: f64_nonneg_round)

section \<open>Properties\<close>

text \<open>With finite non-negative prices, the cost recorded for non-negative token counts is never
  negative and never NaN (it can overflow to positive infinity), so a usage event cannot lower
  a spend window; a model without a price costs zero.\<close>

theorem usage_cost_nonnegative:
  assumes "0 \<le> inTok" "inTok \<le> int64_max" "0 \<le> outTok" "outTok \<le> int64_max"
    and "InputPer1K (price_of l model) = F64 p" "0 \<le> p" and "OutputPer1K (price_of l model) = F64 q" "0 \<le> q"
  shows "f64_nonneg (usage_cost (price_of l model) inTok outTok)
         \<and> (map_of (led_prices l) model = None \<longrightarrow> usage_cost (price_of l model) inTok outTok = F64 0)"
proof
  show "f64_nonneg (usage_cost (price_of l model) inTok outTok)"
    using usage_part_nonneg [OF assms(1,2,6)] usage_part_nonneg [OF assms(3,4,8)]
    by (simp only: usage_cost_def assms(5,7) f64_nonneg_add)
  obtain v w where "f64_div (f64_of_int inTok) (F64 1000) = F64 v" "f64_div (f64_of_int outTok) (F64 1000) = F64 w"
    using tokens_per_1k_finite [OF assms(1,2)] tokens_per_1k_finite [OF assms(3,4)] by blast
  then show "map_of (led_prices l) model = None \<longrightarrow> usage_cost (price_of l model) inTok outTok = F64 0"
    by (auto simp: usage_cost_def price_of_def simp del: f64_div.simps)
qed

theorem usage_cost_nonnegative_witness:
  "f64_nonneg (usage_cost (price_of (New_ledger (Some [(''m'', \<lparr>InputPer1K = F64 (1 / 4), OutputPer1K = F64 2\<rparr>)])) ''m'') 1500 20)"
  using usage_cost_nonnegative
    [of 1500 20 "New_ledger (Some [(''m'', \<lparr>InputPer1K = F64 (1 / 4), OutputPer1K = F64 2\<rparr>)])" "''m''" "1 / 4" 2]
  by (simp add: int64_max_def New_ledger_def price_of_def)

end
