(* ===== verification/Actuator.thy ===== *)
theory Actuator
  imports Core
begin

text \<open>
  Package \<^verbatim>\<open>actuator\<close>: the interface, the registry that routes an intent to the actuator of its
  kind with the fallback for unsupported kinds, and the concrete actuators.

  An actuator is a record of its methods over a state of the outside world.  The HTTP
  actuators share one world: the requests sent so far, how the peer answers the next one (a
  transport error or a status code), which URLs the HTTP library refuses, the lines of the log
  writer and the clock.  Rendering a log line as text is left to the writer.
\<close>

section \<open>The interface and the registry\<close>

type_synonym outcome = "Receipt \<times> error option"

record 'w actuator =
  Capabilities :: "ActionKind list"
  Apply :: "RemediationIntent \<Rightarrow> 'w \<Rightarrow> outcome \<times> 'w"
  Revert :: "RemediationIntent \<Rightarrow> 'w \<Rightarrow> outcome \<times> 'w"

type_synonym 'w ActRegistry = "'w actuator dict"

definition knownKind :: "ActionKind \<Rightarrow> bool" where
  "knownKind k = (k \<in> set KnownActionKinds)"

definition NewRegistry :: "'w ActRegistry" where
  "NewRegistry = []"

definition Register :: "'w ActRegistry \<Rightarrow> 'w actuator \<Rightarrow> 'w ActRegistry" where
  "Register r a = fold (\<lambda>k m. AList.update k a m) (Capabilities a) r"

definition Supports :: "'w ActRegistry \<Rightarrow> ActionKind \<Rightarrow> bool" where
  "Supports r k = (map_of r k \<noteq> None)"

fun first_registered :: "'w ActRegistry \<Rightarrow> ActionKind list \<Rightarrow> ('w actuator \<times> ActionKind) option" where
  "first_registered r [] = None"
| "first_registered r (fk # fks) =
     (case map_of r fk of Some a \<Rightarrow> Some (a, fk) | None \<Rightarrow> first_registered r fks)"

definition fallback :: "'w ActRegistry \<Rightarrow> ActionKind \<Rightarrow> ('w actuator \<times> ActionKind) option" where
  "fallback r k = (if \<not> knownKind k then None else first_registered r [ActionOpenIssue, ActionPage])"

definition degrade :: "RemediationIntent \<Rightarrow> ActionKind \<Rightarrow> RemediationIntent" where
  "degrade i fk =
     (let na = fold (\<lambda>(k, v) m. AList.update k v m) (case ri_Args i of None \<Rightarrow> [] | Some m \<Rightarrow> m) []
      in i\<lparr>ri_Kind := fk, ri_Args := Some (AList.update ''degraded_from'' (AStr (ri_Kind i)) na)\<rparr>)"

text \<open>The receipt of a failed call, and the text of a quoted kind (\<^verbatim>\<open>%q\<close> on printable text).\<close>

definition failed_receipt :: "RemediationIntent \<Rightarrow> string \<Rightarrow> Receipt" where
  "failed_receipt i name = zero_receipt\<lparr>rc_IntentID := ri_ID i, rc_Actuator := name, rc_Outcome := OutcomeFailed\<rparr>"

definition no_actuator :: "RemediationIntent \<Rightarrow> outcome" where
  "no_actuator i =
     (failed_receipt i [],
      Some (''actuator: no actuator for kind '' @ [dquote] @ ri_Kind i @ [dquote] @ '' (no fallback)''))"

definition Registry_Apply :: "'w ActRegistry \<Rightarrow> RemediationIntent \<Rightarrow> 'w \<Rightarrow> outcome \<times> 'w" where
  "Registry_Apply r i w =
     (case map_of r (ri_Kind i) of
        Some a \<Rightarrow> Apply a i w
      | None \<Rightarrow>
          (case fallback r (ri_Kind i) of
             Some (a, fk) \<Rightarrow> Apply a (degrade i fk) w
           | None \<Rightarrow> (no_actuator i, w)))"

definition Registry_Revert :: "'w ActRegistry \<Rightarrow> RemediationIntent \<Rightarrow> 'w \<Rightarrow> outcome \<times> 'w" where
  "Registry_Revert r i w =
     (case map_of r (ri_Kind i) of
        Some a \<Rightarrow> Revert a i w
      | None \<Rightarrow>
          (case fallback r (ri_Kind i) of
             Some (a, fk) \<Rightarrow> Revert a (degrade i fk) w
           | None \<Rightarrow> (no_actuator i, w)))"

definition Kinds :: "'w ActRegistry \<Rightarrow> ActionKind list" where
  "Kinds r = sort (map fst r)"

section \<open>The outside world of the HTTP actuators\<close>

record request =
  rq_method :: string
  rq_url :: string
  rq_header :: "string dict"
  rq_body :: string

datatype log_line =
    LogApply ActionKind string args
  | LogRevert ActionKind string

record World =
  w_sent :: "request list"
  w_answer :: "request list \<Rightarrow> request \<Rightarrow> int result"
  w_bad_url :: "string \<Rightarrow> error option"
  w_log :: "log_line list"
  w_clock :: "nat \<Rightarrow> time"

text \<open>The clock of the world, read after the requests sent and the lines logged so far.\<close>

definition w_now :: "World \<Rightarrow> time" where
  "w_now w = w_clock w (length (w_sent w) + length (w_log w))"

type_synonym TokenFunc = "unit \<Rightarrow> string result"

definition json_error :: error where "json_error = ''json: unsupported value''"

text \<open>Marshalling the body, building the request and sending it.\<close>

datatype send_result =
    NotSent error
  | Transport error
  | Status int

definition send :: "string \<Rightarrow> string \<Rightarrow> string dict \<Rightarrow> any \<Rightarrow> World \<Rightarrow> send_result \<times> World" where
  "send method url hdr body w =
     (case json_marshal body of
        None \<Rightarrow> (NotSent json_error, w)
      | Some buf \<Rightarrow>
          (case w_bad_url w url of
             Some e \<Rightarrow> (NotSent e, w)
           | None \<Rightarrow>
               (let rq = \<lparr>rq_method = method, rq_url = url, rq_header = hdr, rq_body = buf\<rparr>;
                    w' = w\<lparr>w_sent := w_sent w @ [rq]\<rparr>
                in case w_answer w (w_sent w) rq of
                     Inl e \<Rightarrow> (Transport e, w')
                   | Inr status \<Rightarrow> (Status status, w'))))"

definition http_error :: "int \<Rightarrow> error" where
  "http_error status = ''http '' @ int_to_dec status"

definition postJSON :: "string \<Rightarrow> string dict \<Rightarrow> any \<Rightarrow> World \<Rightarrow> error option \<times> World" where
  "postJSON url hdr body w =
     (case send ''POST'' url hdr body w of
        (NotSent e, w') \<Rightarrow> (Some e, w')
      | (Transport e, w') \<Rightarrow> (Some e, w')
      | (Status status, w') \<Rightarrow> (if status \<ge> 300 then Some (http_error status) else None, w'))"

section \<open>Gateways with a POST admin API\<close>

definition routeDest :: "RemediationIntent \<Rightarrow> bool \<Rightarrow> string" where
  "routeDest i isRevert =
     (if isRevert then ri_Target i
      else case as_string (args_get (ri_Args i) ''to'') of Some to \<Rightarrow> to | None \<Rightarrow> ri_Target i)"

type_synonym requestFn = "RemediationIntent \<Rightarrow> bool \<Rightarrow> string \<times> any"

record httpRouteActuator =
  hr_name :: string
  hr_baseURL :: string
  hr_token :: TokenFunc
  hr_caps :: "ActionKind list"
  hr_build :: requestFn

definition http_do :: "httpRouteActuator \<Rightarrow> RemediationIntent \<Rightarrow> bool \<Rightarrow> World \<Rightarrow> error option \<times> World" where
  "http_do a i isRevert w =
     (case hr_token a () of
        Inl e \<Rightarrow> (Some e, w)
      | Inr tok \<Rightarrow>
          (let (path, body) = hr_build a i isRevert;
               hdr = [(''Authorization'', ''Bearer '' @ tok), (''Content-Type'', ''application/json'')]
           in case postJSON (hr_baseURL a @ path) hdr body w of
                (Some e, w') \<Rightarrow> (Some (hr_name a @ '': '' @ e), w')
              | (None, w') \<Rightarrow> (None, w')))"

definition arg_string :: "RemediationIntent \<Rightarrow> string \<Rightarrow> string" where
  "arg_string i k = (case as_string (args_get (ri_Args i) k) of Some s \<Rightarrow> s | None \<Rightarrow> [])"

definition applied_receipt :: "RemediationIntent \<Rightarrow> string \<Rightarrow> time \<Rightarrow> Receipt" where
  "applied_receipt i name t =
     zero_receipt\<lparr>rc_IntentID := ri_ID i, rc_Actuator := name, rc_AppliedAt := t, rc_Outcome := OutcomeApplied\<rparr>"

definition reverted_receipt :: "RemediationIntent \<Rightarrow> string \<Rightarrow> time \<Rightarrow> Receipt" where
  "reverted_receipt i name t =
     zero_receipt\<lparr>rc_IntentID := ri_ID i, rc_Actuator := name, rc_AppliedAt := t, rc_Outcome := OutcomeReverted\<rparr>"

definition http_Apply :: "httpRouteActuator \<Rightarrow> RemediationIntent \<Rightarrow> World \<Rightarrow> outcome \<times> World" where
  "http_Apply a i w =
     (case http_do a i False w of
        (Some e, w') \<Rightarrow> ((failed_receipt i (hr_name a), Some e), w')
      | (None, w') \<Rightarrow>
          (((applied_receipt i (hr_name a) (w_now w'))
              \<lparr>rc_Before := AStr (ri_Target i), rc_After := AStr (arg_string i ''to'')\<rparr>, None), w'))"

definition http_Revert :: "httpRouteActuator \<Rightarrow> RemediationIntent \<Rightarrow> World \<Rightarrow> outcome \<times> World" where
  "http_Revert a i w =
     (case http_do a i True w of
        (Some e, w') \<Rightarrow> ((failed_receipt i (hr_name a), Some e), w')
      | (None, w') \<Rightarrow> ((reverted_receipt i (hr_name a) (w_now w'), None), w'))"

definition newHTTPRoute :: "string \<Rightarrow> string \<Rightarrow> TokenFunc \<Rightarrow> ActionKind list \<Rightarrow> requestFn \<Rightarrow> World actuator" where
  "newHTTPRoute name baseURL token caps build =
     (let a = \<lparr>hr_name = name, hr_baseURL = baseURL, hr_token = token, hr_caps = caps, hr_build = build\<rparr>
      in \<lparr>Capabilities = caps, Apply = http_Apply a, Revert = http_Revert a\<rparr>)"

definition litellm_request :: requestFn where
  "litellm_request i isRevert =
     (if ri_Kind i = ActionThrottleTenant then
        (''/key/update'', AMap [(''key'', AStr (ri_Target i)), (''rpm_limit'', AInt (if isRevert then -1 else 0))])
      else if ri_Kind i = ActionDisableDeployment then
        (''/model/update'',
         AMap [(''model_name'', AStr (ri_Target i)), (''model_info'', AMap [(''disabled'', ABool (\<not> isRevert))])])
      else
        (''/model/update'',
         AMap [(''model_name'', AStr (ri_Target i)), (''litellm_params'', AMap [(''model'', AStr (routeDest i isRevert))]),
               (''model_info'', AMap [])]))"

definition NewLiteLLM :: "string \<Rightarrow> TokenFunc \<Rightarrow> World actuator" where
  "NewLiteLLM baseURL token =
     newHTTPRoute ''litellm'' baseURL token
       [ActionRouteOverride, ActionThrottleTenant, ActionDisableDeployment] litellm_request"

definition simple_route :: "string \<Rightarrow> requestFn" where
  "simple_route path i isRevert = (path, AMap [(''model'', AStr (ri_Target i)), (''to'', AStr (routeDest i isRevert))])"

definition NewBifrost :: "string \<Rightarrow> TokenFunc \<Rightarrow> World actuator" where
  "NewBifrost baseURL token =
     newHTTPRoute ''bifrost'' baseURL token [ActionRouteOverride] (simple_route ''/api/route/override'')"

definition NewEnvoy :: "string \<Rightarrow> TokenFunc \<Rightarrow> World actuator" where
  "NewEnvoy baseURL token =
     newHTTPRoute ''envoy'' baseURL token [ActionRouteOverride] (simple_route ''/admin/routes/override'')"

definition NewWebhook :: "string \<Rightarrow> TokenFunc \<Rightarrow> World actuator" where
  "NewWebhook baseURL token =
     newHTTPRoute ''webhook'' baseURL token [ActionRouteOverride] (simple_route ''/route'')"

section \<open>Gateways with a PUT admin API\<close>

text \<open>
  The two PUT adapters differ from each other in the body, in the header that carries the
  token and in the receipt; a transport error and a bad status carry the adapter's name, a
  request that cannot be built does not.
\<close>

definition put_request ::
    "string \<Rightarrow> string \<Rightarrow> TokenFunc \<Rightarrow> (string \<Rightarrow> string dict) \<Rightarrow> any \<Rightarrow> RemediationIntent \<Rightarrow> World \<Rightarrow> error option \<times> World" where
  "put_request name baseURL token hdr body i w =
     (case token () of
        Inl e \<Rightarrow> (Some e, w)
      | Inr tok \<Rightarrow>
          (case send ''PUT'' (baseURL @ ''/'' @ ri_Target i) (hdr tok) body w of
             (NotSent e, w') \<Rightarrow> (Some e, w')
           | (Transport e, w') \<Rightarrow> (Some (name @ '': '' @ e), w')
           | (Status status, w') \<Rightarrow>
               (if status \<ge> 300 then Some (name @ '': '' @ http_error status) else None, w')))"

definition defaultCloudflareLimit :: int where "defaultCloudflareLimit = 1000"

definition cloudflareBody :: "RemediationIntent \<Rightarrow> bool \<Rightarrow> any" where
  "cloudflareBody i isRevert =
     (let limit = (if isRevert then
                     (case args_get (ri_Args i) ''prior_limit'' of
                        Some (AInt v) \<Rightarrow> v
                      | Some (AFloat v) \<Rightarrow> f64_to_int v
                      | _ \<Rightarrow> defaultCloudflareLimit)
                   else 0)
      in AMap [(''rate_limiting_limit'', AInt limit), (''rate_limiting_interval'', AInt 60),
               (''rate_limiting_technique'', AStr ''fixed'')])"

definition bearer_header :: "string \<Rightarrow> string dict" where
  "bearer_header tok = [(''Authorization'', ''Bearer '' @ tok), (''Content-Type'', ''application/json'')]"

definition cloudflare_put :: "string \<Rightarrow> TokenFunc \<Rightarrow> RemediationIntent \<Rightarrow> bool \<Rightarrow> World \<Rightarrow> error option \<times> World" where
  "cloudflare_put baseURL token i isRevert =
     put_request ''cloudflare'' baseURL token bearer_header (cloudflareBody i isRevert) i"

definition cloudflare_Apply :: "string \<Rightarrow> TokenFunc \<Rightarrow> RemediationIntent \<Rightarrow> World \<Rightarrow> outcome \<times> World" where
  "cloudflare_Apply baseURL token i w =
     (case cloudflare_put baseURL token i False w of
        (Some e, w') \<Rightarrow> ((failed_receipt i ''cloudflare'', Some e), w')
      | (None, w') \<Rightarrow>
          (((applied_receipt i ''cloudflare'' (w_now w'))
              \<lparr>rc_Before := AStr (ri_Target i), rc_After := AStr (ri_Target i)\<rparr>, None), w'))"

definition cloudflare_Revert :: "string \<Rightarrow> TokenFunc \<Rightarrow> RemediationIntent \<Rightarrow> World \<Rightarrow> outcome \<times> World" where
  "cloudflare_Revert baseURL token i w =
     (case cloudflare_put baseURL token i True w of
        (Some e, w') \<Rightarrow> ((failed_receipt i ''cloudflare'', Some e), w')
      | (None, w') \<Rightarrow> ((reverted_receipt i ''cloudflare'' (w_now w'), None), w'))"

definition NewCloudflare :: "string \<Rightarrow> TokenFunc \<Rightarrow> World actuator" where
  "NewCloudflare baseURL token =
     \<lparr>Capabilities = [ActionThrottleTenant, ActionDisableDeployment],
      Apply = cloudflare_Apply baseURL token, Revert = cloudflare_Revert baseURL token\<rparr>"

definition portkeyStatusActive :: string where "portkeyStatusActive = ''active''"
definition portkeyStatusInactive :: string where "portkeyStatusInactive = ''inactive''"

definition portkeyBody :: "RemediationIntent \<Rightarrow> bool \<Rightarrow> any" where
  "portkeyBody i isRevert =
     (if isRevert then
        AMap ((''status'', AStr portkeyStatusActive) #
          (case args_get (ri_Args i) ''prior_config'' of Some (AMap pc) \<Rightarrow> [(''config'', AMap pc)] | _ \<Rightarrow> []))
      else
        AMap [(''status'', AStr portkeyStatusInactive),
              (''config'',
               AMap [(''strategy'', AMap [(''mode'', AStr ''single'')]),
                     (''targets'',
                      AList [AMap [(''override_params'', AMap [(''model'', AStr (arg_string i ''to''))])]])])])"

definition portkey_header :: "string \<Rightarrow> string dict" where
  "portkey_header tok = [(''x-portkey-api-key'', tok), (''Content-Type'', ''application/json'')]"

definition portkey_put :: "string \<Rightarrow> TokenFunc \<Rightarrow> RemediationIntent \<Rightarrow> bool \<Rightarrow> World \<Rightarrow> error option \<times> World" where
  "portkey_put baseURL token i isRevert =
     put_request ''portkey'' baseURL token portkey_header (portkeyBody i isRevert) i"

definition portkey_Apply :: "string \<Rightarrow> TokenFunc \<Rightarrow> RemediationIntent \<Rightarrow> World \<Rightarrow> outcome \<times> World" where
  "portkey_Apply baseURL token i w =
     (case portkey_put baseURL token i False w of
        (Some e, w') \<Rightarrow> ((failed_receipt i ''portkey'', Some e), w')
      | (None, w') \<Rightarrow>
          (((applied_receipt i ''portkey'' (w_now w'))
              \<lparr>rc_Before := AStr (ri_Target i), rc_After := AStr (arg_string i ''to'')\<rparr>, None), w'))"

definition portkey_Revert :: "string \<Rightarrow> TokenFunc \<Rightarrow> RemediationIntent \<Rightarrow> World \<Rightarrow> outcome \<times> World" where
  "portkey_Revert baseURL token i w =
     (case portkey_put baseURL token i True w of
        (Some e, w') \<Rightarrow> ((failed_receipt i ''portkey'', Some e), w')
      | (None, w') \<Rightarrow> ((reverted_receipt i ''portkey'' (w_now w'), None), w'))"

definition NewPortkey :: "string \<Rightarrow> TokenFunc \<Rightarrow> World actuator" where
  "NewPortkey baseURL token =
     \<lparr>Capabilities = [ActionRouteOverride, ActionDisableDeployment],
      Apply = portkey_Apply baseURL token, Revert = portkey_Revert baseURL token\<rparr>"

section \<open>Notifiers\<close>

definition github_Apply :: "string \<Rightarrow> TokenFunc \<Rightarrow> RemediationIntent \<Rightarrow> World \<Rightarrow> outcome \<times> World" where
  "github_Apply baseURL token i w =
     (case token () of
        Inl e \<Rightarrow> ((failed_receipt i ''github'', Some e), w)
      | Inr tok \<Rightarrow>
          (let payload =
             AMap [(''title'', AStr (''Sloppy Joe: auto-mitigation for '' @ ri_Target i)),
                   (''body'', AStr (''Automated remediation fired.'' @ [CHR 0x0A, CHR 0x0A] @ ''Intent: '' @ [CHR 0x60] @
                      ri_ID i @ [CHR 0x60, CHR 0x0A] @ ''Rule SHA: '' @ [CHR 0x60] @ ri_RuleSHA i @ [CHR 0x60]))];
               hdr = [(''Authorization'', ''Bearer '' @ tok), (''Accept'', ''application/vnd.github+json'')]
           in case postJSON (baseURL @ ''/repos/'' @ arg_string i ''repo'' @ ''/issues'') hdr payload w of
                (Some e, w') \<Rightarrow> ((failed_receipt i ''github'', Some e), w')
              | (None, w') \<Rightarrow> ((applied_receipt i ''github'' (w_now w'), None), w')))"

definition NewGitHub :: "string \<Rightarrow> TokenFunc \<Rightarrow> World actuator" where
  "NewGitHub baseURL token =
     \<lparr>Capabilities = [ActionOpenIssue], Apply = github_Apply baseURL token,
      Revert = (\<lambda>i w. ((reverted_receipt i ''github'' zero_time, None), w))\<rparr>"

text \<open>The sandwich character of the message, in UTF-8.\<close>

definition sandwich :: string where
  "sandwich = map char_of [0xF0, 0x9F, 0xA5, 0xAA :: nat]"

definition slack_Apply :: "TokenFunc \<Rightarrow> RemediationIntent \<Rightarrow> World \<Rightarrow> outcome \<times> World" where
  "slack_Apply token i w =
     (case token () of
        Inl e \<Rightarrow> ((failed_receipt i ''slack'', Some e), w)
      | Inr webhook \<Rightarrow>
          (let payload =
             AMap [(''text'', AStr (sandwich @ '' Sloppy Joe fired '' @ ri_Kind i @ '' on '' @ ri_Target i @ '' ('' @
                     arg_string i ''slack'' @ '')''))]
           in case postJSON webhook [(''Content-Type'', ''application/json'')] payload w of
                (Some e, w') \<Rightarrow> ((failed_receipt i ''slack'', Some e), w')
              | (None, w') \<Rightarrow> ((applied_receipt i ''slack'' (w_now w'), None), w')))"

definition NewSlack :: "TokenFunc \<Rightarrow> World actuator" where
  "NewSlack token =
     \<lparr>Capabilities = [ActionPage], Apply = slack_Apply token,
      Revert = (\<lambda>i w. ((reverted_receipt i ''slack'' zero_time, None), w))\<rparr>"

section \<open>Log and Fake\<close>

definition log_Apply :: "RemediationIntent \<Rightarrow> World \<Rightarrow> outcome \<times> World" where
  "log_Apply i w =
     (let w' = w\<lparr>w_log := w_log w @ [LogApply (ri_Kind i) (ri_Target i) (ri_Args i)]\<rparr>
      in ((applied_receipt i ''log'' (w_now w'), None), w'))"

definition log_Revert :: "RemediationIntent \<Rightarrow> World \<Rightarrow> outcome \<times> World" where
  "log_Revert i w =
     (let w' = w\<lparr>w_log := w_log w @ [LogRevert (ri_Kind i) (ri_Target i)]\<rparr>
      in ((reverted_receipt i ''log'' zero_time, None), w'))"

definition Log :: "World actuator" where
  "Log =
     \<lparr>Capabilities = [ActionRouteOverride, ActionOpenIssue, ActionPage, ActionThrottleTenant, ActionDisableDeployment],
      Apply = log_Apply, Revert = log_Revert\<rparr>"

record Fake =
  fk_Applied :: int
  fk_Reverted :: int
  fk_ApplyErr :: "error option"
  fk_RevertErr :: "error option"

definition fake_Apply :: "RemediationIntent \<Rightarrow> Fake \<Rightarrow> outcome \<times> Fake" where
  "fake_Apply i f =
     (let f' = f\<lparr>fk_Applied := wrap64 (fk_Applied f + 1)\<rparr>
      in case fk_ApplyErr f of
           Some e \<Rightarrow> ((failed_receipt i ''fake'', Some e), f')
         | None \<Rightarrow> ((applied_receipt i ''fake'' zero_time, None), f'))"

definition fake_Revert :: "RemediationIntent \<Rightarrow> Fake \<Rightarrow> outcome \<times> Fake" where
  "fake_Revert i f =
     (let f' = f\<lparr>fk_Reverted := wrap64 (fk_Reverted f + 1)\<rparr>
      in case fk_RevertErr f of
           Some e \<Rightarrow> ((failed_receipt i ''fake'', Some e), f')
         | None \<Rightarrow> ((reverted_receipt i ''fake'' zero_time, None), f'))"

definition fake_actuator :: "Fake actuator" where
  "fake_actuator =
     \<lparr>Capabilities = [ActionRouteOverride, ActionOpenIssue, ActionPage, ActionThrottleTenant, ActionDisableDeployment],
      Apply = fake_Apply, Revert = fake_Revert\<rparr>"

section \<open>Conformance\<close>

text \<open>The published conformance test: whether it passes, and the world it leaves.\<close>

fun conformance_kinds :: "'w actuator \<Rightarrow> RemediationIntent \<Rightarrow> ActionKind list \<Rightarrow> 'w \<Rightarrow> bool \<times> 'w" where
  "conformance_kinds a sample [] w = (True, w)"
| "conformance_kinds a sample (k # ks) w =
     (let s = sample\<lparr>ri_Kind := k\<rparr>;
          ((rc, err), w1) = Apply a s w
      in if err \<noteq> None \<or> rc_Outcome rc \<noteq> OutcomeApplied \<or> rc_IntentID rc \<noteq> ri_ID s then (False, w1)
         else (let ((rv, err'), w2) = Revert a s w1
               in if err' \<noteq> None \<or> rc_Outcome rv \<noteq> OutcomeReverted then (False, w2)
                  else conformance_kinds a sample ks w2))"

definition Conformance :: "'w actuator \<Rightarrow> RemediationIntent \<Rightarrow> 'w \<Rightarrow> bool \<times> 'w" where
  "Conformance a sample w =
     (if Capabilities a = [] then (False, w) else conformance_kinds a sample (Capabilities a) w)"

section \<open>The contract of receipts\<close>

text \<open>
  A receipt carries the id of its intent, says \<^verbatim>\<open>failed\<close> exactly when there is an error, and
  otherwise the outcome the call is for.  Every actuator of the package keeps this contract,
  and so does a registry of actuators that do.
\<close>

definition receipt_ok :: "string \<Rightarrow> RemediationIntent \<Rightarrow> outcome \<Rightarrow> bool" where
  "receipt_ok good i r \<longleftrightarrow>
     rc_IntentID (fst r) = ri_ID i \<and> rc_Outcome (fst r) = (if snd r = None then good else OutcomeFailed)"

lemma receipt_ok_simps [simp]:
  "receipt_ok good i (failed_receipt i n, Some e)"
  "receipt_ok OutcomeApplied i (applied_receipt i n t, None)"
  "receipt_ok OutcomeApplied i ((applied_receipt i n t)\<lparr>rc_Before := b, rc_After := a\<rparr>, None)"
  "receipt_ok OutcomeReverted i (reverted_receipt i n t, None)"
  "receipt_ok good i (no_actuator i)"
  by (simp_all add: receipt_ok_def failed_receipt_def applied_receipt_def reverted_receipt_def no_actuator_def)

locale actuator_contract =
  fixes a :: "'w actuator"
  assumes apply_receipt: "receipt_ok OutcomeApplied i (fst (Apply a i w))"
    and revert_receipt: "receipt_ok OutcomeReverted i (fst (Revert a i w))"
begin

text \<open>An actuator that keeps the contract and never fails passes the conformance test.\<close>

lemma conformance_kinds_pass:
  assumes "\<And>i w. snd (fst (Apply a i w)) = None" and "\<And>i w. snd (fst (Revert a i w)) = None"
  shows "fst (conformance_kinds a sample ks w)"
proof (induction ks arbitrary: w)
  case (Cons k ks)
  let ?s = "sample\<lparr>ri_Kind := k\<rparr>"
  have "rc_IntentID (fst (fst (Apply a ?s w))) = ri_ID sample" "rc_Outcome (fst (fst (Apply a ?s w))) = OutcomeApplied"
    "rc_Outcome (fst (fst (Revert a ?s w'))) = OutcomeReverted" for w w'
    using apply_receipt [of ?s w] revert_receipt [of ?s w'] assms by (simp_all add: receipt_ok_def)
  with Cons assms show ?case by (simp add: case_prod_beta Let_def)
qed simp

lemma conformance_pass:
  assumes "Capabilities a \<noteq> []" and "\<And>i w. snd (fst (Apply a i w)) = None" and "\<And>i w. snd (fst (Revert a i w)) = None"
  shows "fst (Conformance a sample w)"
  using assms(1) conformance_kinds_pass [OF assms(2,3)] by (simp add: Conformance_def)

end

lemma newHTTPRoute_contract: "actuator_contract (newHTTPRoute name baseURL token caps build)"
  by unfold_locales
     (auto simp: newHTTPRoute_def http_Apply_def http_Revert_def Let_def split: prod.splits option.splits)

interpretation litellm: actuator_contract "NewLiteLLM baseURL token"
  unfolding NewLiteLLM_def by (rule newHTTPRoute_contract)

interpretation bifrost: actuator_contract "NewBifrost baseURL token"
  unfolding NewBifrost_def by (rule newHTTPRoute_contract)

interpretation envoy: actuator_contract "NewEnvoy baseURL token"
  unfolding NewEnvoy_def by (rule newHTTPRoute_contract)

interpretation webhook: actuator_contract "NewWebhook baseURL token"
  unfolding NewWebhook_def by (rule newHTTPRoute_contract)

interpretation cloudflare: actuator_contract "NewCloudflare baseURL token"
  by unfold_locales
     (auto simp: NewCloudflare_def cloudflare_Apply_def cloudflare_Revert_def split: prod.splits option.splits)

interpretation portkey: actuator_contract "NewPortkey baseURL token"
  by unfold_locales
     (auto simp: NewPortkey_def portkey_Apply_def portkey_Revert_def split: prod.splits option.splits)

interpretation github: actuator_contract "NewGitHub baseURL token"
  by unfold_locales
     (auto simp: NewGitHub_def github_Apply_def Let_def split: prod.splits option.splits sum.splits)

interpretation slack: actuator_contract "NewSlack token"
  by unfold_locales
     (auto simp: NewSlack_def slack_Apply_def Let_def split: prod.splits option.splits sum.splits)

interpretation log_writer: actuator_contract Log
  by unfold_locales (auto simp: Log_def log_Apply_def log_Revert_def Let_def)

interpretation fake: actuator_contract fake_actuator
  by unfold_locales (auto simp: fake_actuator_def fake_Apply_def fake_Revert_def Let_def split: option.splits)

section \<open>The registry\<close>

lemma map_of_Register:
  "map_of (Register r a) k = (if k \<in> set (Capabilities a) then Some a else map_of r k)"
proof -
  have "map_of (fold (\<lambda>k m. AList.update k a m) ks r) k = (if k \<in> set ks then Some a else map_of r k)" for ks
    by (induction ks arbitrary: r) auto
  then show ?thesis by (simp add: Register_def)
qed

lemma distinct_keys_Register: "distinct_keys r \<Longrightarrow> distinct_keys (Register r a)"
proof -
  have "distinct_keys m \<Longrightarrow> distinct_keys (fold (\<lambda>k m. AList.update k a m) ks m)" for ks m
    by (induction ks arbitrary: m) auto
  then show "distinct_keys r \<Longrightarrow> distinct_keys (Register r a)" by (simp add: Register_def)
qed

text \<open>A registry of actuators that keep the contract.\<close>

definition registry_contract :: "'w ActRegistry \<Rightarrow> bool" where
  "registry_contract r \<longleftrightarrow> (\<forall>k a. map_of r k = Some a \<longrightarrow> actuator_contract a)"

lemma registry_contract_New: "registry_contract NewRegistry"
  by (simp add: registry_contract_def NewRegistry_def)

lemma registry_contract_Register: "registry_contract r \<Longrightarrow> actuator_contract a \<Longrightarrow> registry_contract (Register r a)"
  by (auto simp: registry_contract_def map_of_Register)

lemma fallback_registered: "fallback r k = Some (a, fk) \<Longrightarrow> map_of r fk = Some a"
  by (auto simp: fallback_def split: if_splits option.splits)

lemma degrade_id [simp]: "ri_ID (degrade i fk) = ri_ID i" "ri_Target (degrade i fk) = ri_Target i" "ri_Kind (degrade i fk) = fk"
  by (simp_all add: degrade_def Let_def)

lemma receipt_ok_degrade [simp]: "receipt_ok good (degrade i fk) r = receipt_ok good i r"
  by (simp add: receipt_ok_def)

lemma registry_receipts:
  assumes "registry_contract r"
  shows "receipt_ok OutcomeApplied i (fst (Registry_Apply r i w))"
    and "receipt_ok OutcomeReverted i (fst (Registry_Revert r i w))"
proof -
  have c: "actuator_contract a" if "map_of r k = Some a" for a k using assms that by (auto simp: registry_contract_def)
  note ap = actuator_contract.apply_receipt [OF c] and rv = actuator_contract.revert_receipt [OF c]
  show "receipt_ok OutcomeApplied i (fst (Registry_Apply r i w))"
  proof (cases "map_of r (ri_Kind i)")
    case (Some a)
    then show ?thesis by (simp add: Registry_Apply_def ap)
  next
    case None
    then show ?thesis using ap [OF fallback_registered]
      by (cases "fallback r (ri_Kind i)") (auto simp: Registry_Apply_def, metis receipt_ok_degrade)
  qed
  show "receipt_ok OutcomeReverted i (fst (Registry_Revert r i w))"
  proof (cases "map_of r (ri_Kind i)")
    case (Some a)
    then show ?thesis by (simp add: Registry_Revert_def rv)
  next
    case None
    then show ?thesis using rv [OF fallback_registered]
      by (cases "fallback r (ri_Kind i)") (auto simp: Registry_Revert_def, metis receipt_ok_degrade)
  qed
qed

lemma args_get_degrade:
  assumes "case ri_Args i of None \<Rightarrow> True | Some m \<Rightarrow> distinct_keys m"
  shows "args_get (ri_Args (degrade i fk)) k =
     (if k = ''degraded_from'' then Some (AStr (ri_Kind i)) else args_get (ri_Args i) k)"
  using assms by (auto simp: degrade_def args_get_def Let_def map_of_fold_update split: option.splits)

section \<open>Properties\<close>

text \<open>Receipts can be trusted through the registry.  Whatever the kind, supported, degraded or
  refused, the receipt of an apply or a revert carries the id of the original intent, and its
  outcome is \<^verbatim>\<open>failed\<close> exactly when an error is returned; this holds for every registry made of
  actuators that keep the receipt contract, which all actuators of the package do.\<close>

theorem registry_receipt_contract:
  assumes "registry_contract r"
  shows "receipt_ok OutcomeApplied i (fst (Registry_Apply r i w))
         \<and> receipt_ok OutcomeReverted i (fst (Registry_Revert r i w))"
  using registry_receipts [OF assms] by simp

definition demo_world :: World where
  "demo_world =
     \<lparr>w_sent = [], w_answer = (\<lambda>_ _. Inr 500), w_bad_url = (\<lambda>_. None), w_log = [], w_clock = (\<lambda>_. 0)\<rparr>"

theorem registry_receipt_contract_witness:
  "receipt_ok OutcomeApplied zero_intent
     (fst (Registry_Apply (Register (Register NewRegistry Log) (NewSlack (\<lambda>_. Inl ''no token''))) zero_intent demo_world))"
proof -
  have "registry_contract (Register (Register NewRegistry Log) (NewSlack (\<lambda>_. Inl ''no token'')))"
    by (intro registry_contract_Register registry_contract_New log_writer.actuator_contract_axioms
        slack.actuator_contract_axioms)
  from registry_receipt_contract [OF this] show ?thesis by blast
qed

text \<open>A known kind without an actuator is escalated, not dropped.  If an issue or a page actuator is
  registered, the intent goes to the issue actuator, else to the page actuator, with its id
  and target unchanged, the fallback kind, the original kind recorded, and every other
  argument kept.\<close>

theorem unsupported_kind_escalates:
  assumes "IsKnownActionKind (ri_Kind i)" and "\<not> Supports r (ri_Kind i)"
    and "Supports r ActionOpenIssue \<or> Supports r ActionPage"
    and "case ri_Args i of None \<Rightarrow> True | Some m \<Rightarrow> distinct_keys m"
  defines "fk \<equiv> if Supports r ActionOpenIssue then ActionOpenIssue else ActionPage"
  shows "\<exists>a. map_of r fk = Some a
            \<and> Registry_Apply r i w = Apply a (degrade i fk) w \<and> Registry_Revert r i w = Revert a (degrade i fk) w
            \<and> ri_ID (degrade i fk) = ri_ID i \<and> ri_Target (degrade i fk) = ri_Target i \<and> ri_Kind (degrade i fk) = fk
            \<and> args_get (ri_Args (degrade i fk)) ''degraded_from'' = Some (AStr (ri_Kind i))
            \<and> (k \<noteq> ''degraded_from'' \<longrightarrow> args_get (ri_Args (degrade i fk)) k = args_get (ri_Args i) k)"
proof -
  have "map_of r (ri_Kind i) = None" "knownKind (ri_Kind i)"
    using assms(1,2) by (auto simp: Supports_def knownKind_def IsKnownActionKind_iff)
  moreover from assms(3) obtain a where "map_of r fk = Some a" "fallback r (ri_Kind i) = Some (a, fk)"
    using \<open>knownKind (ri_Kind i)\<close>
    by (cases "map_of r ActionOpenIssue"; cases "map_of r ActionPage")
       (auto simp: fk_def fallback_def Supports_def)
  ultimately show ?thesis
    using args_get_degrade [OF assms(4)] by (auto simp: Registry_Apply_def Registry_Revert_def)
qed

theorem unsupported_kind_escalates_witness:
  "\<exists>a. map_of (Register NewRegistry (NewSlack (\<lambda>_. Inr ''http://hook''))) ActionPage = Some a
      \<and> Registry_Apply (Register NewRegistry (NewSlack (\<lambda>_. Inr ''http://hook'')))
          (zero_intent\<lparr>ri_Kind := ActionThrottleTenant\<rparr>) demo_world
        = Apply a (degrade (zero_intent\<lparr>ri_Kind := ActionThrottleTenant\<rparr>) ActionPage) demo_world"
proof -
  let ?r = "Register NewRegistry (NewSlack (\<lambda>_. Inr ''http://hook''))" and ?i = "zero_intent\<lparr>ri_Kind := ActionThrottleTenant\<rparr>"
  have h: "IsKnownActionKind (ri_Kind ?i)" "\<not> Supports ?r (ri_Kind ?i)" "Supports ?r ActionOpenIssue \<or> Supports ?r ActionPage"
    "case ri_Args ?i of None \<Rightarrow> True | Some m \<Rightarrow> distinct_keys m" "\<not> Supports ?r ActionOpenIssue"
    by (simp_all add: IsKnownActionKind_iff KnownActionKinds_def Supports_def map_of_Register NewSlack_def NewRegistry_def
        action_kind_defs zero_intent_def)
  from unsupported_kind_escalates [OF h(1-4), of demo_world "[]"] h(5) show ?thesis by auto
qed

text \<open>The built-in actuators for demonstration and for tests pass the published conformance test on
  every sample intent and in every state (the test actuator when it injects no error).\<close>

theorem builtin_actuators_conform:
  assumes "fk_ApplyErr f = None" and "fk_RevertErr f = None"
  shows "fst (Conformance Log sample w) \<and> fst (Conformance fake_actuator sample f)"
proof
  show "fst (Conformance Log sample w)"
    by (rule log_writer.conformance_pass) (simp_all add: Log_def log_Apply_def log_Revert_def Let_def)
  have run: "fst (conformance_kinds fake_actuator sample ks g)" if "fk_ApplyErr g = None" "fk_RevertErr g = None" for ks g
    using that
  proof (induction ks arbitrary: g)
    case (Cons k ks)
    have "Apply fake_actuator = fake_Apply" "Revert fake_actuator = fake_Revert" by (simp_all add: fake_actuator_def)
    with Cons show ?case
      by (simp add: fake_Apply_def fake_Revert_def applied_receipt_def reverted_receipt_def Let_def)
  qed simp
  have "Capabilities fake_actuator \<noteq> []" by (simp add: fake_actuator_def)
  with run [OF assms] show "fst (Conformance fake_actuator sample f)" unfolding Conformance_def by simp
qed

theorem builtin_actuators_conform_witness:
  "fst (Conformance fake_actuator zero_intent \<lparr>fk_Applied = 0, fk_Reverted = 0, fk_ApplyErr = None, fk_RevertErr = None\<rparr>)"
  using builtin_actuators_conform
    [of "\<lparr>fk_Applied = 0, fk_Reverted = 0, fk_ApplyErr = None, fk_RevertErr = None\<rparr>" zero_intent demo_world] by simp

end
