(* ===== verification/Metrics.thy ===== *)
theory Metrics
  imports Prelude
begin

text \<open>
  Package \<^verbatim>\<open>metrics\<close>: the registry of named 64-bit counters.  A method called on a nil
  \<^verbatim>\<open>*Registry\<close> is legal Go and handled by the code, so a registry is optional here, and so is
  the map inside it (the zero value of the struct has a nil map).  The mutex serialises the
  operations, each of which is one step.  The lemmas: a sequence of additions leaves in every
  counter the wrapped sum of its increments, and a snapshot has the contents of the registry
  whatever buffer it is written to.
\<close>

record Registry =
  reg_m :: "int dict option"

type_synonym registry_ptr = "Registry option"

definition New_metrics :: registry_ptr where
  "New_metrics = Some \<lparr>reg_m = Some []\<rparr>"

text \<open>A Go map read: a nil map and an absent key give the zero value.\<close>

definition counter_of :: "int dict option \<Rightarrow> string \<Rightarrow> int" where
  "counter_of m name =
     (case m of None \<Rightarrow> 0 | Some d \<Rightarrow> (case map_of d name of None \<Rightarrow> 0 | Some v \<Rightarrow> v))"

definition Add :: "registry_ptr \<Rightarrow> string \<Rightarrow> int \<Rightarrow> registry_ptr" where
  "Add r name n =
     (case r of
        None \<Rightarrow> None
      | Some reg \<Rightarrow>
          (let m = (case reg_m reg of None \<Rightarrow> [] | Some d \<Rightarrow> d)
           in Some (reg\<lparr>reg_m := Some (AList.update name (wrap64 (counter_of (Some m) name + n)) m)\<rparr>)))"

definition Inc :: "registry_ptr \<Rightarrow> string \<Rightarrow> registry_ptr" where
  "Inc r name = Add r name 1"

definition Get :: "registry_ptr \<Rightarrow> string \<Rightarrow> int" where
  "Get r name = (case r of None \<Rightarrow> 0 | Some reg \<Rightarrow> counter_of (reg_m reg) name)"

text \<open>The loop that deletes every key of the buffer, and the loop that copies the counters.\<close>

definition clear_all :: "int dict \<Rightarrow> int dict" where
  "clear_all dst = fold (\<lambda>(k, _) d. AList.delete k d) dst dst"

definition SnapshotInto :: "registry_ptr \<Rightarrow> int dict option \<Rightarrow> int dict" where
  "SnapshotInto r dst =
     (let dst0 = clear_all (case dst of None \<Rightarrow> [] | Some d \<Rightarrow> d)
      in case r of
           None \<Rightarrow> dst0
         | Some reg \<Rightarrow> fold (\<lambda>(k, v) d. AList.update k v d) (case reg_m reg of None \<Rightarrow> [] | Some d \<Rightarrow> d) dst0)"

definition emptySnapshot :: "int dict" where
  "emptySnapshot = []"

definition Snapshot :: "registry_ptr \<Rightarrow> int dict" where
  "Snapshot r = (let out = SnapshotInto r (Some []) in if out = [] then emptySnapshot else out)"

section \<open>Invariant\<close>

definition registry_ok :: "registry_ptr \<Rightarrow> bool" where
  "registry_ok r =
     (case r of
        None \<Rightarrow> True
      | Some reg \<Rightarrow>
          (case reg_m reg of
             None \<Rightarrow> True
           | Some d \<Rightarrow> distinct_keys d \<and> list_all (\<lambda>(_, v). in_int64 v) d))"

lemma registry_ok_New [simp]: "registry_ok New_metrics"
  by (simp add: registry_ok_def New_metrics_def)

lemma set_update_values:
  "list_all (\<lambda>(_, v). P v) d \<Longrightarrow> P w \<Longrightarrow> list_all (\<lambda>(_, v). P v) (AList.update k w d)"
  by (induction d) auto

lemma registry_ok_Add [simp]: "registry_ok r \<Longrightarrow> registry_ok (Add r name n)"
  by (auto simp: registry_ok_def Add_def Let_def wrap64_range split: option.splits
      intro!: distinct_update set_update_values)

section \<open>Lemmas\<close>

lemma Get_Add: "Get (Add r name n) k = (if r \<noteq> None \<and> k = name then wrap64 (Get r name + n) else Get r k)"
  by (auto simp: Get_def Add_def counter_of_def Let_def split: option.splits)

lemma Get_Inc: "Get (Inc r name) k = (if r \<noteq> None \<and> k = name then wrap64 (Get r name + 1) else Get r k)"
  by (simp add: Inc_def Get_Add)

lemma Add_eq_None_iff [simp]: "Add r name n = None \<longleftrightarrow> r = None"
  by (auto simp: Add_def Let_def split: option.splits)

lemma wrap64_add_left: "wrap64 (wrap64 a + b) = wrap64 (a + b)"
proof -
  have "((a + 2 ^ 63) mod 2 ^ 64 - 2 ^ 63 + b + 2 ^ 63) mod 2 ^ 64 = ((a + 2 ^ 63) mod 2 ^ 64 + b) mod (2 ^ 64)"
    by simp
  also have "\<dots> = (a + 2 ^ 63 + b) mod 2 ^ 64" by (rule mod_add_left_eq)
  also have "\<dots> = (a + b + 2 ^ 63) mod 2 ^ 64" by (simp only: ac_simps)
  finally show ?thesis by (simp only: wrap64_def)
qed

text \<open>What a list of additions, in the order they are serialised, adds to one counter.\<close>

definition additions_to :: "string \<Rightarrow> (string \<times> int) list \<Rightarrow> int" where
  "additions_to name ops = sum_list (map snd (filter (\<lambda>(k, _). k = name) ops))"

lemma Get_fold_Add:
  "r \<noteq> None \<Longrightarrow> in_int64 (Get r name) \<Longrightarrow>
   Get (fold (\<lambda>(k, n) r. Add r k n) ops r) name = wrap64 (Get r name + additions_to name ops)"
proof (induction ops arbitrary: r)
  case Nil
  then show ?case by (simp add: additions_to_def)
next
  case (Cons op ops)
  obtain k n where op: "op = (k, n)" by (cases op)
  have "Add r k n \<noteq> None" using Cons.prems(1) by simp
  moreover have "in_int64 (Get (Add r k n) name)"
    using Cons.prems(2) by (auto simp: Get_Add wrap64_range)
  ultimately show ?case
    using Cons.IH [of "Add r k n"] Cons.prems(1)
    by (auto simp: op Get_Add additions_to_def wrap64_add_left add.assoc)
qed

lemma fold_delete_keys:
  "fold (\<lambda>(k, _) d. AList.delete k d) xs d = filter (\<lambda>(k, _). k \<notin> fst ` set xs) d"
  by (induction xs arbitrary: d)
     (auto simp: AList.delete_eq case_prod_beta filter_filter intro!: filter_cong intro: rev_image_eqI)

lemma clear_all_empty [simp]: "clear_all dst = []"
  by (auto simp: clear_all_def fold_delete_keys filter_empty_conv rev_image_eqI)

section \<open>Properties\<close>

text \<open>C36: whatever the serialisation of a set of concurrent \<^verbatim>\<open>Add\<close> calls, every counter of a
  fresh registry ends at the sum of the amounts added to it, wrapped to 64 bits, and \<^verbatim>\<open>Get\<close>,
  \<^verbatim>\<open>Snapshot\<close> and \<^verbatim>\<open>SnapshotInto\<close> (into any buffer) report that value.\<close>

theorem metrics_counters:
  fixes ops :: "(string \<times> int) list"
  defines "r \<equiv> fold (\<lambda>(k, n) r. Add r k n) ops New_metrics"
  shows "Get r name = wrap64 (additions_to name ops) \<and>
         counter_of (Some (Snapshot r)) name = Get r name \<and>
         counter_of (Some (SnapshotInto r dst)) name = Get r name"
proof -
  have init: "Get New_metrics name = 0" by (simp add: Get_def New_metrics_def counter_of_def)
  have get: "Get r name = wrap64 (additions_to name ops)"
    using Get_fold_Add [of New_metrics name ops] init
    by (simp add: r_def New_metrics_def in_int64_def int64_min_def int64_max_def)
  have ok: "registry_ok r"
  proof -
    have "registry_ok s \<Longrightarrow> registry_ok (fold (\<lambda>(k, n) r. Add r k n) xs s)" for xs s
      by (induction xs arbitrary: s) auto
    then show ?thesis by (simp add: r_def)
  qed
  have into: "counter_of (Some (SnapshotInto r d)) name = Get r name" for d
    using ok by (auto simp: SnapshotInto_def Get_def counter_of_def registry_ok_def map_of_fold_update
        split: option.splits)
  moreover have "Snapshot r = SnapshotInto r (Some [])"
    by (simp add: Snapshot_def emptySnapshot_def Let_def)
  ultimately show ?thesis using get by simp
qed

end
