(* ===== verification/Rules.thy ===== *)
theory Rules
  imports Core
begin

text \<open>
  Package \<^verbatim>\<open>rules\<close>: parsing a rule, validating it, compiling a rule set into a reconciler
  indexed by signal type, and deciding which rules fire or clear for a signal.

  The CEL engine and the YAML decoder are third-party packages and so are parameters: a
  record \<^verbatim>\<open>cel\<close> of the calls the sources make (a compiled program is its evaluation
  function), and a decoding function.  No law is assumed of them.  The errors of the package
  are a datatype with one constructor per error value of the source.
\<close>

section \<open>Third-party interfaces\<close>

type_synonym program = "any dict \<Rightarrow> any result"

record 'ast cel =
  cel_NewEnv :: "unit result"
  cel_Compile :: "string \<Rightarrow> 'ast result"
  cel_Program :: "'ast \<Rightarrow> program result"

datatype rule_error =
    BudgetForm string
  | BudgetCount string
  | BudgetWindow string
  | CelEnv error
  | CelCompile error
  | CelProgram error
  | UnknownAction string
  | Yaml error
  | MissingOn
  | MissingWhen
  | BadFor string
  | NoActions

datatype eval_error = EvalRuntime error | NotBool

section \<open>Rules\<close>

record Action =
  act_Kind :: string
  act_Args :: args

record With =
  with_DryRun :: bool
  with_IntentBudget :: string
  with_Rollback :: string

record Rule =
  rule_On :: string
  rule_When :: string
  rule_For :: duration
  rule_Then :: "Action list"
  rule_With :: With
  rule_SHA :: string

record rawRule =
  raw_On :: string
  raw_When :: string
  raw_For :: string
  raw_Then :: "args dict list"
  raw_With :: With

section \<open>Intent budgets\<close>

definition ParseIntentBudget :: "string \<Rightarrow> rule_error + int \<times> duration" where
  "ParseIntentBudget s0 =
     (let s = trim_space s0 in
      if s = [] then Inr (0, 0)
      else case str_cut s (CHR ''/'') of
        None \<Rightarrow> Inl (BudgetForm s)
      | Some (l, r) \<Rightarrow>
          (case atoi (trim_space l) of
             None \<Rightarrow> Inl (BudgetCount s)
           | Some cnt \<Rightarrow>
               if cnt < 0 then Inl (BudgetCount s)
               else (let w = trim_space r;
                         w' = (if w \<noteq> [] \<and> \<not> is_digit (hd w) then CHR ''1'' # w else w)
                     in case parse_duration w' of
                          None \<Rightarrow> Inl (BudgetWindow s)
                        | Some window \<Rightarrow>
                            if window \<le> 0 then Inl (BudgetWindow s) else Inr (cnt, window))))"

section \<open>Conditions\<close>

record Condition =
  prog :: program

definition CompileCondition :: "'ast cel \<Rightarrow> string \<Rightarrow> rule_error + Condition" where
  "CompileCondition cel expr =
     (case cel_NewEnv cel of
        Inl e \<Rightarrow> Inl (CelEnv e)
      | Inr _ \<Rightarrow>
          (case cel_Compile cel expr of
             Inl e \<Rightarrow> Inl (CelCompile e)
           | Inr ast \<Rightarrow>
               (case cel_Program cel ast of
                  Inl e \<Rightarrow> Inl (CelProgram e)
                | Inr p \<Rightarrow> Inr \<lparr>prog = p\<rparr>)))"

text \<open>The input of the program: the flattened signal and the state (nil maps read as empty).\<close>

definition dict_of :: "args \<Rightarrow> any dict" where
  "dict_of a = (case a of None \<Rightarrow> [] | Some m \<Rightarrow> m)"

definition cel_input :: "Signal \<Rightarrow> args \<Rightarrow> any dict" where
  "cel_input sig st =
     (let sigMap =
        [(''tenant'', AStr (sub_Tenant (sig_Subject sig))),
         (''deployment'', AStr (sub_Deployment (sig_Subject sig))),
         (''alias'', AStr (sub_Alias (sig_Subject sig))),
         (''severity'', AStr (sig_Severity sig)),
         (''type'', AStr (sig_Type sig)),
         (''data'', AMap (dict_of (sig_Data sig)))]
      in [(''signal'', AMap sigMap), (''state'', AMap (dict_of st))])"

definition Eval :: "Condition \<Rightarrow> Signal \<Rightarrow> args \<Rightarrow> eval_error + bool" where
  "Eval c sig st =
     (case prog c (cel_input sig st) of
        Inl e \<Rightarrow> Inl (EvalRuntime e)
      | Inr (ABool b) \<Rightarrow> Inr b
      | Inr _ \<Rightarrow> Inl NotBool)"

section \<open>Validation and parsing\<close>

fun unknown_action :: "Action list \<Rightarrow> string option" where
  "unknown_action [] = None"
| "unknown_action (a # as) =
     (if \<not> IsKnownActionKind (act_Kind a) then Some (act_Kind a) else unknown_action as)"

definition Validate :: "'ast cel \<Rightarrow> Rule \<Rightarrow> rule_error option" where
  "Validate cel r =
     (case CompileCondition cel (rule_When r) of
        Inl e \<Rightarrow> Some e
      | Inr _ \<Rightarrow>
          (case unknown_action (rule_Then r) of
             Some k \<Rightarrow> Some (UnknownAction k)
           | None \<Rightarrow>
               (case ParseIntentBudget (with_IntentBudget (rule_With r)) of
                  Inl e \<Rightarrow> Some e
                | Inr _ \<Rightarrow> None)))"

definition raw_actions :: "args dict list \<Rightarrow> Action list" where
  "raw_actions thens = concat (map (map (\<lambda>(kind, as). \<lparr>act_Kind = kind, act_Args = as\<rparr>)) thens)"

definition ParseRules :: "(bytes \<Rightarrow> rawRule result) \<Rightarrow> bytes \<Rightarrow> rule_error + Rule list" where
  "ParseRules yaml b =
     (case yaml b of
        Inl e \<Rightarrow> Inl (Yaml e)
      | Inr raw \<Rightarrow>
          if raw_On raw = [] then Inl MissingOn
          else if raw_When raw = [] then Inl MissingWhen
          else (case (if raw_For raw \<noteq> [] then parse_duration (raw_For raw) else Some 0) of
                  None \<Rightarrow> Inl (BadFor (raw_For raw))
                | Some dur \<Rightarrow>
                    (let actions = raw_actions (raw_Then raw)
                     in if actions = [] then Inl NoActions
                        else Inr [\<lparr>rule_On = raw_On raw, rule_When = raw_When raw, rule_For = dur,
                                   rule_Then = actions, rule_With = raw_With raw,
                                   rule_SHA = take 12 (hex_encode (sha256 b))\<rparr>])))"

section \<open>The reconciler\<close>

record compiledRule =
  cr_rule :: Rule
  cr_cond :: Condition

record Reconciler =
  byType :: "compiledRule list dict"

definition bucket :: "Reconciler \<Rightarrow> string \<Rightarrow> compiledRule list" where
  "bucket rc t = (case map_of (byType rc) t of None \<Rightarrow> [] | Some crs \<Rightarrow> crs)"

fun index_rules :: "'ast cel \<Rightarrow> Rule list \<Rightarrow> compiledRule list dict \<Rightarrow> rule_error + compiledRule list dict" where
  "index_rules cel [] m = Inr m"
| "index_rules cel (r # rs) m =
     (case CompileCondition cel (rule_When r) of
        Inl e \<Rightarrow> Inl e
      | Inr c \<Rightarrow>
          index_rules cel rs
            (AList.update (rule_On r)
              ((case map_of m (rule_On r) of None \<Rightarrow> [] | Some crs \<Rightarrow> crs) @ [\<lparr>cr_rule = r, cr_cond = c\<rparr>]) m))"

definition NewReconciler :: "'ast cel \<Rightarrow> Rule list \<Rightarrow> rule_error + Reconciler" where
  "NewReconciler cel rs =
     (case index_rules cel rs [] of Inl e \<Rightarrow> Inl e | Inr m \<Rightarrow> Inr \<lparr>byType = m\<rparr>)"

record Match =
  m_Rule :: Rule
  m_Intents :: "RemediationIntent list"

text \<open>The remediation subject differs by action kind.\<close>

definition intent_target :: "string \<Rightarrow> Subject \<Rightarrow> string" where
  "intent_target kind sub =
     (if kind = ActionThrottleTenant \<and> sub_Tenant sub \<noteq> [] then sub_Tenant sub
      else if kind = ActionDisableDeployment \<and> sub_Deployment sub \<noteq> [] then sub_Deployment sub
      else sub_Alias sub)"

definition intent_ttl :: "args \<Rightarrow> duration" where
  "intent_ttl as =
     (case as_string (args_get as ''ttl'') of
        None \<Rightarrow> 0
      | Some s \<Rightarrow> (case parse_duration s of None \<Rightarrow> 0 | Some d \<Rightarrow> d))"

definition actionToIntent :: "Action \<Rightarrow> Rule \<Rightarrow> Signal \<Rightarrow> RemediationIntent" where
  "actionToIntent a r sig =
     (let target = intent_target (act_Kind a) (sig_Subject sig)
      in zero_intent
         \<lparr>ri_ID := DeterministicID [act_Kind a, target, rule_SHA r, sig_CorrelationKey sig],
          ri_Kind := act_Kind a, ri_Target := target, ri_Args := act_Args a,
          ri_TTL := intent_ttl (act_Args a), ri_DryRun := with_DryRun (rule_With r),
          ri_RuleSHA := rule_SHA r\<rparr>)"

fun eval_bucket :: "compiledRule list \<Rightarrow> Signal \<Rightarrow> args \<Rightarrow> Match list" where
  "eval_bucket [] sig st = []"
| "eval_bucket (cr # crs) sig st =
     (if Eval (cr_cond cr) sig st = Inr True
      then \<lparr>m_Rule = cr_rule cr,
            m_Intents = map (\<lambda>a. actionToIntent a (cr_rule cr) sig) (rule_Then (cr_rule cr))\<rparr>
           # eval_bucket crs sig st
      else eval_bucket crs sig st)"

definition EvaluateMatches :: "Reconciler \<Rightarrow> Signal \<Rightarrow> args \<Rightarrow> Match list" where
  "EvaluateMatches rc sig st = eval_bucket (bucket rc (sig_Type sig)) sig st"

definition Reconcile :: "Reconciler \<Rightarrow> Signal \<Rightarrow> args \<Rightarrow> RemediationIntent list" where
  "Reconcile rc sig st = concat (map m_Intents (EvaluateMatches rc sig st))"

definition Cleared :: "Reconciler \<Rightarrow> Signal \<Rightarrow> args \<Rightarrow> Rule list" where
  "Cleared rc sig st =
     map cr_rule
       (filter (\<lambda>cr. with_Rollback (rule_With (cr_rule cr)) = ''on_clear''
                     \<and> Eval (cr_cond cr) sig st = Inr False)
         (bucket rc (sig_Type sig)))"

definition referencesState :: "string \<Rightarrow> bool" where
  "referencesState when = str_contains when ''state.''"

definition StateDependentRules :: "Reconciler \<Rightarrow> string \<Rightarrow> Rule list" where
  "StateDependentRules rc t = map cr_rule (filter (\<lambda>cr. referencesState (rule_When (cr_rule cr))) (bucket rc t))"

section \<open>The index against the whole rule list\<close>

text \<open>
  The specification of the reconciler does not mention the index: a rule fires when it is
  of the signal's type and its own condition evaluates to true, and it clears when it asks
  for a rollback and its condition evaluates to false.
\<close>

definition condition_value :: "'ast cel \<Rightarrow> Signal \<Rightarrow> args \<Rightarrow> Rule \<Rightarrow> bool option" where
  "condition_value cel sig st r =
     (case CompileCondition cel (rule_When r) of
        Inl _ \<Rightarrow> None
      | Inr c \<Rightarrow> (case Eval c sig st of Inl _ \<Rightarrow> None | Inr b \<Rightarrow> Some b))"

definition fires :: "'ast cel \<Rightarrow> Signal \<Rightarrow> args \<Rightarrow> Rule \<Rightarrow> bool" where
  "fires cel sig st r \<longleftrightarrow> rule_On r = sig_Type sig \<and> condition_value cel sig st r = Some True"

definition clears :: "'ast cel \<Rightarrow> Signal \<Rightarrow> args \<Rightarrow> Rule \<Rightarrow> bool" where
  "clears cel sig st r \<longleftrightarrow>
     rule_On r = sig_Type sig \<and> with_Rollback (rule_With r) = ''on_clear'' \<and> condition_value cel sig st r = Some False"

definition match_of :: "Signal \<Rightarrow> Rule \<Rightarrow> Match" where
  "match_of sig r = \<lparr>m_Rule = r, m_Intents = map (\<lambda>a. actionToIntent a r sig) (rule_Then r)\<rparr>"

definition compiled :: "'ast cel \<Rightarrow> compiledRule \<Rightarrow> bool" where
  "compiled cel cr \<longleftrightarrow> CompileCondition cel (rule_When (cr_rule cr)) = Inr (cr_cond cr)"

lemma index_rules_bucket:
  assumes "index_rules cel rs m = Inr m'"
  shows "\<exists>crs. bucket \<lparr>byType = m'\<rparr> t = bucket \<lparr>byType = m\<rparr> t @ crs
               \<and> map cr_rule crs = filter (\<lambda>r. rule_On r = t) rs \<and> list_all (compiled cel) crs"
  using assms
proof (induction rs arbitrary: m)
  case Nil
  then show ?case by simp
next
  case (Cons r rs)
  from Cons.prems obtain c where c: "CompileCondition cel (rule_When r) = Inr c"
    by (auto split: sum.splits)
  define m1 where "m1 = AList.update (rule_On r)
    ((case map_of m (rule_On r) of None \<Rightarrow> [] | Some crs \<Rightarrow> crs) @ [\<lparr>cr_rule = r, cr_cond = c\<rparr>]) m"
  from Cons.prems c have "index_rules cel rs m1 = Inr m'" by (simp add: m1_def)
  from Cons.IH [OF this] obtain crs where crs:
    "bucket \<lparr>byType = m'\<rparr> t = bucket \<lparr>byType = m1\<rparr> t @ crs"
    "map cr_rule crs = filter (\<lambda>r. rule_On r = t) rs" "list_all (compiled cel) crs" by blast
  have b: "bucket \<lparr>byType = m1\<rparr> t =
      bucket \<lparr>byType = m\<rparr> t @ (if rule_On r = t then [\<lparr>cr_rule = r, cr_cond = c\<rparr>] else [])"
    by (auto simp: bucket_def m1_def)
  show ?case
  proof (cases "rule_On r = t")
    case True
    have "compiled cel \<lparr>cr_rule = r, cr_cond = c\<rparr>" using c by (simp add: compiled_def)
    with True crs b show ?thesis
      by (intro exI [of _ "\<lparr>cr_rule = r, cr_cond = c\<rparr> # crs"]) simp
  next
    case False
    with crs b show ?thesis by auto
  qed
qed

lemma NewReconciler_bucket:
  assumes "NewReconciler cel rs = Inr rc"
  shows "map cr_rule (bucket rc t) = filter (\<lambda>r. rule_On r = t) rs \<and> list_all (compiled cel) (bucket rc t)"
proof -
  from assms obtain m where m: "index_rules cel rs [] = Inr m" "rc = \<lparr>byType = m\<rparr>"
    by (auto simp: NewReconciler_def split: sum.splits)
  from index_rules_bucket [OF m(1), of t] m(2) show ?thesis by (auto simp: bucket_def)
qed

lemma compiled_Eval:
  "compiled cel cr \<Longrightarrow> Eval (cr_cond cr) sig st = Inr b \<longleftrightarrow> condition_value cel sig st (cr_rule cr) = Some b"
  by (auto simp: compiled_def condition_value_def split: sum.splits)

lemma eval_bucket_map:
  "list_all (compiled cel) crs \<Longrightarrow>
   eval_bucket crs sig st =
     map (match_of sig) (filter (\<lambda>r. condition_value cel sig st r = Some True) (map cr_rule crs))"
  by (induction crs) (auto simp: compiled_Eval match_of_def)

lemma filter_map_compiled:
  "list_all (compiled cel) crs \<Longrightarrow>
   map cr_rule (filter (\<lambda>cr. P (cr_rule cr) \<and> Eval (cr_cond cr) sig st = Inr b) crs) =
   filter (\<lambda>r. P r \<and> condition_value cel sig st r = Some b) (map cr_rule crs)"
  by (induction crs) (auto simp: compiled_Eval)

lemma EvaluateMatches_spec:
  assumes "NewReconciler cel rs = Inr rc"
  shows "EvaluateMatches rc sig st = map (match_of sig) (filter (fires cel sig st) rs)"
  using NewReconciler_bucket [OF assms, of "sig_Type sig"]
  by (simp add: EvaluateMatches_def eval_bucket_map [where cel = cel] fires_def [abs_def])

lemma Cleared_spec:
  assumes "NewReconciler cel rs = Inr rc"
  shows "Cleared rc sig st = filter (clears cel sig st) rs"
  using NewReconciler_bucket [OF assms, of "sig_Type sig"]
  by (auto simp: Cleared_def filter_map_compiled [where P = "\<lambda>r. with_Rollback (rule_With r) = ''on_clear''"]
      clears_def [abs_def] intro!: filter_cong)

lemma StateDependentRules_spec:
  assumes "NewReconciler cel rs = Inr rc"
  shows "StateDependentRules rc t = filter (\<lambda>r. rule_On r = t \<and> referencesState (rule_When r)) rs"
proof -
  have "StateDependentRules rc t = filter (\<lambda>r. referencesState (rule_When r)) (map cr_rule (bucket rc t))"
    by (simp add: StateDependentRules_def filter_map comp_def)
  then show ?thesis
    using NewReconciler_bucket [OF assms, of t] by simp
qed

lemma index_rules_ok_iff:
  "(\<exists>m'. index_rules cel rs m = Inr m') \<longleftrightarrow> list_all (\<lambda>r. \<exists>c. CompileCondition cel (rule_When r) = Inr c) rs"
  by (induction rs arbitrary: m) (auto split: sum.splits)

section \<open>Budgets\<close>

lemma ParseIntentBudget_range:
  assumes "ParseIntentBudget s = Inr (n, w)"
  shows "trim_space s = [] \<and> n = 0 \<and> w = 0 \<or> 0 \<le> n \<and> n \<le> int64_max \<and> 0 < w"
  using assms
  by (auto simp: ParseIntentBudget_def Let_def in_int64_def split: if_splits option.splits dest!: atoi_range)

lemma intent_ID_parts:
  "ri_ID (actionToIntent a r sig) =
   DeterministicID [act_Kind a, intent_target (act_Kind a) (sig_Subject sig), rule_SHA r, sig_CorrelationKey sig]"
  by (simp add: actionToIntent_def Let_def)

text \<open>Printing a count over a bare unit is parsed back; a bare unit is one of it.\<close>

definition budget_units :: "duration dict" where
  "budget_units = [(''h'', hour), (''m'', minute), (''s'', second)]"

lemma dec_digits_ends:
  assumes "0 \<le> n"
  shows "is_digit (hd (dec_digits n))" and "is_digit (last (dec_digits n))"
  using dec_digits_are_digits [OF assms] by (auto simp: list_all_iff)

lemma trim_dec_digits: "0 \<le> n \<Longrightarrow> trim_space (dec_digits n) = dec_digits n"
  by (intro trim_space_plain plain_digit dec_digits_ends) simp_all

lemma budget_unit_cases:
  assumes "(u, d) \<in> set budget_units"
  shows "u \<noteq> [] \<and> plain_char (last u) \<and> plain_char (hd u) \<and> \<not> is_digit (hd u)
         \<and> parse_duration (CHR ''1'' # u) = Some d \<and> 0 < d"
proof -
  have "list_all (\<lambda>(u, d). u \<noteq> [] \<and> plain_char (last u) \<and> plain_char (hd u) \<and> \<not> is_digit (hd u)
         \<and> parse_duration (CHR ''1'' # u) = Some d \<and> 0 < d) budget_units"
    by code_simp
  with assms show ?thesis by (auto simp: list_all_iff)
qed

lemma ParseIntentBudget_print:
  assumes n: "0 \<le> n" "n \<le> int64_max" and u: "(u, d) \<in> set budget_units"
  shows "ParseIntentBudget (int_to_dec n @ CHR ''/'' # u) = Inr (n, d)"
proof -
  note unit = budget_unit_cases [OF u]
  define s where "s = dec_digits n @ CHR ''/'' # u"
  have nodash: "CHR ''/'' \<notin> set (dec_digits n)"
    using dec_digits_are_digits [OF n(1)] by (auto simp: list_all_iff is_digit_def)
  have "hd s = hd (dec_digits n)" "last s = last u" "s \<noteq> []"
    using unit by (simp_all add: s_def)
  then have trim: "trim_space s = s"
    using unit plain_digit [OF dec_digits_ends(1) [OF n(1)]] by (intro trim_space_plain) simp_all
  have cut: "str_cut s (CHR ''/'') = Some (dec_digits n, u)"
    unfolding s_def by (rule str_cut_append [OF nodash])
  have atoi: "atoi (trim_space (dec_digits n)) = Some n"
    using atoi_int_to_dec [of n] n
    by (simp add: trim_dec_digits int_to_dec_def in_int64_def int64_min_def)
  have tu: "trim_space u = u" using unit by (intro trim_space_plain) simp_all
  have "ParseIntentBudget s = Inr (n, d)"
    unfolding ParseIntentBudget_def Let_def trim
    using cut atoi tu unit n(1) \<open>s \<noteq> []\<close> by simp
  then show ?thesis using n(1) by (simp add: s_def int_to_dec_def)
qed

section \<open>Properties\<close>

text \<open>C20: the index by signal type is transparent.  Evaluating a signal against a compiled
  reconciler gives exactly the rules of the input list that are of the signal's type and
  whose own condition is true, in input order and with their intents; the cleared rules are
  exactly the \<^verbatim>\<open>on_clear\<close> rules of that type whose condition is false; and the state-dependent
  rules are those of the type whose text mentions the state.\<close>

theorem reconciler_index_transparent:
  assumes "NewReconciler cel rs = Inr rc"
  shows "EvaluateMatches rc sig st = map (match_of sig) (filter (fires cel sig st) rs)
         \<and> Cleared rc sig st = filter (clears cel sig st) rs
         \<and> StateDependentRules rc t = filter (\<lambda>r. rule_On r = t \<and> referencesState (rule_When r)) rs"
  using EvaluateMatches_spec [OF assms] Cleared_spec [OF assms] StateDependentRules_spec [OF assms] by simp

text \<open>A concrete CEL engine for the witnesses: it knows two expressions, one of them over the
  state, and fails at compile time on the empty text and at run time on the rest.\<close>

definition demo_program :: "string \<Rightarrow> program" where
  "demo_program e inp =
     (if e = ''true'' then Inr (ABool True)
      else if e = ''state.hot'' then
        (case map_of inp ''state'' of
           Some (AMap m) \<Rightarrow> (case map_of m ''hot'' of Some v \<Rightarrow> Inr v | None \<Rightarrow> Inl ''no such key'')
         | _ \<Rightarrow> Inl ''no such key'')
      else Inl ''no such overload'')"

definition demo_cel :: "string cel" where
  "demo_cel =
     \<lparr>cel_NewEnv = Inr (), cel_Compile = (\<lambda>e. if e = [] then Inl ''syntax error'' else Inr e),
      cel_Program = (\<lambda>e. Inr (demo_program e))\<rparr>"

definition demo_rule :: "string \<Rightarrow> string \<Rightarrow> string \<Rightarrow> Rule" where
  "demo_rule on when sha =
     \<lparr>rule_On = on, rule_When = when, rule_For = 0,
      rule_Then = [\<lparr>act_Kind = ActionPage, act_Args = Some [(''slack'', AStr ''#oncall'')]\<rparr>],
      rule_With = \<lparr>with_DryRun = False, with_IntentBudget = ''3/h'', with_Rollback = ''on_clear''\<rparr>, rule_SHA = sha\<rparr>"

definition demo_signal :: Signal where
  "demo_signal =
     \<lparr>sig_ID = ''s1'', sig_Source = ''test'', sig_Type = ''cost'', sig_Time = 0,
      sig_Subject = \<lparr>sub_Tenant = ''acme'', sub_Deployment = [], sub_Alias = ''gpt-4o''\<rparr>,
      sig_Severity = SeverityWarning, sig_CorrelationKey = ''acme:cost'', sig_DedupWindow = 0,
      sig_Evidence = [], sig_Data = None\<rparr>"

lemmas demo_defs =
  demo_program_def demo_cel_def demo_rule_def demo_signal_def

definition demo_rules :: "Rule list" where
  "demo_rules = [demo_rule ''cost'' ''true'' ''sha-a'', demo_rule ''latency'' ''true'' ''sha-b'',
                 demo_rule ''cost'' ''state.hot'' ''sha-c'']"

definition demo_reconciler :: Reconciler where
  "demo_reconciler =
     \<lparr>byType =
       [(''cost'',
          [\<lparr>cr_rule = demo_rule ''cost'' ''true'' ''sha-a'', cr_cond = \<lparr>prog = demo_program ''true''\<rparr>\<rparr>,
           \<lparr>cr_rule = demo_rule ''cost'' ''state.hot'' ''sha-c'', cr_cond = \<lparr>prog = demo_program ''state.hot''\<rparr>\<rparr>]),
        (''latency'',
          [\<lparr>cr_rule = demo_rule ''latency'' ''true'' ''sha-b'', cr_cond = \<lparr>prog = demo_program ''true''\<rparr>\<rparr>])]\<rparr>"

lemma demo_reconciler_ok: "NewReconciler demo_cel demo_rules = Inr demo_reconciler"
  by (simp add: NewReconciler_def demo_rules_def demo_reconciler_def CompileCondition_def demo_cel_def
      demo_rule_def)

lemma demo_fires:
  "filter (fires demo_cel demo_signal (Some [(''hot'', ABool False)])) demo_rules =
     [demo_rule ''cost'' ''true'' ''sha-a'']"
  "filter (clears demo_cel demo_signal (Some [(''hot'', ABool False)])) demo_rules =
     [demo_rule ''cost'' ''state.hot'' ''sha-c'']"
  by (simp_all add: demo_rules_def fires_def clears_def condition_value_def CompileCondition_def Eval_def
      cel_input_def dict_of_def demo_defs)

theorem reconciler_index_transparent_witness:
  "NewReconciler demo_cel demo_rules = Inr demo_reconciler
   \<and> map m_Rule (EvaluateMatches demo_reconciler demo_signal (Some [(''hot'', ABool False)]))
       = [demo_rule ''cost'' ''true'' ''sha-a'']
   \<and> Cleared demo_reconciler demo_signal (Some [(''hot'', ABool False)])
       = [demo_rule ''cost'' ''state.hot'' ''sha-c'']"
  using reconciler_index_transparent [OF demo_reconciler_ok, of demo_signal "Some [(''hot'', ABool False)]" "[]"]
    demo_reconciler_ok
  by (simp add: demo_fires match_of_def)

text \<open>Compiling a rule set succeeds exactly when the condition of every rule compiles: one
  bad rule rejects the whole set, and nothing else does.\<close>

theorem reconciler_compiles_iff:
  "(\<exists>rc. NewReconciler cel rs = Inr rc)
   \<longleftrightarrow> list_all (\<lambda>r. \<exists>c. CompileCondition cel (rule_When r) = Inr c) rs"
  using index_rules_ok_iff [of cel rs "[]"] by (auto simp: NewReconciler_def split: sum.splits)

text \<open>On one signal and state no rule both fires and is cleared, so a signal never applies
  and rolls back the same rule.\<close>

theorem fired_rule_not_cleared:
  assumes "NewReconciler cel rs = Inr rc"
    and "m \<in> set (EvaluateMatches rc sig st)"
  shows "m_Rule m \<notin> set (Cleared rc sig st)"
  using assms by (auto simp: EvaluateMatches_spec Cleared_spec match_of_def fires_def clears_def)

theorem fired_rule_not_cleared_witness:
  "demo_rule ''cost'' ''true'' ''sha-a'' \<notin> set (Cleared demo_reconciler demo_signal (Some [(''hot'', ABool False)]))"
proof -
  have "match_of demo_signal (demo_rule ''cost'' ''true'' ''sha-a'')
        \<in> set (EvaluateMatches demo_reconciler demo_signal (Some [(''hot'', ABool False)]))"
    by (simp add: EvaluateMatches_spec [OF demo_reconciler_ok] demo_fires)
  from fired_rule_not_cleared [OF demo_reconciler_ok this] show ?thesis by (simp add: match_of_def)
qed

text \<open>C21: a rule that passes \<^verbatim>\<open>Validate\<close> compiles on its own, every intent it produces for any
  signal has a known action kind and carries the rule's hash and dry-run flag, and its budget
  is either unset (count and window zero) or a non-negative count over a positive window.\<close>

theorem validated_rule_is_safe:
  assumes "Validate cel r = None"
  shows "(\<exists>rc. NewReconciler cel [r] = Inr rc)
         \<and> list_all (\<lambda>i. IsKnownActionKind (ri_Kind i) \<and> ri_RuleSHA i = rule_SHA r
                         \<and> ri_DryRun i = with_DryRun (rule_With r)) (m_Intents (match_of sig r))
         \<and> (\<exists>n w. ParseIntentBudget (with_IntentBudget (rule_With r)) = Inr (n, w)
                   \<and> (n = 0 \<and> w = 0 \<or> 0 \<le> n \<and> n \<le> int64_max \<and> 0 < w))"
proof -
  have known: "unknown_action as = None \<Longrightarrow> list_all (\<lambda>a. IsKnownActionKind (act_Kind a)) as" for as
    by (induction as) (auto split: if_splits)
  from assms obtain c where c: "CompileCondition cel (rule_When r) = Inr c"
    and k: "unknown_action (rule_Then r) = None"
    and b: "\<exists>n w. ParseIntentBudget (with_IntentBudget (rule_With r)) = Inr (n, w)"
    by (auto simp: Validate_def split: sum.splits option.splits)
  from c have "\<exists>rc. NewReconciler cel [r] = Inr rc" by (simp add: NewReconciler_def)
  moreover from known [OF k] have "list_all (\<lambda>i. IsKnownActionKind (ri_Kind i) \<and> ri_RuleSHA i = rule_SHA r
      \<and> ri_DryRun i = with_DryRun (rule_With r)) (m_Intents (match_of sig r))"
    by (simp add: match_of_def list_all_iff actionToIntent_def Let_def)
  moreover from b obtain n w where "ParseIntentBudget (with_IntentBudget (rule_With r)) = Inr (n, w)" by blast
  ultimately show ?thesis by (blast dest: ParseIntentBudget_range)
qed

lemma demo_budget: "ParseIntentBudget ''3/h'' = Inr (3, hour)"
proof -
  have "int_to_dec 3 = ''3''" by code_simp
  with ParseIntentBudget_print [of 3 "''h''" hour] show ?thesis
    by (simp add: int64_max_def budget_units_def)
qed

theorem validated_rule_is_safe_witness:
  "Validate demo_cel (demo_rule ''cost'' ''true'' ''sha-a'') = None
   \<and> (\<exists>rc. NewReconciler demo_cel [demo_rule ''cost'' ''true'' ''sha-a''] = Inr rc)"
proof -
  have "Validate demo_cel (demo_rule ''cost'' ''true'' ''sha-a'') = None"
    by (simp add: Validate_def CompileCondition_def demo_defs demo_budget IsKnownActionKind_iff KnownActionKinds_def)
  with validated_rule_is_safe [OF this] show ?thesis by blast
qed

text \<open>A budget printed as a count over a bare unit (hours, minutes or seconds) parses to that
  count and that window, for every count of a 64-bit \<^verbatim>\<open>int\<close>.\<close>

theorem budget_round_trip:
  assumes "0 \<le> n" and "n \<le> int64_max" and "(u, d) \<in> set budget_units"
  shows "ParseIntentBudget (int_to_dec n @ CHR ''/'' # u) = Inr (n, d)"
  using assms by (rule ParseIntentBudget_print)

theorem budget_round_trip_witness: "ParseIntentBudget (int_to_dec 10 @ CHR ''/'' # ''m'') = Inr (10, minute)"
  by (rule budget_round_trip) (simp_all add: int64_max_def budget_units_def)

text \<open>C22: two intents that carry the same id come from the same action kind, target, rule and
  correlation key, unless the two id preimages, which then differ, collide in the first 64
  bits of SHA-256.  The parts must not contain a zero byte, the separator of the preimage.\<close>

theorem intent_id_identifies:
  fixes a a' r r' sig sig'
  defines "p \<equiv> [act_Kind a, intent_target (act_Kind a) (sig_Subject sig), rule_SHA r, sig_CorrelationKey sig]"
    and "q \<equiv> [act_Kind a', intent_target (act_Kind a') (sig_Subject sig'), rule_SHA r', sig_CorrelationKey sig']"
  assumes "ri_ID (actionToIntent a r sig) = ri_ID (actionToIntent a' r' sig')"
    and "list_all (\<lambda>x. NUL \<notin> set x) p" and "list_all (\<lambda>x. NUL \<notin> set x) q"
  shows "p = q \<or> id_preimage p \<noteq> id_preimage q
                  \<and> take 16 (hex_encode (sha256 (id_preimage p))) = take 16 (hex_encode (sha256 (id_preimage q)))"
proof (cases "id_preimage p = id_preimage q")
  case True
  with assms(4,5) have "p = q" by (intro id_preimage_inject) (auto simp: list_all_iff)
  then show ?thesis ..
next
  case False
  with assms(3) show ?thesis by (simp add: intent_ID_parts DeterministicID_def p_def q_def)
qed

theorem intent_id_identifies_witness:
  "let a = \<lparr>act_Kind = ActionPage, act_Args = None\<rparr>; a' = \<lparr>act_Kind = ActionPage, act_Args = Some [(''ttl'', AStr ''5m'')]\<rparr>;
       r = demo_rule ''cost'' ''true'' ''sha-a''; later = demo_signal\<lparr>sig_ID := ''s2'', sig_Time := hour\<rparr>
   in ri_ID (actionToIntent a r demo_signal) = ri_ID (actionToIntent a' r later)
      \<and> [act_Kind a, intent_target (act_Kind a) (sig_Subject demo_signal), rule_SHA r, sig_CorrelationKey demo_signal]
        = [act_Kind a', intent_target (act_Kind a') (sig_Subject later), rule_SHA r, sig_CorrelationKey later]"
proof -
  let ?a = "\<lparr>act_Kind = ActionPage, act_Args = None\<rparr>" and ?a' = "\<lparr>act_Kind = ActionPage, act_Args = Some [(''ttl'', AStr ''5m'')]\<rparr>"
  let ?r = "demo_rule ''cost'' ''true'' ''sha-a''" and ?l = "demo_signal\<lparr>sig_ID := ''s2'', sig_Time := hour\<rparr>"
  let ?p = "[act_Kind ?a, intent_target (act_Kind ?a) (sig_Subject demo_signal), rule_SHA ?r, sig_CorrelationKey demo_signal]"
  let ?q = "[act_Kind ?a', intent_target (act_Kind ?a') (sig_Subject ?l), rule_SHA ?r, sig_CorrelationKey ?l]"
  have n: "list_all (\<lambda>x. NUL \<notin> set x) ?p" "list_all (\<lambda>x. NUL \<notin> set x) ?q"
    by (simp_all add: intent_target_def demo_rule_def demo_signal_def NUL_def action_kind_defs)
  have e: "ri_ID (actionToIntent ?a ?r demo_signal) = ri_ID (actionToIntent ?a' ?r ?l)" by (simp add: intent_ID_parts)
  have "id_preimage ?p = id_preimage ?q" by simp
  with intent_id_identifies [OF e n] have "?p = ?q" by blast
  with e show ?thesis unfolding Let_def by blast
qed

text \<open>The condition on zero bytes is needed: two signals of one rule with different targets and
  correlation keys whose intents carry the same id, without a collision of SHA-256.  The zero
  byte that separates the parts of the preimage also occurs in a target.\<close>

lemma intent_id_zero_byte_ambiguous:
  fixes a r sig t c x
  defines "sub \<equiv> (\<lambda>al. \<lparr>sub_Tenant = [], sub_Deployment = [], sub_Alias = al\<rparr>)"
  shows "ri_ID (actionToIntent a r (sig\<lparr>sig_Subject := sub (t @ NUL # rule_SHA r @ NUL # x), sig_CorrelationKey := c\<rparr>)) =
         ri_ID (actionToIntent a r (sig\<lparr>sig_Subject := sub t, sig_CorrelationKey := x @ NUL # rule_SHA r @ NUL # c\<rparr>))"
  by (simp add: intent_ID_parts DeterministicID_def id_preimage_def intent_target_def sub_def)

text \<open>The substring test for state references misses the index form of the same access, so
  such a rule is not among the state-dependent rules of its type.\<close>

theorem referencesState_misses_index:
  "NewReconciler cel [r] = Inr rc \<Longrightarrow> rule_When r = ''state['' @ s @ '']'' \<Longrightarrow> CHR ''.'' \<notin> set s \<Longrightarrow>
   StateDependentRules rc t = []"
proof -
  assume rc: "NewReconciler cel [r] = Inr rc" and "rule_When r = ''state['' @ s @ '']''" and "CHR ''.'' \<notin> set s"
  then have "CHR ''.'' \<notin> set (rule_When r)" by simp
  then have "\<not> referencesState (rule_When r)"
    by (auto simp: referencesState_def str_contains_iff dest!: set_mono_sublist)
  with StateDependentRules_spec [OF rc, of t] show "StateDependentRules rc t = []" by simp
qed

theorem referencesState_misses_index_witness:
  "StateDependentRules
     \<lparr>byType = [(''cost'', [\<lparr>cr_rule = demo_rule ''cost'' ''state[k]'' ''sha-d'',
                             cr_cond = \<lparr>prog = demo_program ''state[k]''\<rparr>\<rparr>])]\<rparr> ''cost'' = []"
  by (rule referencesState_misses_index [where cel = demo_cel and r = "demo_rule ''cost'' ''state[k]'' ''sha-d''" and s = "''k''"])
     (simp_all add: NewReconciler_def CompileCondition_def demo_cel_def demo_rule_def)

end
