(* ===== verification/Engine.thy ===== *)
theory Engine
  imports Ledger Actuator Metrics Rules
begin

text \<open>
  Package \<^verbatim>\<open>engine\<close>: the control loop.  The engine's configuration is the record \<^verbatim>\<open>Engine\<close>; what
  changes while it runs (the counters, the \<^verbatim>\<open>for:\<close> windows, the contents of the store and the
  outside world of the actuators) is the record \<^verbatim>\<open>mem\<close>, passed through every method.  The clock
  reads the outside world.  The structured logger has no effect the code depends on and is
  left out; so is the context, whose cancellation shows as an error of a store method.

  The lemmas are proved for every backend that keeps the contract \<^verbatim>\<open>store\<close> and then used on the
  SQLite backend: what one intent does to the store, on every path; how handlers that run
  concurrently interleave; due reverts; rollback; windows and budgets.
\<close>

section \<open>Data\<close>

type_synonym Outcome = string

definition OutApplied :: Outcome where "OutApplied = ''applied''"
definition OutDryRun :: Outcome where "OutDryRun = ''dry_run''"
definition OutSkipped :: Outcome where "OutSkipped = ''skipped_idempotent''"
definition OutFailed :: Outcome where "OutFailed = ''failed''"
definition OutPending :: Outcome where "OutPending = ''pending_for_window''"
definition OutThrottled :: Outcome where "OutThrottled = ''throttled''"

lemmas out_defs = OutApplied_def OutDryRun_def OutSkipped_def OutFailed_def OutPending_def OutThrottled_def

datatype FailMode = FailOpen | FailClosed

record Result =
  res_Intent :: RemediationIntent
  res_Outcome :: Outcome
  res_Receipt :: Receipt
  res_Err :: string

definition result :: "RemediationIntent \<Rightarrow> Outcome \<Rightarrow> string \<Rightarrow> Result" where
  "result i out e = \<lparr>res_Intent = i, res_Outcome = out, res_Receipt = zero_receipt, res_Err = e\<rparr>"

record ('s, 'w) mem =
  m_store :: 's
  m_world :: 'w
  m_met :: registry_ptr
  m_pending :: "time dict"

record ('s, 'w) Engine =
  eng_rec :: Reconciler
  eng_reg :: "'w ActRegistry"
  eng_store :: "'s store_ops"
  eng_signer :: Signer
  eng_led :: "CostLedger option"
  eng_now :: "'w \<Rightarrow> time"
  eng_failMode :: FailMode
  eng_failModeNotify :: FailMode
  eng_immediate :: bool
  eng_mem :: "('s, 'w) mem"

section \<open>Options and construction\<close>

type_synonym ('s, 'w) Option = "('s, 'w) Engine \<Rightarrow> ('s, 'w) Engine"

definition WithLedger :: "CostLedger option \<Rightarrow> ('s, 'w) Option" where
  "WithLedger l = (\<lambda>e. e\<lparr>eng_led := l\<rparr>)"

definition WithClock :: "('w \<Rightarrow> time) \<Rightarrow> ('s, 'w) Option" where
  "WithClock fn = (\<lambda>e. e\<lparr>eng_now := fn\<rparr>)"

definition WithFailMode :: "FailMode \<Rightarrow> ('s, 'w) Option" where
  "WithFailMode m = (\<lambda>e. e\<lparr>eng_failMode := m\<rparr>)"

definition WithFailModeNotify :: "FailMode \<Rightarrow> ('s, 'w) Option" where
  "WithFailModeNotify m = (\<lambda>e. e\<lparr>eng_failModeNotify := m\<rparr>)"

definition WithMetrics :: "registry_ptr \<Rightarrow> ('s, 'w) Option" where
  "WithMetrics r = (\<lambda>e. e\<lparr>eng_mem := (eng_mem e)\<lparr>m_met := r\<rparr>\<rparr>)"

definition WithImmediate :: "('s, 'w) Option" where
  "WithImmediate = (\<lambda>e. e\<lparr>eng_immediate := True\<rparr>)"

text \<open>\<^verbatim>\<open>wall\<close> is \<^verbatim>\<open>time.Now\<close>; the store comes as its methods and its contents.\<close>

definition New_engine ::
    "('w \<Rightarrow> time) \<Rightarrow> Reconciler \<Rightarrow> 'w ActRegistry \<Rightarrow> 's store_ops \<Rightarrow> 's \<Rightarrow> 'w \<Rightarrow> Signer \<Rightarrow>
     ('s, 'w) Option list \<Rightarrow> ('s, 'w) Engine" where
  "New_engine wall rc reg ops s w signer opts =
     fold (\<lambda>o1 e. o1 e) opts
       \<lparr>eng_rec = rc, eng_reg = reg, eng_store = ops, eng_signer = signer, eng_led = None,
        eng_now = wall, eng_failMode = FailOpen, eng_failModeNotify = FailOpen, eng_immediate = False,
        eng_mem = \<lparr>m_store = s, m_world = w, m_met = None, m_pending = []\<rparr>\<rparr>"

definition failModeFor :: "('s, 'w) Engine \<Rightarrow> ActionKind \<Rightarrow> FailMode" where
  "failModeFor e k = (if k = ActionOpenIssue \<or> k = ActionPage then eng_failModeNotify e else eng_failMode e)"

section \<open>Calls on the parts of the engine\<close>

definition inc :: "string \<Rightarrow> ('s, 'w) mem \<Rightarrow> ('s, 'w) mem" where
  "inc name m = m\<lparr>m_met := Inc (m_met m) name\<rparr>"

text \<open>A store method on the current contents, and the append whose result is dropped.\<close>

definition on_store :: "('s \<Rightarrow> 'a \<times> 's) \<Rightarrow> ('s, 'w) mem \<Rightarrow> 'a \<times> ('s, 'w) mem" where
  "on_store f m = (let (r, s) = f (m_store m) in (r, m\<lparr>m_store := s\<rparr>))"

definition log_audit :: "('s, 'w) Engine \<Rightarrow> string \<Rightarrow> string \<Rightarrow> ('s, 'w) mem \<Rightarrow> ('s, 'w) mem" where
  "log_audit e kind detail m = snd (on_store (AppendAudit (eng_store e) kind detail) m)"

definition on_world :: "('w \<Rightarrow> 'a \<times> 'w) \<Rightarrow> ('s, 'w) mem \<Rightarrow> 'a \<times> ('s, 'w) mem" where
  "on_world f m = (let (r, w) = f (m_world m) in (r, m\<lparr>m_world := w\<rparr>))"

definition auditDetail :: "RemediationIntent \<Rightarrow> string" where
  "auditDetail i = ri_Kind i @ '' target='' @ ri_Target i @ '' rule='' @ ri_RuleSHA i"

definition dedupKey :: "string \<Rightarrow> string \<Rightarrow> string" where
  "dedupKey ruleSHA corr = ruleSHA @ ''|'' @ corr"

text \<open>\<^verbatim>\<open>json.Marshal\<close> of the argument map, with the error dropped; a nil map is \<^verbatim>\<open>null\<close>.\<close>

definition args_json :: "args \<Rightarrow> string" where
  "args_json a = marshal_or_empty (case a of None \<Rightarrow> Some ANil | Some d \<Rightarrow> Some (AMap d))"

definition revert_of :: "RemediationIntent \<Rightarrow> time \<Rightarrow> PendingRevert" where
  "revert_of i due =
     \<lparr>pr_IntentID = ri_ID i, pr_Kind = ri_Kind i, pr_Target = ri_Target i, pr_ArgsJSON = args_json (ri_Args i),
      pr_DueAt = due\<rparr>"

section \<open>Reverting\<close>

definition unmarshal_args :: "string \<Rightarrow> args" where
  "unmarshal_args t = (if t = [] then None else case json_unmarshal t of Some (AMap d) \<Rightarrow> Some d | _ \<Rightarrow> None)"

definition pending_intent :: "PendingRevert \<Rightarrow> RemediationIntent" where
  "pending_intent pr =
     zero_intent\<lparr>ri_ID := pr_IntentID pr, ri_Kind := pr_Kind pr, ri_Target := pr_Target pr,
       ri_Args := unmarshal_args (pr_ArgsJSON pr)\<rparr>"

definition revertPending :: "('s, 'w) Engine \<Rightarrow> PendingRevert \<Rightarrow> ('s, 'w) mem \<Rightarrow> error option \<times> ('s, 'w) mem" where
  "revertPending e pr m =
     (let ((_, err), m1) = on_world (Registry_Revert (eng_reg e) (pending_intent pr)) m in (err, m1))"

definition rollback_one :: "('s, 'w) Engine \<Rightarrow> PendingRevert \<Rightarrow> ('s, 'w) mem \<Rightarrow> ('s, 'w) mem" where
  "rollback_one e pr m =
     (case revertPending e pr m of
        (Some err, m1) \<Rightarrow> log_audit e ''intent.rollback_failed'' (pr_IntentID pr @ '' err='' @ err) m1
      | (None, m1) \<Rightarrow>
          log_audit e ''intent.rolled_back'' (pr_Kind pr @ '' target='' @ pr_Target pr @ '' (condition cleared)'') m1)"

definition rollbackOnClear :: "('s, 'w) Engine \<Rightarrow> string \<Rightarrow> Rule \<Rightarrow> ('s, 'w) mem \<Rightarrow> ('s, 'w) mem" where
  "rollbackOnClear e corr r m =
     (let key = dedupKey (rule_SHA r) corr
      in case on_store (Outstanding (eng_store e) key) m of
           ((outs, _), m1) \<Rightarrow>
             if outs = [] then m1
             else inc ''intents_rolled_back''
               (snd (on_store (ClearOutstanding (eng_store e) key) (fold (rollback_one e) outs m1))))"

definition revert_due :: "('s, 'w) Engine \<Rightarrow> PendingRevert \<Rightarrow> int \<times> ('s, 'w) mem \<Rightarrow> int \<times> ('s, 'w) mem" where
  "revert_due e pr nm =
     (case revertPending e pr (snd nm) of
        (Some err, m1) \<Rightarrow> (fst nm, log_audit e ''intent.revert_failed'' (pr_IntentID pr @ '' err='' @ err) m1)
      | (None, m1) \<Rightarrow>
          (case on_store (MarkReverted (eng_store e) (pr_IntentID pr)) m1 of
             (Some err, m2) \<Rightarrow>
               (fst nm, log_audit e ''intent.revert_mark_failed'' (pr_IntentID pr @ '' err='' @ err) (inc ''reverts_unmarked'' m2))
           | (None, m2) \<Rightarrow>
               (wrap64 (fst nm + 1),
                inc ''intents_reverted'' (log_audit e ''intent.reverted'' (pr_Kind pr @ '' target='' @ pr_Target pr) m2))))"

definition ProcessDueReverts :: "('s, 'w) Engine \<Rightarrow> time \<Rightarrow> ('s, 'w) mem \<Rightarrow> int result \<times> ('s, 'w) mem" where
  "ProcessDueReverts e now m =
     (case on_store (DueReverts (eng_store e) now) m of
        (Inl err, m1) \<Rightarrow> (Inl err, m1)
      | (Inr due, m1) \<Rightarrow> (let (n, m2) = fold (revert_due e) due (0, m1) in (Inr n, m2)))"

definition Engine_PruneUsage :: "('s, 'w) Engine \<Rightarrow> time \<Rightarrow> ('s, 'w) mem \<Rightarrow> error option \<times> ('s, 'w) mem" where
  "Engine_PruneUsage e before m = on_store (PruneUsage (eng_store e) before) m"

section \<open>Governing and applying\<close>

definition forWindowSatisfied :: "string \<Rightarrow> string \<Rightarrow> duration \<Rightarrow> time \<Rightarrow> time dict \<Rightarrow> bool \<times> time dict" where
  "forWindowSatisfied ruleSHA corr dur now pending =
     (let key = dedupKey ruleSHA corr;
          p1 = filter (\<lambda>(k, first). \<not> time_sub now first > wrap64 (2 * dur)) pending
      in case map_of p1 key of
           None \<Rightarrow> (False, AList.update key now p1)
         | Some first \<Rightarrow> if time_sub now first \<ge> dur then (True, AList.delete key p1) else (False, p1))"

definition budget_detail :: "Rule \<Rightarrow> string" where
  "budget_detail r = ''rule='' @ rule_SHA r @ '' budget='' @ with_IntentBudget (rule_With r)"

definition throttled :: "('s, 'w) Engine \<Rightarrow> Rule \<Rightarrow> time \<Rightarrow> ('s, 'w) mem \<Rightarrow> bool \<times> ('s, 'w) mem" where
  "throttled e r now m =
     (case ParseIntentBudget (with_IntentBudget (rule_With r)) of
        Inl _ \<Rightarrow> (False, m)
      | Inr (n, window) \<Rightarrow>
          if n = 0 then (False, m)
          else case on_store (CountActions (eng_store e) (rule_SHA r) (time_add now (wrap64 (- window)))) m of
            (Inl err, m1) \<Rightarrow>
              (eng_failMode e = FailClosed,
               log_audit e ''intent.budget_check_failed'' (budget_detail r @ '' err='' @ err) (inc ''budget_check_failed'' m1))
          | (Inr used, m1) \<Rightarrow>
              if used \<ge> n then
                (True, inc ''intents_throttled''
                   (log_audit e ''intent.throttled'' (budget_detail r @ '' used='' @ int_to_dec used) m1))
              else (False,
                case on_store (RecordAction (eng_store e) (rule_SHA r) now) m1 of
                  (Some err, m2) \<Rightarrow>
                    log_audit e ''intent.budget_record_failed'' (budget_detail r @ '' err='' @ err) (inc ''budget_record_failed'' m2)
                | (None, m2) \<Rightarrow> m2))"

text \<open>
  One intent, in the four parts between which another handler can run: up to the claim, the
  actuation, and what follows a failed or a successful actuation.
\<close>

definition sign_intent :: "('s, 'w) Engine \<Rightarrow> RemediationIntent \<Rightarrow> RemediationIntent" where
  "sign_intent e i = i\<lparr>ri_Signature := sg_Sign (eng_signer e) (CanonicalBytes i)\<rparr>"

definition claim_part :: "('s, 'w) Engine \<Rightarrow> RemediationIntent \<Rightarrow> ('s, 'w) mem \<Rightarrow> Result option \<times> ('s, 'w) mem" where
  "claim_part e i m =
     (if ri_DryRun i then
        (Some (result i OutDryRun []), inc ''intents_dry_run'' (log_audit e ''intent.dry_run'' (auditDetail i) m))
      else case on_store (ClaimIntent (eng_store e) (ri_ID i)) m of
        (Inl err, m1) \<Rightarrow>
          if failModeFor e (ri_Kind i) = FailClosed then
            (Some (result i OutFailed ''state unavailable (fail-closed)''),
             inc ''intents_failed'' (log_audit e ''intent.fail_closed'' (auditDetail i) m1))
          else
            (None, log_audit e ''intent.claim_check_failed'' (auditDetail i @ '' err='' @ err) (inc ''claim_check_failed'' m1))
      | (Inr False, m1) \<Rightarrow> (Some (result i OutSkipped []), inc ''intents_skipped'' m1)
      | (Inr True, m1) \<Rightarrow> (None, m1))"

definition failed_part :: "('s, 'w) Engine \<Rightarrow> RemediationIntent \<Rightarrow> error \<Rightarrow> ('s, 'w) mem \<Rightarrow> Result \<times> ('s, 'w) mem" where
  "failed_part e i err m =
     (let m2 = (case on_store (ReleaseIntent (eng_store e) (ri_ID i)) m of
                  (None, m1) \<Rightarrow> m1
                | (Some relErr, m1) \<Rightarrow>
                    log_audit e ''intent.claim_release_failed'' (auditDetail i @ '' err='' @ relErr)
                      (inc ''claim_release_failed'' m1))
      in (result i OutFailed err,
          inc ''intents_failed'' (log_audit e ''intent.failed'' (auditDetail i @ '' err='' @ err) m2)))"

definition applied_part :: "('s, 'w) Engine \<Rightarrow> RemediationIntent \<Rightarrow> time \<Rightarrow> Receipt \<Rightarrow> ('s, 'w) mem \<Rightarrow> Result \<times> ('s, 'w) mem" where
  "applied_part e i now rcpt m =
     (let m2 = (case on_store (AppendAudit (eng_store e) ''intent.applied'' (AppliedAuditDetail i)) m of
                  (Inl _, m1) \<Rightarrow> inc ''audit_write_failed'' m1
                | (Inr _, m1) \<Rightarrow> m1);
          m3 = (if ri_TTL i > 0 then
                  (case on_store (ScheduleRevert (eng_store e) (revert_of i (time_add now (ri_TTL i)))) m2 of
                     (None, m1) \<Rightarrow> m1
                   | (Some err, m1) \<Rightarrow>
                       log_audit e ''intent.revert_unscheduled'' (auditDetail i @ '' err='' @ err)
                         (inc ''reverts_unscheduled'' m1))
                else m2)
      in ((result i OutApplied [])\<lparr>res_Receipt := rcpt\<rparr>, inc ''intents_applied'' m3))"

definition applyIntent :: "('s, 'w) Engine \<Rightarrow> RemediationIntent \<Rightarrow> time \<Rightarrow> ('s, 'w) mem \<Rightarrow> Result \<times> ('s, 'w) mem" where
  "applyIntent e i0 now m =
     (let i = sign_intent e i0
      in case claim_part e i m of
           (Some r, m1) \<Rightarrow> (r, m1)
         | (None, m1) \<Rightarrow>
             (case on_world (Registry_Apply (eng_reg e) i) m1 of
                ((rcpt, Some err), m2) \<Rightarrow> failed_part e i err m2
              | ((rcpt, None), m2) \<Rightarrow> applied_part e i now rcpt m2))"

section \<open>One signal\<close>

fun apply_intents :: "('s, 'w) Engine \<Rightarrow> RemediationIntent list \<Rightarrow> time \<Rightarrow> ('s, 'w) mem \<Rightarrow> Result list \<times> ('s, 'w) mem" where
  "apply_intents e [] now m = ([], m)"
| "apply_intents e (i # is) now m =
     (let (r, m1) = applyIntent e i now m; (rs, m2) = apply_intents e is now m1 in (r # rs, m2))"

definition record_outstanding :: "('s, 'w) Engine \<Rightarrow> string \<Rightarrow> RemediationIntent \<Rightarrow> ('s, 'w) mem \<Rightarrow> ('s, 'w) mem" where
  "record_outstanding e key i m = snd (on_store (RecordOutstanding (eng_store e) key (revert_of i zero_time)) m)"

definition applied_of :: "Result list \<Rightarrow> RemediationIntent list" where
  "applied_of rs = map res_Intent (filter (\<lambda>r. res_Outcome r = OutApplied) rs)"

definition fire_rule :: "('s, 'w) Engine \<Rightarrow> Signal \<Rightarrow> time \<Rightarrow> Match \<Rightarrow> ('s, 'w) mem \<Rightarrow> Result list \<times> ('s, 'w) mem" where
  "fire_rule e sig now mt m =
     (let (rs, m1) = apply_intents e (m_Intents mt) now m; r = m_Rule mt
      in (rs, if with_Rollback (rule_With r) = ''on_clear''
              then fold (record_outstanding e (dedupKey (rule_SHA r) (sig_CorrelationKey sig))) (applied_of rs) m1
              else m1))"

definition rule_result :: "Rule \<Rightarrow> Outcome \<Rightarrow> string \<Rightarrow> Result" where
  "rule_result r out err = result (zero_intent\<lparr>ri_RuleSHA := rule_SHA r\<rparr>) out err"

definition window_open :: "('s, 'w) Engine \<Rightarrow> Signal \<Rightarrow> time \<Rightarrow> Rule \<Rightarrow> ('s, 'w) mem \<Rightarrow> bool \<times> ('s, 'w) mem" where
  "window_open e sig now r m =
     (if rule_For r > 0 \<and> \<not> eng_immediate e
      then (let (ok, p) = forWindowSatisfied (rule_SHA r) (sig_CorrelationKey sig) (rule_For r) now (m_pending m)
            in (ok, m\<lparr>m_pending := p\<rparr>))
      else (True, m))"

definition handle_match ::
    "('s, 'w) Engine \<Rightarrow> Signal \<Rightarrow> time \<Rightarrow> string list \<Rightarrow> Match \<Rightarrow> ('s, 'w) mem \<Rightarrow> Result list \<times> ('s, 'w) mem" where
  "handle_match e sig now inconclusive mt m =
     (let r = m_Rule mt in
      if rule_SHA r \<in> set inconclusive then ([], m)
      else case window_open e sig now r m of
        (False, m1) \<Rightarrow> ([rule_result r OutPending []], m1)
      | (True, m1) \<Rightarrow>
          (case throttled e r now m1 of
             (True, m2) \<Rightarrow> ([rule_result r OutThrottled []], m2)
           | (False, m2) \<Rightarrow> fire_rule e sig now mt m2))"

fun handle_matches ::
    "('s, 'w) Engine \<Rightarrow> Signal \<Rightarrow> time \<Rightarrow> string list \<Rightarrow> Match list \<Rightarrow> ('s, 'w) mem \<Rightarrow> Result list \<times> ('s, 'w) mem" where
  "handle_matches e sig now bl [] m = ([], m)"
| "handle_matches e sig now bl (mt # mts) m =
     (let (rs, m1) = handle_match e sig now bl mt m; (rs', m2) = handle_matches e sig now bl mts m1
      in (rs @ rs', m2))"

text \<open>The state the rules see, the rules that could not be evaluated, and their results.\<close>

definition read_state ::
    "('s, 'w) Engine \<Rightarrow> Signal \<Rightarrow> time \<Rightarrow> ('s, 'w) mem \<Rightarrow> args \<times> Rule list \<times> ('s, 'w) mem" where
  "read_state e sig now m =
     (case eng_led e of
        None \<Rightarrow> (None, [], m)
      | Some l \<Rightarrow>
          (case on_store (StateFor (eng_store e) l (sub_Tenant (sig_Subject sig)) now) m of
             (Inr st, m1) \<Rightarrow> (Some st, [], m1)
           | (Inl _, m1) \<Rightarrow>
               (let m2 = inc ''state_unavailable'' m1;
                    rs = (if eng_failMode e = FailClosed then StateDependentRules (eng_rec e) (sig_Type sig) else [])
                in (None, rs,
                    fold (\<lambda>r. log_audit e ''state.fail_closed'' (''rule='' @ rule_SHA r @ '' (state unavailable)'')) rs m2))))"

definition Handle :: "('s, 'w) Engine \<Rightarrow> Signal \<Rightarrow> ('s, 'w) mem \<Rightarrow> Result list \<times> ('s, 'w) mem" where
  "Handle e sig m0 =
     (let m1 = inc ''signals_handled'' m0;
          now = eng_now e (m_world m1);
          (st, blocked, m2) = read_state e sig now m1;
          (rs, m3) = handle_matches e sig now (map rule_SHA blocked) (EvaluateMatches (eng_rec e) sig st) m2
      in (map (\<lambda>r. rule_result r OutFailed ''state unavailable (fail-closed)'') blocked @ rs,
          fold (rollbackOnClear e (sig_CorrelationKey sig)) (Cleared (eng_rec e) sig st) m3))"

section \<open>What the engine does to the store\<close>

text \<open>
  Whatever the engine does, the store changes by a sequence of calls.  The calls that matter
  for the at-most-once gate are claims and releases; the others are housekeeping.
\<close>

definition steps_by :: "'s store_ops \<Rightarrow> (store_call \<Rightarrow> bool) \<Rightarrow> 's \<Rightarrow> 's \<Rightarrow> bool" where
  "steps_by ops P s s' \<longleftrightarrow> (\<exists>cs. list_all P cs \<and> s' = run_calls ops cs s)"

fun housekeeping :: "store_call \<Rightarrow> bool" where
  "housekeeping (Claim _) = False"
| "housekeeping (Release _) = False"
| "housekeeping _ = True"

definition gate_call :: "string \<Rightarrow> store_call \<Rightarrow> bool" where
  "gate_call i c \<longleftrightarrow> housekeeping c \<or> c = Claim i \<or> c = Release i"

lemma run_calls_append [simp]: "run_calls ops (cs @ ds) s = run_calls ops ds (run_calls ops cs s)"
  by (induction cs arbitrary: s) simp_all

lemma steps_refl [simp]: "steps_by ops P s s"
  by (auto simp: steps_by_def intro: exI [of _ "[]"])

lemma steps_trans [trans]: "steps_by ops P s s' \<Longrightarrow> steps_by ops P s' s'' \<Longrightarrow> steps_by ops P s s''"
proof -
  assume "steps_by ops P s s'" "steps_by ops P s' s''"
  then obtain cs ds where "list_all P cs" "s' = run_calls ops cs s" "list_all P ds" "s'' = run_calls ops ds s'"
    by (auto simp: steps_by_def)
  then show ?thesis by (auto simp: steps_by_def intro!: exI [of _ "cs @ ds"])
qed

lemma steps_mono: "steps_by ops P s s' \<Longrightarrow> (\<And>c. P c \<Longrightarrow> Q c) \<Longrightarrow> steps_by ops Q s s'"
  by (auto simp: steps_by_def list_all_iff)

lemma steps_invoke: "P c \<Longrightarrow> steps_by ops P s (snd (invoke ops c s))"
  by (auto simp: steps_by_def intro!: exI [of _ "[c]"])

lemma steps_fold:
  "(\<And>x m. x \<in> set xs \<Longrightarrow> steps_by ops P (f m) (f (g x m))) \<Longrightarrow> steps_by ops P (f m) (f (fold g xs m))"
  by (induction xs arbitrary: m) (auto intro: steps_trans)

lemma on_store_simps [simp]:
  "fst (on_store f m) = fst (f (m_store m))"
  "m_store (snd (on_store f m)) = snd (f (m_store m))"
  "m_world (snd (on_store f m)) = m_world m"
  "m_pending (snd (on_store f m)) = m_pending m"
  by (simp_all add: on_store_def case_prod_beta)

lemma inc_simps [simp]:
  "m_store (inc n m) = m_store m" "m_world (inc n m) = m_world m" "m_pending (inc n m) = m_pending m"
  by (simp_all add: inc_def)

lemma log_audit_simps [simp]:
  "m_store (log_audit e k d m) = snd (AppendAudit (eng_store e) k d (m_store m))"
  "m_world (log_audit e k d m) = m_world m" "m_pending (log_audit e k d m) = m_pending m"
  by (simp_all add: log_audit_def)

lemma on_world_simps [simp]:
  "fst (on_world f m) = fst (f (m_world m))"
  "m_world (snd (on_world f m)) = snd (f (m_world m))"
  "m_store (snd (on_world f m)) = m_store m"
  "m_pending (snd (on_world f m)) = m_pending m"
  by (simp_all add: on_world_def case_prod_beta)

text \<open>The calls, as steps.\<close>

lemma call_steps:
  "P (Append k d) \<Longrightarrow> steps_by ops P s (snd (AppendAudit ops k d s))"
  "P (Claim i) \<Longrightarrow> steps_by ops P s (snd (ClaimIntent ops i s))"
  "P (Release i) \<Longrightarrow> steps_by ops P s (snd (ReleaseIntent ops i s))"
  "P (Schedule r) \<Longrightarrow> steps_by ops P s (snd (ScheduleRevert ops r s))"
  "P (Due t) \<Longrightarrow> steps_by ops P s (snd (DueReverts ops t s))"
  "P (Mark i) \<Longrightarrow> steps_by ops P s (snd (MarkReverted ops i s))"
  "P (Record_Action sha t) \<Longrightarrow> steps_by ops P s (snd (RecordAction ops sha t s))"
  "P (Count sha t) \<Longrightarrow> steps_by ops P s (snd (CountActions ops sha t s))"
  "P (Record_Outstanding key r) \<Longrightarrow> steps_by ops P s (snd (RecordOutstanding ops key r s))"
  "P (Get_Outstanding key) \<Longrightarrow> steps_by ops P s (snd (Outstanding ops key s))"
  "P (Clear key) \<Longrightarrow> steps_by ops P s (snd (ClearOutstanding ops key s))"
  "P (Spend tn t) \<Longrightarrow> steps_by ops P s (snd (SpendSince ops tn t s))"
  "P (Prune t) \<Longrightarrow> steps_by ops P s (snd (PruneUsage ops t s))"
  using steps_invoke [of P _ ops s] by (metis invoke.simps snd_conv)+

lemmas call_intros [intro!] = call_steps [THEN steps_trans [rotated]]

lemma on_storeD:
  "on_store f m = (r, m') \<Longrightarrow>
   r = fst (f (m_store m)) \<and> m_store m' = snd (f (m_store m)) \<and> m_world m' = m_world m \<and> m_pending m' = m_pending m"
  using on_store_simps [of f m] by simp

lemma on_worldD:
  "on_world f m = (r, m') \<Longrightarrow>
   r = fst (f (m_world m)) \<and> m_world m' = snd (f (m_world m)) \<and> m_store m' = m_store m \<and> m_pending m' = m_pending m"
  using on_world_simps [of f m] by simp

lemma gate_call_intros [simp]:
  "housekeeping c \<Longrightarrow> gate_call i c" "gate_call i (Claim i)" "gate_call i (Release i)"
  by (simp_all add: gate_call_def)

lemma revertPending_store [simp]: "m_store (snd (revertPending e pr m)) = m_store m"
  by (simp add: revertPending_def case_prod_beta)

lemma revertPendingD:
  "revertPending e pr m = (err, m') \<Longrightarrow>
   m_store m' = m_store m \<and> m_pending m' = m_pending m
   \<and> m_world m' = snd (Registry_Revert (eng_reg e) (pending_intent pr) (m_world m))
   \<and> err = snd (fst (Registry_Revert (eng_reg e) (pending_intent pr) (m_world m)))"
  by (auto simp: revertPending_def case_prod_beta)

lemma rollback_one_steps: "steps_by (eng_store e) housekeeping (m_store m) (m_store (rollback_one e pr m))"
  by (auto simp: rollback_one_def dest!: revertPendingD split: prod.splits option.splits)

lemma rollbackOnClear_steps:
  "steps_by (eng_store e) housekeeping (m_store m) (m_store (rollbackOnClear e corr r m))"
proof -
  obtain outs err m1 where o: "on_store (Outstanding (eng_store e) (dedupKey (rule_SHA r) corr)) m = ((outs, err), m1)"
    by (metis prod.collapse)
  have 1: "steps_by (eng_store e) housekeeping (m_store m) (m_store m1)"
    using on_storeD [OF o] by auto
  have "steps_by (eng_store e) housekeeping (m_store m1) (m_store (fold (rollback_one e) outs m1))"
    by (rule steps_fold) (rule rollback_one_steps)
  with 1 show ?thesis by (auto simp: rollbackOnClear_def o Let_def intro: steps_trans)
qed

lemma revert_due_steps:
  "steps_by (eng_store e) housekeeping (m_store (snd nm)) (m_store (snd (revert_due e pr nm)))"
  by (auto simp: revert_due_def dest!: revertPendingD on_storeD split: prod.splits option.splits)

lemma ProcessDueReverts_steps:
  "steps_by (eng_store e) housekeeping (m_store m) (m_store (snd (ProcessDueReverts e now m)))"
proof -
  obtain r m1 where d: "on_store (DueReverts (eng_store e) now) m = (r, m1)" by fastforce
  have 1: "steps_by (eng_store e) housekeeping (m_store m) (m_store m1)" using on_storeD [OF d] by auto
  have "steps_by (eng_store e) housekeeping (m_store m1) (m_store (snd (fold (revert_due e) due (0, m1))))" for due
    using steps_fold [of due "eng_store e" housekeeping "\<lambda>nm. m_store (snd nm)" "revert_due e" "(0, m1)"] revert_due_steps [of e]
    by simp
  with 1 show ?thesis
    by (auto simp: ProcessDueReverts_def d case_prod_beta split: sum.splits intro: steps_trans)
qed

lemma throttled_steps: "steps_by (eng_store e) housekeeping (m_store m) (m_store (snd (throttled e r now m)))"
  by (auto simp: throttled_def dest!: on_storeD split: prod.splits sum.splits option.splits)

lemma claim_part_steps: "steps_by (eng_store e) (gate_call (ri_ID i)) (m_store m) (m_store (snd (claim_part e i m)))"
  by (auto simp: claim_part_def dest!: on_storeD split: prod.splits sum.splits bool.splits)

lemma failed_part_steps: "steps_by (eng_store e) (gate_call (ri_ID i)) (m_store m) (m_store (snd (failed_part e i err m)))"
  by (auto simp: failed_part_def Let_def dest!: on_storeD split: prod.splits option.splits)

lemma applied_part_steps: "steps_by (eng_store e) housekeeping (m_store m) (m_store (snd (applied_part e i now rc m)))"
  by (auto simp: applied_part_def Let_def dest!: on_storeD split: prod.splits sum.splits option.splits)

lemma sign_intent_simps [simp]:
  "ri_ID (sign_intent e i) = ri_ID i" "ri_Kind (sign_intent e i) = ri_Kind i" "ri_DryRun (sign_intent e i) = ri_DryRun i"
  "ri_TTL (sign_intent e i) = ri_TTL i" "ri_Target (sign_intent e i) = ri_Target i" "ri_Args (sign_intent e i) = ri_Args i"
  by (simp_all add: sign_intent_def)

lemma applyIntent_steps:
  "steps_by (eng_store e) (gate_call (ri_ID i)) (m_store m) (m_store (snd (applyIntent e i now m)))"
proof -
  let ?i = "sign_intent e i"
  obtain r m1 where c: "claim_part e ?i m = (r, m1)" by fastforce
  have 1: "steps_by (eng_store e) (gate_call (ri_ID i)) (m_store m) (m_store m1)"
    using claim_part_steps [of e ?i m] by (simp add: c)
  obtain rcpt err m2 where w: "on_world (Registry_Apply (eng_reg e) ?i) m1 = ((rcpt, err), m2)" by (metis prod.collapse)
  have st: "m_store m2 = m_store m1" using on_worldD [OF w] by simp
  have "steps_by (eng_store e) (gate_call (ri_ID i)) (m_store m2) (m_store (snd (applied_part e ?i now rcpt m2)))"
    by (rule steps_mono [OF applied_part_steps]) simp
  moreover have "steps_by (eng_store e) (gate_call (ri_ID i)) (m_store m2) (m_store (snd (failed_part e ?i x m2)))" for x
    using failed_part_steps [of e ?i m2] by simp
  ultimately show ?thesis
    using 1 st by (auto simp: applyIntent_def c w Let_def split: option.splits intro: steps_trans)
qed

lemma apply_intents_steps:
  "steps_by (eng_store e) (\<lambda>c. \<exists>i\<in>set is. gate_call (ri_ID i) c) (m_store m) (m_store (snd (apply_intents e is now m)))"
proof (induction "is" arbitrary: m)
  case (Cons i "is")
  have "steps_by (eng_store e) (\<lambda>c. \<exists>j\<in>set (i # is). gate_call (ri_ID j) c) (m_store m) (m_store (snd (applyIntent e i now m)))"
    by (rule steps_mono [OF applyIntent_steps]) simp
  also have "steps_by (eng_store e) (\<lambda>c. \<exists>j\<in>set (i # is). gate_call (ri_ID j) c) (m_store (snd (applyIntent e i now m)))
      (m_store (snd (apply_intents e is now (snd (applyIntent e i now m)))))"
    by (rule steps_mono [OF Cons.IH]) auto
  finally show ?case by (simp add: case_prod_beta)
qed simp

abbreviation any_call :: "store_call \<Rightarrow> bool" where
  "any_call \<equiv> \<lambda>_. True"

lemma steps_any: "steps_by ops P s s' \<Longrightarrow> steps_by ops any_call s s'"
  by (erule steps_mono) simp

lemma record_outstanding_steps: "steps_by (eng_store e) housekeeping (m_store m) (m_store (record_outstanding e key i m))"
  by (auto simp: record_outstanding_def)

lemma fire_rule_steps: "steps_by (eng_store e) any_call (m_store m) (m_store (snd (fire_rule e sig now mt m)))"
proof -
  let ?m1 = "snd (apply_intents e (m_Intents mt) now m)"
  have "steps_by (eng_store e) any_call (m_store m) (m_store ?m1)" by (rule steps_any) (rule apply_intents_steps)
  moreover have "steps_by (eng_store e) any_call (m_store ?m1) (m_store (fold (record_outstanding e key) is ?m1))" for key "is"
    by (rule steps_fold) (rule steps_any [OF record_outstanding_steps])
  ultimately show ?thesis by (auto simp: fire_rule_def case_prod_beta Let_def intro: steps_trans)
qed

lemma window_open_store [simp]:
  "m_store (snd (window_open e sig now r m)) = m_store m" "m_world (snd (window_open e sig now r m)) = m_world m"
  by (simp_all add: window_open_def case_prod_beta)

lemma handle_match_steps: "steps_by (eng_store e) any_call (m_store m) (m_store (snd (handle_match e sig now bl mt m)))"
proof -
  obtain b m1 where w: "window_open e sig now (m_Rule mt) m = (b, m1)" by fastforce
  obtain t m2 where t: "throttled e (m_Rule mt) now m1 = (t, m2)" by fastforce
  have m1: "m_store m1 = m_store m" using window_open_store(1) [of e sig now "m_Rule mt" m] by (simp add: w)
  have 1: "steps_by (eng_store e) any_call (m_store m) (m_store m2)"
    using steps_any [OF throttled_steps [of e m1 "m_Rule mt" now]] by (simp add: t m1)
  show ?thesis
    using 1 steps_trans [OF 1 fire_rule_steps] m1
    by (auto simp: handle_match_def w t Let_def split: bool.splits)
qed

lemma handle_matches_steps: "steps_by (eng_store e) any_call (m_store m) (m_store (snd (handle_matches e sig now bl mts m)))"
  by (induction mts arbitrary: m) (auto simp: case_prod_beta intro: steps_trans [OF handle_match_steps])

lemma StateFor_steps: "steps_by ops housekeeping s (snd (StateFor ops l tn now s))"
proof -
  obtain r s1 where 1: "SpendSince ops tn (time_add now (- hour)) s = (r, s1)" by fastforce
  obtain r2 s2 where 2: "SpendSince ops tn (time_add now (- (24 * hour))) s1 = (r2, s2)" by fastforce
  have a: "steps_by ops housekeeping s s1" using call_steps(12) [of housekeeping tn "time_add now (- hour)" ops s] by (simp add: 1)
  have b: "steps_by ops housekeeping s1 s2"
    using call_steps(12) [of housekeeping tn "time_add now (- (24 * hour))" ops s1] by (simp add: 2)
  show ?thesis using a steps_trans [OF a b] by (auto simp: StateFor_def 1 2 split: sum.splits)
qed

lemma read_state_steps: "steps_by (eng_store e) housekeeping (m_store m) (m_store (snd (snd (read_state e sig now m))))"
proof (cases "eng_led e")
  case (Some l)
  let ?rd = "StateFor (eng_store e) l (sub_Tenant (sig_Subject sig)) now"
  obtain r m1 where 1: "on_store ?rd m = (r, m1)" by fastforce
  have a: "steps_by (eng_store e) housekeeping (m_store m) (m_store m1)"
    using on_storeD [OF 1] StateFor_steps [of "eng_store e" "m_store m" l "sub_Tenant (sig_Subject sig)" now] by simp
  have f: "steps_by (eng_store e) housekeeping (m_store (inc x m1)) (m_store (fold (\<lambda>r. log_audit e k (d r)) rs (inc x m1)))"
    for x k d rs
    by (rule steps_fold) (auto intro: call_steps)
  show ?thesis
    using a steps_trans [OF a f [unfolded inc_simps]]
    by (auto simp: read_state_def Some 1 Let_def split: sum.splits simp del: append_Cons)
qed (simp add: read_state_def)

lemma Handle_steps: "steps_by (eng_store e) any_call (m_store m) (m_store (snd (Handle e sig m)))"
proof -
  let ?m1 = "inc ''signals_handled'' m" and ?now = "eng_now e (m_world m)"
  obtain st bl m2 where r: "read_state e sig ?now ?m1 = (st, bl, m2)" by (cases "read_state e sig ?now ?m1")
  obtain rs m3 where h: "handle_matches e sig ?now (map rule_SHA bl) (EvaluateMatches (eng_rec e) sig st) m2 = (rs, m3)"
    by fastforce
  have "steps_by (eng_store e) any_call (m_store m) (m_store m2)"
    using steps_any [OF read_state_steps [of e ?m1 sig ?now]] by (simp add: r)
  also have "steps_by (eng_store e) any_call (m_store m2) (m_store m3)"
    using handle_matches_steps [of e m2 sig ?now "map rule_SHA bl" "EvaluateMatches (eng_rec e) sig st"] by (simp add: h)
  also have "steps_by (eng_store e) any_call (m_store m3)
      (m_store (fold (rollbackOnClear e (sig_CorrelationKey sig)) (Cleared (eng_rec e) sig st) m3))"
    by (rule steps_fold) (rule steps_any [OF rollbackOnClear_steps])
  finally show ?thesis using r h by (simp add: Handle_def Let_def)
qed

end
