(* ===== verification/Handlers.thy ===== *)
theory Handlers
  imports Engine
begin

text \<open>
  Correctness of the engine's handlers, for every backend that keeps the contract \<^verbatim>\<open>store\<close>:
  handlers that run concurrently apply an intent at most once, one intent changes the abstract
  contents of the store as specified on every path, due reverts are processed, rollback and
  what it forgets.  The properties are stated on the SQLite backend.
\<close>

section \<open>Interleaved handlers\<close>

text \<open>
  The daemon runs one goroutine per request.  A handler of one intent is a thread whose
  program counter stands between the four parts of \<^verbatim>\<open>applyIntent\<close>; a schedule says which thread
  takes the next step.  Threads share the store and the outside world.
\<close>

datatype pc = Start | Claimed | Failed error | Applied Receipt | Done Result

record thread =
  th_intent :: RemediationIntent
  th_now :: time
  th_pc :: pc

definition thread_step :: "('s, 'w) Engine \<Rightarrow> thread \<Rightarrow> ('s, 'w) mem \<Rightarrow> thread \<times> ('s, 'w) mem" where
  "thread_step e t m =
     (let i = sign_intent e (th_intent t)
      in case th_pc t of
           Start \<Rightarrow>
             (case claim_part e i m of
                (Some r, m1) \<Rightarrow> (t\<lparr>th_pc := Done r\<rparr>, m1)
              | (None, m1) \<Rightarrow> (t\<lparr>th_pc := Claimed\<rparr>, m1))
         | Claimed \<Rightarrow>
             (case on_world (Registry_Apply (eng_reg e) i) m of
                ((rcpt, Some err), m1) \<Rightarrow> (t\<lparr>th_pc := Failed err\<rparr>, m1)
              | ((rcpt, None), m1) \<Rightarrow> (t\<lparr>th_pc := Applied rcpt\<rparr>, m1))
         | Failed err \<Rightarrow> (let (r, m1) = failed_part e i err m in (t\<lparr>th_pc := Done r\<rparr>, m1))
         | Applied rcpt \<Rightarrow> (let (r, m1) = applied_part e i (th_now t) rcpt m in (t\<lparr>th_pc := Done r\<rparr>, m1))
         | Done r \<Rightarrow> (t, m))"

fun interleave :: "('s, 'w) Engine \<Rightarrow> nat list \<Rightarrow> thread list \<Rightarrow> ('s, 'w) mem \<Rightarrow> thread list \<times> ('s, 'w) mem" where
  "interleave e [] ts m = (ts, m)"
| "interleave e (n # sched) ts m =
     (if n < length ts
      then let (t, m1) = thread_step e (ts ! n) m in interleave e sched (ts[n := t]) m1
      else interleave e sched ts m)"

definition start :: "RemediationIntent \<Rightarrow> time \<Rightarrow> thread" where
  "start i now = \<lparr>th_intent = i, th_now = now, th_pc = Start\<rparr>"

text \<open>A thread that runs without interference computes \<^verbatim>\<open>applyIntent\<close>.\<close>

lemma thread_alone:
  "interleave e [0, 0, 0] [start i now] m =
     ([(start i now)\<lparr>th_pc := Done (fst (applyIntent e i now m))\<rparr>], snd (applyIntent e i now m))"
  by (auto simp: start_def thread_step_def applyIntent_def Let_def split: prod.splits option.splits)

text \<open>The threads that have the right to apply an id, or have used it.\<close>

fun holds :: "pc \<Rightarrow> bool" where
  "holds Start = False"
| "holds (Done r) = (res_Outcome r = OutApplied)"
| "holds _ = True"

definition holder :: "string \<Rightarrow> thread \<Rightarrow> bool" where
  "holder i t \<longleftrightarrow> ri_ID (th_intent t) = i \<and> holds (th_pc t)"

definition holders :: "string \<Rightarrow> thread list \<Rightarrow> nat" where
  "holders i ts = length (filter (holder i) ts)"

lemma holders_update:
  assumes "n < length ts"
  shows "holders i (ts[n := t]) + (if holder i (ts ! n) then 1 else 0) = holders i ts + (if holder i t then 1 else 0)"
proof -
  have "ts = take n ts @ ts ! n # drop (Suc n) ts" using assms by (rule id_take_nth_drop)
  then have "holders i ts = length (filter (holder i) (take n ts @ ts ! n # drop (Suc n) ts))" by (simp add: holders_def)
  then show ?thesis using assms by (simp add: holders_def upd_conv_take_nth_drop)
qed

lemma thread_step_intent [simp]: "th_intent (fst (thread_step e t m)) = th_intent t"
  by (auto simp: thread_step_def Let_def case_prod_beta split: pc.splits prod.splits option.splits)

lemma result_outcome [simp]: "res_Outcome (result i out err) = out" "res_Intent (result i out err) = i"
  by (simp_all add: result_def)

lemma out_distinct [simp]:
  "OutDryRun \<noteq> OutApplied" "OutFailed \<noteq> OutApplied" "OutSkipped \<noteq> OutApplied"
  "OutPending \<noteq> OutApplied" "OutThrottled \<noteq> OutApplied"
  by (simp_all add: out_defs)

declare out_distinct [symmetric, simp]

context store
begin

lemma steps_inv: "steps_by ops P s s' \<Longrightarrow> sinv s \<Longrightarrow> sinv s'"
  by (auto simp: steps_by_def run_calls_inv)

lemma run_calls_healthy: "sinv s \<Longrightarrow> healthy s \<Longrightarrow> healthy (run_calls ops cs s)"
  by (induction cs arbitrary: s) (simp_all add: invoke_inv invoke_healthy)

lemma steps_healthy: "steps_by ops P s s' \<Longrightarrow> sinv s \<Longrightarrow> healthy s \<Longrightarrow> healthy s'"
  by (auto simp: steps_by_def run_calls_healthy)

lemma steps_keep_claim:
  "steps_by ops P s s' \<Longrightarrow> sinv s \<Longrightarrow> (\<And>c. P c \<Longrightarrow> c \<noteq> Release i) \<Longrightarrow> i \<in> v_claimed (vw s) \<Longrightarrow> i \<in> v_claimed (vw s')"
proof -
  have "sinv s \<Longrightarrow> list_all P cs \<Longrightarrow> i \<in> v_claimed (vw s) \<Longrightarrow> i \<in> v_claimed (vw (run_calls ops cs s))"
    if "\<And>c. P c \<Longrightarrow> c \<noteq> Release i" for cs
    by (induction cs arbitrary: s) (simp_all add: invoke_inv invoke_keeps_claims that)
  then show "steps_by ops P s s' \<Longrightarrow> sinv s \<Longrightarrow> (\<And>c. P c \<Longrightarrow> c \<noteq> Release i) \<Longrightarrow> i \<in> v_claimed (vw s) \<Longrightarrow> ?thesis"
    by (auto simp: steps_by_def)
qed

lemma housekeeping_claimed:
  assumes "steps_by ops housekeeping s s'" and "sinv s"
  shows "v_claimed (vw s') = v_claimed (vw s)"
proof -
  have 1: "v_claimed (vw (snd (invoke ops c s))) = v_claimed (vw s)" if "sinv s" "housekeeping c" for c s
    using invoke_claimed [OF that(1), of c] that(2) by (cases c) (auto simp: call_effect_claimed)
  have "sinv s \<Longrightarrow> list_all housekeeping cs \<Longrightarrow> v_claimed (vw (run_calls ops cs s)) = v_claimed (vw s)" for cs
    by (induction cs arbitrary: s) (simp_all add: invoke_inv 1)
  then show ?thesis using assms by (auto simp: steps_by_def)
qed

lemma claim_part_no_release:
  "steps_by (eng_store e) (\<lambda>c. housekeeping c \<or> c = Claim (ri_ID i)) (m_store m) (m_store (snd (claim_part e i m)))"
  by (auto simp: claim_part_def dest!: on_storeD split: prod.splits sum.splits bool.splits)

lemma claim_part_None:
  assumes "eng_store e = ops" "sinv (m_store m)" "claim_part e i m = (None, m1)"
    and "failModeFor e (ri_Kind i) = FailClosed \<or> healthy (m_store m)"
  shows "ri_ID i \<notin> v_claimed (vw (m_store m)) \<and> ri_ID i \<in> v_claimed (vw (m_store m1))"
proof -
  have "claim_ok vw sinv healthy (ri_ID i) (m_store m) (ClaimIntent ops (ri_ID i) (m_store m))"
    by (rule claim_law [OF assms(2)])
  with assms(1,3,4) show ?thesis
    by (auto simp: claim_part_def claim_ok_def step_ok_def dest!: on_storeD split: if_splits prod.splits sum.splits bool.splits)
qed

lemma claim_part_Some: "claim_part e i m = (Some r, m1) \<Longrightarrow> res_Outcome r \<noteq> OutApplied"
  by (auto simp: claim_part_def split: if_splits prod.splits sum.splits bool.splits)

lemma other_thread_keeps:
  assumes "eng_store e = ops" "sinv (m_store m)" "ri_ID (th_intent t) \<noteq> i" "i \<in> v_claimed (vw (m_store m))"
  shows "i \<in> v_claimed (vw (m_store (snd (thread_step e t m))))"
proof -
  let ?j = "sign_intent e (th_intent t)"
  have g: "gate_call (ri_ID ?j) c \<Longrightarrow> c \<noteq> Release i" for c using assms(3) by (auto simp: gate_call_def)
  have h: "housekeeping c \<Longrightarrow> c \<noteq> Release i" for c by auto
  have "i \<in> v_claimed (vw (m_store (snd (claim_part e ?j m))))"
    "i \<in> v_claimed (vw (m_store (snd (failed_part e ?j x m))))"
    "i \<in> v_claimed (vw (m_store (snd (applied_part e ?j n rc m))))" for x n rc
    using steps_keep_claim [OF claim_part_steps [of e ?j m, unfolded assms(1)] assms(2) g assms(4)]
      steps_keep_claim [OF failed_part_steps [of e ?j m x, unfolded assms(1)] assms(2) g assms(4)]
      steps_keep_claim [OF applied_part_steps [of e m ?j n rc, unfolded assms(1)] assms(2) h assms(4)]
    by simp_all
  then show ?thesis using assms(4)
    by (auto simp: thread_step_def Let_def case_prod_beta dest!: on_worldD split: pc.splits prod.splits option.splits)
qed

lemma thread_step_steps:
  "steps_by (eng_store e) (gate_call (ri_ID (th_intent t))) (m_store m) (m_store (snd (thread_step e t m)))"
proof -
  let ?j = "sign_intent e (th_intent t)"
  have "steps_by (eng_store e) (gate_call (ri_ID ?j)) (m_store m) (m_store (snd (applied_part e ?j n rc m)))" for n rc
    by (rule steps_mono [OF applied_part_steps]) simp
  with claim_part_steps [of e ?j m] failed_part_steps [of e ?j m] show ?thesis
    by (auto simp: thread_step_def Let_def case_prod_beta dest!: on_worldD split: pc.splits prod.splits option.splits)
qed

lemma own_step:
  assumes "eng_store e = ops" "sinv (m_store m)" "ri_ID (th_intent t) = i"
    and "failModeFor e (ri_Kind (th_intent t)) = FailClosed \<or> healthy (m_store m)"
    and "thread_step e t m = (t', m')"
  shows "holder i t' \<Longrightarrow> \<not> holder i t \<Longrightarrow> i \<notin> v_claimed (vw (m_store m)) \<and> i \<in> v_claimed (vw (m_store m'))"
    and "holder i t' = holder i t \<Longrightarrow> i \<in> v_claimed (vw (m_store m)) \<Longrightarrow> i \<in> v_claimed (vw (m_store m'))"
proof -
  let ?j = "sign_intent e (th_intent t)"
  have g: "ri_ID (th_intent t') = i" using thread_step_intent [of e t m] assms(3,5) by simp
  show "i \<notin> v_claimed (vw (m_store m)) \<and> i \<in> v_claimed (vw (m_store m'))" if "holder i t'" "\<not> holder i t"
  proof (cases "claim_part e ?j m")
    case (Pair r m1)
    have "r = Some x \<Longrightarrow> res_Outcome x \<noteq> OutApplied" for x using claim_part_Some Pair by blast
    with that assms(3,5) g have "th_pc t = Start \<and> r = None \<and> m' = m1"
      by (cases "th_pc t")
         (auto simp: thread_step_def Let_def holder_def Pair failed_part_def applied_part_def
           split: option.splits prod.splits)
    with Pair claim_part_None [OF assms(1,2), of ?j m1] assms(3,4) show ?thesis by simp
  qed
  show "i \<in> v_claimed (vw (m_store m'))" if "holder i t' = holder i t" "i \<in> v_claimed (vw (m_store m))"
  proof (cases "th_pc t")
    case Start
    have "i \<in> v_claimed (vw (m_store (snd (claim_part e ?j m))))"
      by (rule steps_keep_claim [OF claim_part_no_release [of e ?j m, unfolded assms(1)] assms(2) _ that(2)]) auto
    with Start assms(5) show ?thesis by (auto simp: thread_step_def Let_def split: prod.splits option.splits)
  next
    case (Applied rc)
    have "i \<in> v_claimed (vw (m_store (snd (applied_part e ?j (th_now t) rc m))))"
      by (rule steps_keep_claim [OF applied_part_steps [of e m ?j "th_now t" rc, unfolded assms(1)] assms(2) _ that(2)]) auto
    with Applied assms(5) show ?thesis by (auto simp: thread_step_def Let_def split: prod.splits)
  next
    case Claimed
    then have "m_store m' = m_store m"
      using assms(5) by (auto simp: thread_step_def Let_def dest!: on_worldD split: prod.splits option.splits)
    with that(2) show ?thesis by simp
  next
    case (Failed err)
    then have "\<not> holder i t'" "holder i t"
      using assms(3,5) by (auto simp: thread_step_def Let_def holder_def failed_part_def)
    with that(1) show ?thesis by simp
  next
    case (Done r)
    with assms(5) that(2) show ?thesis by (simp add: thread_step_def)
  qed
qed

lemma interleave_gate:
  assumes "eng_store e = ops" "sinv (m_store m)"
    and "\<And>t. t \<in> set ts \<Longrightarrow> ri_ID (th_intent t) = i \<Longrightarrow> failModeFor e (ri_Kind (th_intent t)) = FailClosed \<or> healthy (m_store m)"
    and "holders i ts \<le> 1" "holders i ts = 1 \<Longrightarrow> i \<in> v_claimed (vw (m_store m))"
    and "interleave e sched ts m = (ts', m')"
  shows "holders i ts' \<le> 1"
  using assms(2-)
proof (induction sched arbitrary: ts m)
  case (Cons n sched)
  show ?case
  proof (cases "n < length ts")
    case False
    then have "interleave e sched ts m = (ts', m')" using Cons.prems(5) by simp
    with Cons.IH [OF Cons.prems(1-4)] show ?thesis by blast
  next
    case True
    define t where "t = ts ! n"
    obtain t1 m1 where st: "thread_step e t m = (t1, m1)" by fastforce
    have t: "t \<in> set ts" using True by (simp add: t_def)
    have sb: "steps_by ops (gate_call (ri_ID (th_intent t))) (m_store m) (m_store m1)"
      using thread_step_steps [of e t m] by (simp add: st assms(1))
    note inv1 = steps_inv [OF sb Cons.prems(1)]
    have it: "th_intent t1 = th_intent t" using thread_step_intent [of e t m] by (simp add: st)
    have fm: "failModeFor e (ri_Kind (th_intent u)) = FailClosed \<or> healthy (m_store m1)"
      if "u \<in> set (ts[n := t1])" "ri_ID (th_intent u) = i" for u
    proof -
      from that(1) have "u \<in> set ts \<or> u = t1" using set_update_subset_insert by fastforce
      with Cons.prems(2) [of u] Cons.prems(2) [OF t] that(2) it show ?thesis
        using steps_healthy [OF sb Cons.prems(1)] by metis
    qed
    have upd: "holders i (ts[n := t1]) + (if holder i t then 1 else 0) = holders i ts + (if holder i t1 then 1 else 0)"
      using holders_update [OF True, of i t1] by (simp add: t_def)
    have new: "holders i (ts[n := t1]) \<le> 1 \<and> (holders i (ts[n := t1]) = 1 \<longrightarrow> i \<in> v_claimed (vw (m_store m1)))"
    proof (cases "ri_ID (th_intent t) = i")
      case False
      then have "\<not> holder i t" "\<not> holder i t1" by (auto simp: holder_def it)
      with upd Cons.prems(3,4) other_thread_keeps [OF assms(1) Cons.prems(1) False] st show ?thesis by simp
    next
      case own: True
      note os = own_step [OF assms(1) Cons.prems(1) own Cons.prems(2) [OF t own] st]
      consider "holder i t1" "\<not> holder i t" | "holder i t1 = holder i t" | "\<not> holder i t1" "holder i t" by blast
      then show ?thesis
      proof cases
        case 1
        with os(1) upd Cons.prems(3,4) show ?thesis by (cases "holders i ts") auto
      next
        case 2
        with os(2) upd Cons.prems(3,4) show ?thesis by auto
      next
        case 3
        with upd Cons.prems(3) show ?thesis by auto
      qed
    qed
    have "interleave e sched (ts[n := t1]) m1 = (ts', m')"
      using Cons.prems(5) True st by (simp add: t_def)
    with Cons.IH [OF inv1 fm] new show ?thesis by blast
  qed
qed simp

end

section \<open>One intent, on the abstract contents\<close>

text \<open>
  The specification: the outcome and the new contents, from the old contents and the answer of
  the actuator.
\<close>

definition spec_apply :: "RemediationIntent \<Rightarrow> time \<Rightarrow> error option \<Rightarrow> view \<Rightarrow> Outcome \<times> view" where
  "spec_apply i now answer v =
     (if ri_DryRun i then (OutDryRun, eff_append ''intent.dry_run'' (auditDetail i) v)
      else if ri_ID i \<in> v_claimed v then (OutSkipped, v)
      else case answer of
        Some err \<Rightarrow> (OutFailed, eff_append ''intent.failed'' (auditDetail i @ '' err='' @ err) v)
      | None \<Rightarrow>
          (OutApplied,
           (if ri_TTL i > 0 then eff_schedule (revert_of i (time_add now (ri_TTL i))) else (\<lambda>v. v))
             (eff_append ''intent.applied'' (AppliedAuditDetail i) (eff_claim (ri_ID i) v))))"

definition actuates :: "RemediationIntent \<Rightarrow> view \<Rightarrow> bool" where
  "actuates i v \<longleftrightarrow> \<not> ri_DryRun i \<and> ri_ID i \<notin> v_claimed v"

lemma release_claimed: "i \<notin> v_claimed v \<Longrightarrow> eff_release i (eff_claim i v) = v"
  by (simp add: eff_release_def eff_claim_def)

context store
begin

lemma healthy_ok:
  "step_ok sinv healthy s ok s' \<Longrightarrow> healthy s \<Longrightarrow> ok" "step_ok sinv healthy s ok s' \<Longrightarrow> healthy s \<Longrightarrow> healthy s'"
  "step_ok sinv healthy s ok s' \<Longrightarrow> sinv s'"
  by (simp_all add: step_ok_def)

lemma healthy_claim:
  assumes "sinv s" "healthy s"
  shows "fst (ClaimIntent ops i s) = Inr (i \<notin> v_claimed (vw s))"
    and "vw (snd (ClaimIntent ops i s)) = eff_claim i (vw s)"
    and "sinv (snd (ClaimIntent ops i s)) \<and> healthy (snd (ClaimIntent ops i s))"
  using claim_law [OF assms(1), of i] assms(2) claim_healthy [OF assms, of i]
  by (auto simp: claim_ok_def step_ok_def split: sum.splits bool.splits)

lemma healthy_append:
  assumes "sinv s" "healthy s"
  shows "vw (snd (AppendAudit ops k d s)) = eff_append k d (vw s)"
    and "\<exists>x. fst (AppendAudit ops k d s) = Inr x"
    and "sinv (snd (AppendAudit ops k d s)) \<and> healthy (snd (AppendAudit ops k d s))"
  using append_law [OF assms(1), of k d] assms(2) append_healthy [OF assms, of k d]
  by (auto simp: append_ok_def step_ok_def split: sum.splits)

lemma healthy_write:
  assumes "write_ok vw sinv healthy eff s r" "healthy s"
  shows "fst r = None" "vw (snd r) = eff (vw s)" "sinv (snd r)" "healthy (snd r)"
  using assms by (auto simp: write_ok_def step_ok_def)

lemma claim_part_healthy:
  assumes "eng_store e = ops" "sinv (m_store m)" "healthy (m_store m)" "claim_part e i m = (r, m1)"
  shows "r = (if ri_DryRun i then Some (result i OutDryRun [])
              else if ri_ID i \<in> v_claimed (vw (m_store m)) then Some (result i OutSkipped []) else None)"
    and "vw (m_store m1) =
           (if ri_DryRun i then eff_append ''intent.dry_run'' (auditDetail i) (vw (m_store m))
            else eff_claim (ri_ID i) (vw (m_store m)))"
    and "m_world m1 = m_world m" "sinv (m_store m1) \<and> healthy (m_store m1)"
  using assms(4) healthy_claim [OF assms(2,3), of "ri_ID i"]
    healthy_append [OF assms(2,3), of "''intent.dry_run''" "auditDetail i"]
  by (auto simp: claim_part_def assms(1) dest!: on_storeD split: if_splits prod.splits bool.splits)

lemma failed_part_healthy:
  assumes "eng_store e = ops" "sinv (m_store m)" "healthy (m_store m)"
  shows "fst (failed_part e i err m) = result i OutFailed err"
    and "vw (m_store (snd (failed_part e i err m))) =
           eff_append ''intent.failed'' (auditDetail i @ '' err='' @ err) (eff_release (ri_ID i) (vw (m_store m)))"
    and "m_world (snd (failed_part e i err m)) = m_world m"
proof -
  note w = healthy_write [OF release_law [OF assms(2), of "ri_ID i"] assms(3)]
  obtain m1 where r: "on_store (ReleaseIntent ops (ri_ID i)) m = (None, m1)"
    using w(1) by (cases "on_store (ReleaseIntent ops (ri_ID i)) m") (auto dest: on_storeD)
  have m1: "vw (m_store m1) = eff_release (ri_ID i) (vw (m_store m))" "sinv (m_store m1)" "healthy (m_store m1)" "m_world m1 = m_world m"
    using w on_storeD [OF r] by simp_all
  show "fst (failed_part e i err m) = result i OutFailed err" by (simp add: failed_part_def Let_def)
  show "vw (m_store (snd (failed_part e i err m))) =
      eff_append ''intent.failed'' (auditDetail i @ '' err='' @ err) (eff_release (ri_ID i) (vw (m_store m)))"
    "m_world (snd (failed_part e i err m)) = m_world m"
    using healthy_append(1) [OF m1(2,3)] m1 by (simp_all add: failed_part_def Let_def assms(1) r)
qed

lemma applied_part_healthy:
  assumes "eng_store e = ops" "sinv (m_store m)" "healthy (m_store m)"
  shows "fst (applied_part e i now rc m) = (result i OutApplied [])\<lparr>res_Receipt := rc\<rparr>"
    and "vw (m_store (snd (applied_part e i now rc m))) =
           (if ri_TTL i > 0 then eff_schedule (revert_of i (time_add now (ri_TTL i))) else (\<lambda>v. v))
             (eff_append ''intent.applied'' (AppliedAuditDetail i) (vw (m_store m)))"
    and "m_world (snd (applied_part e i now rc m)) = m_world m"
proof -
  note a = healthy_append [OF assms(2,3), of "''intent.applied''" "AppliedAuditDetail i"]
  obtain x m1 where r: "on_store (AppendAudit ops ''intent.applied'' (AppliedAuditDetail i)) m = (Inr x, m1)"
    using a(2) by (cases "on_store (AppendAudit ops ''intent.applied'' (AppliedAuditDetail i)) m") (auto dest: on_storeD)
  have m1: "vw (m_store m1) = eff_append ''intent.applied'' (AppliedAuditDetail i) (vw (m_store m))"
    "sinv (m_store m1)" "healthy (m_store m1)" "m_world m1 = m_world m"
    using a on_storeD [OF r] by simp_all
  let ?pr = "revert_of i (time_add now (ri_TTL i))"
  note w = healthy_write [OF schedule_law [OF m1(2), of ?pr] m1(3)]
  obtain m2 where r2: "on_store (ScheduleRevert ops ?pr) m1 = (None, m2)"
    using w(1) by (cases "on_store (ScheduleRevert ops ?pr) m1") (auto dest: on_storeD)
  have m2: "vw (m_store m2) = eff_schedule ?pr (vw (m_store m1))" "m_world m2 = m_world m1"
    using w on_storeD [OF r2] by simp_all
  show "fst (applied_part e i now rc m) = (result i OutApplied [])\<lparr>res_Receipt := rc\<rparr>"
    by (simp add: applied_part_def Let_def)
  show "vw (m_store (snd (applied_part e i now rc m))) =
           (if ri_TTL i > 0 then eff_schedule ?pr else (\<lambda>v. v))
             (eff_append ''intent.applied'' (AppliedAuditDetail i) (vw (m_store m)))"
    "m_world (snd (applied_part e i now rc m)) = m_world m"
    using m1 m2 by (simp_all add: applied_part_def Let_def assms(1) r r2)
qed

lemma applyIntent_healthy:
  fixes i :: RemediationIntent
  assumes "eng_store e = ops" "sinv (m_store m)" "healthy (m_store m)"
  defines "i' \<equiv> sign_intent e i"
  defines "act \<equiv> Registry_Apply (eng_reg e) i' (m_world m)"
  shows "(res_Outcome (fst (applyIntent e i now m)), vw (m_store (snd (applyIntent e i now m)))) =
           spec_apply i' now (snd (fst act)) (vw (m_store m))"
    and "m_world (snd (applyIntent e i now m)) = (if actuates i' (vw (m_store m)) then snd act else m_world m)"
proof -
  obtain r m1 where c: "claim_part e i' m = (r, m1)" by fastforce
  note cp = claim_part_healthy [OF assms(1-3) c]
  obtain rcpt err m2 where w: "on_world (Registry_Apply (eng_reg e) i') m1 = ((rcpt, err), m2)" by (metis prod.collapse)
  have m2: "m_store m2 = m_store m1" "m_world m2 = snd act" "err = snd (fst act)"
    using on_worldD [OF w] cp(3) by (auto simp: act_def) (metis snd_conv)
  have h2: "sinv (m_store m2)" "healthy (m_store m2)" using cp(4) m2(1) by simp_all
  note fp = failed_part_healthy [OF assms(1) h2] and ap = applied_part_healthy [OF assms(1) h2]
  have ai: "applyIntent e i now m =
      (case r of Some x \<Rightarrow> (x, m1) | None \<Rightarrow> (case err of Some z \<Rightarrow> failed_part e i' z m2 | None \<Rightarrow> applied_part e i' now rcpt m2))"
    by (auto simp: applyIntent_def c w i'_def [symmetric] Let_def split: option.splits)
  have ab: "ri_ID i' \<in> v_claimed (vw (m_store m)) \<Longrightarrow> eff_claim (ri_ID i') (vw (m_store m)) = vw (m_store m)"
    by (rule eff_claim_absorb)
  show "(res_Outcome (fst (applyIntent e i now m)), vw (m_store (snd (applyIntent e i now m)))) =
           spec_apply i' now (snd (fst act)) (vw (m_store m))"
    unfolding ai using cp(1,2) m2 fp ap ab
    by (auto simp: spec_apply_def release_claimed split: option.splits)
  show "m_world (snd (applyIntent e i now m)) = (if actuates i' (vw (m_store m)) then snd act else m_world m)"
    unfolding ai using cp(1,3) m2 fp ap by (auto simp: actuates_def split: option.splits)
qed

end

section \<open>Due reverts and rollback\<close>

text \<open>The reverts that succeed when a list is reverted in order, and the world after it.\<close>

fun revert_all :: "'w ActRegistry \<Rightarrow> PendingRevert list \<Rightarrow> 'w \<Rightarrow> PendingRevert list \<times> 'w" where
  "revert_all reg [] w = ([], w)"
| "revert_all reg (p # ps) w =
     (let ((_, err), w1) = Registry_Revert reg (pending_intent p) w; (ok, w2) = revert_all reg ps w1
      in (if err = None then p # ok else ok, w2))"

definition drop_reverts :: "PendingRevert list \<Rightarrow> (string \<rightharpoonup> PendingRevert) \<Rightarrow> string \<rightharpoonup> PendingRevert" where
  "drop_reverts done rv = (\<lambda>k. if k \<in> pr_IntentID ` set done then None else rv k)"

lemma drop_reverts_simps [simp]:
  "drop_reverts [] rv = rv"
  "drop_reverts ps (rv(pr_IntentID p := None)) = drop_reverts (p # ps) rv"
  by (auto simp: drop_reverts_def)

lemma revert_all_subset: "set (fst (revert_all reg ps w)) \<subseteq> set ps"
  by (induction ps arbitrary: w) (auto simp: case_prod_beta Let_def split: if_splits)

context store
begin

lemma revert_due_healthy:
  assumes "eng_store e = ops" "sinv (m_store m)" "healthy (m_store m)" "revert_due e p (n, m) = (n', m')"
  defines "act \<equiv> Registry_Revert (eng_reg e) (pending_intent p) (m_world m)"
  shows "sinv (m_store m')" "healthy (m_store m')" "m_world m' = snd act"
    and "n' = (if snd (fst act) = None then wrap64 (n + 1) else n)"
    and "v_reverts (vw (m_store m')) =
           (if snd (fst act) = None then (v_reverts (vw (m_store m)))(pr_IntentID p := None) else v_reverts (vw (m_store m)))"
proof -
  have sb: "steps_by ops housekeeping (m_store m) (m_store m')"
    using revert_due_steps [of e "(n, m)" p] assms(1,4) by simp
  show "sinv (m_store m')" "healthy (m_store m')" using steps_inv [OF sb] steps_healthy [OF sb] assms(2,3) by simp_all
  obtain err m1 where r: "revertPending e p m = (err, m1)" by fastforce
  note rp = revertPendingD [OF r]
  have s1: "sinv (m_store m1)" "healthy (m_store m1)" using rp assms(2,3) by simp_all
  note w = healthy_write [OF mark_law [OF s1(1), of "pr_IntentID p"] s1(2)]
  obtain m2 where m2: "on_store (MarkReverted ops (pr_IntentID p)) m1 = (None, m2)"
    using w(1) by (cases "on_store (MarkReverted ops (pr_IntentID p)) m1") (auto dest: on_storeD)
  note st = on_storeD [OF m2]
  have s2: "sinv (m_store m2)" "healthy (m_store m2)" using w st by simp_all
  show "m_world m' = snd act" "n' = (if snd (fst act) = None then wrap64 (n + 1) else n)"
    "v_reverts (vw (m_store m')) =
       (if snd (fst act) = None then (v_reverts (vw (m_store m)))(pr_IntentID p := None) else v_reverts (vw (m_store m)))"
    using assms(4) rp st w(2) healthy_append(1) [OF s1] healthy_append(1) [OF s2]
    by (auto simp: revert_due_def r m2 assms(1) act_def split: option.splits)
qed

lemma revert_due_fold:
  assumes "eng_store e = ops" "sinv (m_store m)" "healthy (m_store m)" "in_int64 n"
    and "fold (revert_due e) ps (n, m) = (n', m')"
  shows "m_world m' = snd (revert_all (eng_reg e) ps (m_world m))
         \<and> n' = wrap64 (n + int (length (fst (revert_all (eng_reg e) ps (m_world m)))))
         \<and> v_reverts (vw (m_store m')) = drop_reverts (fst (revert_all (eng_reg e) ps (m_world m))) (v_reverts (vw (m_store m)))"
  using assms(2-)
proof (induction ps arbitrary: n m)
  case (Cons p ps)
  obtain n1 m1 where r: "revert_due e p (n, m) = (n1, m1)" by fastforce
  note h = revert_due_healthy [OF assms(1) Cons.prems(1,2) r]
  have "in_int64 n1" using h(4) Cons.prems(3) by (simp add: wrap64_range)
  from Cons.IH [OF h(1,2) this] Cons.prems(4) r h(3-5) show ?case
    by (simp add: case_prod_beta Let_def wrap64_add_left algebra_simps)
qed simp

lemma ProcessDueReverts_healthy:
  assumes "eng_store e = ops" "sinv (m_store m)" "healthy (m_store m)" "ProcessDueReverts e now m = (r, m')"
  shows "\<exists>due. due_spec now due (vw (m_store m))
         \<and> r = Inr (wrap64 (int (length (fst (revert_all (eng_reg e) due (m_world m))))))
         \<and> m_world m' = snd (revert_all (eng_reg e) due (m_world m))
         \<and> v_reverts (vw (m_store m')) = drop_reverts (fst (revert_all (eng_reg e) due (m_world m))) (v_reverts (vw (m_store m)))"
proof -
  have rd: "read_ok vw sinv healthy (due_spec now) (m_store m) (DueReverts ops now (m_store m))" by (rule due_law [OF assms(2)])
  then obtain due where due: "fst (DueReverts ops now (m_store m)) = Inr due" "due_spec now due (vw (m_store m))"
    using assms(3) by (auto simp: read_ok_def step_ok_def split: sum.splits)
  obtain m1 where d: "on_store (DueReverts ops now) m = (Inr due, m1)"
    using due(1) by (cases "on_store (DueReverts ops now) m") (auto dest: on_storeD)
  have m1: "sinv (m_store m1)" "healthy (m_store m1)" "vw (m_store m1) = vw (m_store m)" "m_world m1 = m_world m"
    using on_storeD [OF d] rd assms(3) by (auto simp: read_ok_def step_ok_def)
  obtain n m2 where f: "fold (revert_due e) due (0, m1) = (n, m2)" by fastforce
  have "in_int64 0" by (simp add: in_int64_def int64_min_def int64_max_def)
  from revert_due_fold [OF assms(1) m1(1,2) this f] m1(3,4) due(2) assms(4) show ?thesis
    by (auto simp: ProcessDueReverts_def assms(1) d f)
qed

lemma rollbackOnClear_healthy:
  assumes "eng_store e = ops" "sinv (m_store m)" "healthy (m_store m)"
  shows "outstanding_spec (dedupKey (rule_SHA r) corr) [] (vw (m_store (rollbackOnClear e corr r m)))"
    and "key \<noteq> dedupKey (rule_SHA r) corr \<Longrightarrow>
         v_outstanding (vw (m_store (rollbackOnClear e corr r m))) key = v_outstanding (vw (m_store m)) key"
proof -
  let ?key = "dedupKey (rule_SHA r) corr"
  have ro: "rows_ok vw sinv healthy (outstanding_spec ?key) (m_store m) (Outstanding ops ?key (m_store m))"
    by (rule outstanding_law [OF assms(2)])
  then obtain outs where outs: "fst (Outstanding ops ?key (m_store m)) = (outs, None)" "outstanding_spec ?key outs (vw (m_store m))"
    using assms(3) by (cases "fst (Outstanding ops ?key (m_store m))") (auto simp: rows_ok_def step_ok_def)
  obtain m1 where o: "on_store (Outstanding ops ?key) m = ((outs, None), m1)"
    using outs(1) by (cases "on_store (Outstanding ops ?key) m") (auto dest: on_storeD)
  have m1: "sinv (m_store m1)" "healthy (m_store m1)" "vw (m_store m1) = vw (m_store m)"
    using on_storeD [OF o] ro assms(3) by (auto simp: rows_ok_def step_ok_def)
  have one: "sinv (m_store (rollback_one e p x)) \<and> healthy (m_store (rollback_one e p x))
      \<and> v_outstanding (vw (m_store (rollback_one e p x))) = v_outstanding (vw (m_store x))"
    if "sinv (m_store x)" "healthy (m_store x)" for p x
    using that healthy_append [of "m_store x"]
    by (auto simp: rollback_one_def assms(1) dest!: revertPendingD split: prod.splits option.splits)
  have all: "sinv (m_store (fold (rollback_one e) ps x)) \<and> healthy (m_store (fold (rollback_one e) ps x))
      \<and> v_outstanding (vw (m_store (fold (rollback_one e) ps x))) = v_outstanding (vw (m_store x))"
    if "sinv (m_store x)" "healthy (m_store x)" for ps x
    using that by (induction ps arbitrary: x) (simp_all add: one)
  define m2 where "m2 = fold (rollback_one e) outs m1"
  note m2 = all [OF m1(1,2), of outs, folded m2_def]
  have cl: "write_ok vw sinv healthy (eff_clear ?key) (m_store m2) (ClearOutstanding ops ?key (m_store m2))"
    using m2 by (intro clear_law) simp
  have "vw (m_store (rollbackOnClear e corr r m)) = (if outs = [] then vw (m_store m) else eff_clear ?key (vw (m_store m2)))"
    using healthy_write(2) [OF cl] m2 m1(3) by (simp add: rollbackOnClear_def assms(1) o m2_def Let_def)
  then show "outstanding_spec ?key [] (vw (m_store (rollbackOnClear e corr r m)))"
    "key \<noteq> ?key \<Longrightarrow> v_outstanding (vw (m_store (rollbackOnClear e corr r m))) key = v_outstanding (vw (m_store m)) key"
    using outs(2) m2 m1(3) by (auto simp: outstanding_spec_def)
qed

end

section \<open>Runs of the engine\<close>

text \<open>
  What happens to an engine: a signal arrives, the ticker of the daemon processes due reverts or
  prunes usage, and meanwhile the world moves on (time passes, peers change).
\<close>

datatype 'w event = Signal_In Signal | Tick time | Prune_Tick time | Elapse "'w \<Rightarrow> 'w"

fun run_event :: "('s, 'w) Engine \<Rightarrow> 'w event \<Rightarrow> ('s, 'w) mem \<Rightarrow> ('s, 'w) mem" where
  "run_event e (Signal_In sig) m = snd (Handle e sig m)"
| "run_event e (Tick now) m = snd (ProcessDueReverts e now m)"
| "run_event e (Prune_Tick before) m = snd (Engine_PruneUsage e before m)"
| "run_event e (Elapse f) m = m\<lparr>m_world := f (m_world m)\<rparr>"

definition run_events :: "('s, 'w) Engine \<Rightarrow> 'w event list \<Rightarrow> ('s, 'w) mem \<Rightarrow> ('s, 'w) mem" where
  "run_events e evs m = fold (run_event e) evs m"

lemma run_event_steps: "steps_by (eng_store e) any_call (m_store m) (m_store (run_event e ev m))"
  by (cases ev) (auto simp: Engine_PruneUsage_def intro: Handle_steps steps_any [OF ProcessDueReverts_steps] call_steps)

lemma run_events_steps: "steps_by (eng_store e) any_call (m_store m) (m_store (run_events e evs m))"
  unfolding run_events_def by (rule steps_fold) (rule run_event_steps)

text \<open>The reverting activity alone: ticks and rollbacks.\<close>

datatype revert_event = Due_Tick time | Rollback string Rule

fun do_revert :: "('s, 'w) Engine \<Rightarrow> revert_event \<Rightarrow> ('s, 'w) mem \<Rightarrow> ('s, 'w) mem" where
  "do_revert e (Due_Tick now) m = snd (ProcessDueReverts e now m)"
| "do_revert e (Rollback corr r) m = rollbackOnClear e corr r m"

lemma revert_events_steps:
  "steps_by (eng_store e) housekeeping (m_store m) (m_store (fold (do_revert e) evs m))"
proof (rule steps_fold)
  show "steps_by (eng_store e) housekeeping (m_store m) (m_store (do_revert e ev m))" for ev m
    by (cases ev) (simp_all add: ProcessDueReverts_steps rollbackOnClear_steps)
qed

context store
begin

lemma applied_claims:
  assumes "eng_store e = ops" "sinv (m_store m)" "healthy (m_store m)"
    and "res_Outcome (fst (applyIntent e i now m)) = OutApplied"
  shows "ri_ID i \<in> v_claimed (vw (m_store (snd (applyIntent e i now m))))"
  using applyIntent_healthy(1) [OF assms(1-3), of i now] assms(4)
  by (auto simp: spec_apply_def split: if_splits option.splits)

lemma reapply_skipped:
  assumes "eng_store e = ops" "sinv (m_store m)" "healthy (m_store m)" "ri_ID i \<in> v_claimed (vw (m_store m))" "\<not> ri_DryRun i"
  shows "res_Outcome (fst (applyIntent e i now m)) = OutSkipped \<and> m_world (snd (applyIntent e i now m)) = m_world m"
  using applyIntent_healthy [OF assms(1-3), of i now] assms(4,5) by (auto simp: spec_apply_def actuates_def)

lemma applyIntent_keeps:
  assumes "eng_store e = ops" "sinv (m_store m)" "healthy (m_store m)"
  shows "sinv (m_store (snd (applyIntent e i now m)))" "healthy (m_store (snd (applyIntent e i now m)))"
  using steps_inv [OF applyIntent_steps [of e i m now, unfolded assms(1)] assms(2)]
    steps_healthy [OF applyIntent_steps [of e i m now, unfolded assms(1)] assms(2,3)] by simp_all

lemma not_reapplied:
  fixes evs :: "revert_event list"
  assumes "eng_store e = ops" "sinv (m_store m)" "healthy (m_store m)"
    and "res_Outcome (fst (applyIntent e i now m)) = OutApplied" "\<not> ri_DryRun i"
  defines "m' \<equiv> fold (do_revert e) evs (snd (applyIntent e i now m))"
  shows "res_Outcome (fst (applyIntent e i now' m')) = OutSkipped \<and> m_world (snd (applyIntent e i now' m')) = m_world m'"
proof (rule reapply_skipped [OF assms(1) _ _ _ assms(5)])
  have sb: "steps_by ops housekeeping (m_store (snd (applyIntent e i now m))) (m_store m')"
    using revert_events_steps [of e "snd (applyIntent e i now m)" evs] by (simp add: m'_def assms(1))
  note k = applyIntent_keeps [OF assms(1-3), of i now]
  show "sinv (m_store m')" "healthy (m_store m')" using steps_inv [OF sb k(1)] steps_healthy [OF sb k] by simp_all
  show "ri_ID i \<in> v_claimed (vw (m_store m'))"
    using applied_claims [OF assms(1-4)] housekeeping_claimed [OF sb k(1)] by simp
qed

end

section \<open>An engine for the witnesses\<close>

definition demo_route :: RemediationIntent where
  "demo_route =
     zero_intent\<lparr>ri_ID := ''r1'', ri_Kind := ActionRouteOverride, ri_Target := ''gpt-4o'',
       ri_Args := Some [(''to'', AStr ''llama3'')], ri_TTL := minute, ri_RuleSHA := ''abc''\<rparr>"

lemma demo_route_simps [simp]:
  "ri_ID demo_route = ''r1''" "ri_Kind demo_route = ActionRouteOverride" "\<not> ri_DryRun demo_route" "ri_TTL demo_route = minute"
  by (simp_all add: demo_route_def zero_intent_def)

definition demo_mem :: "(sqliteStore, Fake) mem" where
  "demo_mem =
     \<lparr>m_store = demo_store, m_world = \<lparr>fk_Applied = 0, fk_Reverted = 0, fk_ApplyErr = None, fk_RevertErr = Some ''timeout''\<rparr>,
      m_met = New_metrics, m_pending = []\<rparr>"

definition demo_engine :: "(sqliteStore, Fake) Engine" where
  "demo_engine =
     \<lparr>eng_rec = demo_reconciler, eng_reg = Register NewRegistry fake_actuator, eng_store = sqlite_ops demo_ed,
      eng_signer = signerFromPrivate demo_ed demo_priv, eng_led = None, eng_now = (\<lambda>_. 0), eng_failMode = FailClosed,
      eng_failModeNotify = FailOpen, eng_immediate = False, eng_mem = demo_mem\<rparr>"

lemma demo_engine_ok [simp]:
  "eng_store demo_engine = sqlite_ops demo_ed" "sqlite_inv (m_store demo_mem)" "sqlite_healthy (m_store demo_mem)"
  by (simp_all add: demo_engine_def demo_mem_def demo_store_ok)

lemma demo_view: "v_claimed (sqlite_view (m_store demo_mem)) = {}"
  by (simp add: demo_mem_def demo_store_def empty_db_def sqlite_view_def db_view_def)

lemma demo_apply:
  "ri_Kind i = ActionRouteOverride \<Longrightarrow>
   Registry_Apply (eng_reg demo_engine) i (m_world demo_mem) =
     ((applied_receipt i ''fake'' zero_time, None), (m_world demo_mem)\<lparr>fk_Applied := 1\<rparr>)"
  by (simp add: Registry_Apply_def demo_engine_def map_of_Register fake_actuator_def fake_Apply_def demo_mem_def Let_def
      in_int64_def int64_min_def int64_max_def)

section \<open>Properties\<close>

text \<open>C1: concurrent handlers apply an intent at most once.  Any number of handlers run applyIntent
  on a shared SQLite store, under any schedule of their steps and any driver failures; when the
  intents of an id fail closed, at most one handler of that id ever holds the right to actuate
  or has actuated successfully.\<close>

theorem handlers_apply_at_most_once:
  assumes "eng_store e = sqlite_ops ed" and "sqlite_inv (m_store m)"
    and "\<And>t. t \<in> set ts \<Longrightarrow> th_pc t = Start"
    and "\<And>t. t \<in> set ts \<Longrightarrow> ri_ID (th_intent t) = i \<Longrightarrow> failModeFor e (ri_Kind (th_intent t)) = FailClosed"
  shows "holders i (fst (interleave e sched ts m)) \<le> 1"
proof -
  have "holders i ts = 0" using assms(3) by (simp add: holders_def holder_def filter_empty_conv)
  then show ?thesis
    using sqlite.interleave_gate [OF assms(1,2), of ts i sched "fst (interleave e sched ts m)" "snd (interleave e sched ts m)"] assms(4)
    by simp
qed

theorem handlers_apply_at_most_once_witness:
  "holders ''r1'' (fst (interleave demo_engine [0, 1, 1, 0, 2, 0, 1] [start demo_route 0, start demo_route 5, start demo_route 9] demo_mem)) \<le> 1"
  by (rule handlers_apply_at_most_once [of demo_engine demo_ed])
     (auto simp: start_def demo_route_def failModeFor_def action_kind_defs demo_engine_def demo_mem_def demo_store_ok)

text \<open>C3: what one intent does.  On a SQLite store that raises no error, \<^verbatim>\<open>applyIntent\<close> has the outcome
  and changes the contents of the store exactly as specified: a dry run is only logged, a
  claimed id is skipped, a failed actuation leaves the id free for a retry, a successful one
  claims it, logs the signed detail and schedules the revert for the end of its TTL.  The
  outside world changes only by the actuation, which happens only for an unclaimed id that is
  not a dry run.\<close>

theorem applyIntent_meets_spec:
  assumes "eng_store e = sqlite_ops ed" "sqlite_inv (m_store m)" "sqlite_healthy (m_store m)"
    and "applyIntent e i now m = (r, m')" and "Registry_Apply (eng_reg e) (sign_intent e i) (m_world m) = ((rcpt, answer), w')"
  shows "(res_Outcome r, sqlite_view (m_store m')) = spec_apply (sign_intent e i) now answer (sqlite_view (m_store m))
         \<and> m_world m' = (if actuates i (sqlite_view (m_store m)) then w' else m_world m)"
  using sqlite.applyIntent_healthy [OF assms(1-3), of i now] assms(4,5) by (simp add: actuates_def)

theorem applyIntent_meets_spec_witness:
  "\<exists>r m'. applyIntent demo_engine demo_route 0 demo_mem = (r, m') \<and> res_Outcome r = OutApplied \<and> fk_Applied (m_world m') = 1
     \<and> v_claimed (sqlite_view (m_store m')) = {''r1''}"
proof -
  obtain r m' where a: "applyIntent demo_engine demo_route 0 demo_mem = (r, m')" by fastforce
  have k: "ri_Kind (sign_intent demo_engine demo_route) = ActionRouteOverride" by simp
  from applyIntent_meets_spec [OF demo_engine_ok a demo_apply [OF k]] a show ?thesis
    by (simp add: spec_apply_def actuates_def demo_view minute_def second_def)
qed

text \<open>C8: processing due reverts.  On a SQLite store that raises no error the reverts asked of the
  actuators are exactly the pending ones whose time has come, each once; the count returned is
  the number that succeeded; those are removed and every other pending revert, the failed ones
  included, is kept for the next tick.  No claim is given up.  (A store error on the way would
  leave a revert that succeeded pending, to be asked for again.)\<close>

theorem due_reverts_processed:
  assumes "eng_store e = sqlite_ops ed" "sqlite_inv (m_store m)" "sqlite_healthy (m_store m)"
    and "ProcessDueReverts e now m = (r, m')"
  shows "\<exists>due. due_spec now due (sqlite_view (m_store m))
         \<and> r = Inr (wrap64 (int (length (fst (revert_all (eng_reg e) due (m_world m))))))
         \<and> m_world m' = snd (revert_all (eng_reg e) due (m_world m))
         \<and> v_reverts (sqlite_view (m_store m')) =
             drop_reverts (fst (revert_all (eng_reg e) due (m_world m))) (v_reverts (sqlite_view (m_store m)))
         \<and> v_claimed (sqlite_view (m_store m')) = v_claimed (sqlite_view (m_store m))"
  using sqlite.ProcessDueReverts_healthy [OF assms]
    sqlite.housekeeping_claimed [of ed "m_store m" "m_store m'"] ProcessDueReverts_steps [of e m now] assms(1,2,4)
  by auto

text \<open>An engine that has applied an intent of one minute, and an actuator that can revert.\<close>

definition demo_due :: "(sqliteStore, Fake) mem" where
  "demo_due = (snd (applyIntent demo_engine demo_route 0 demo_mem))
     \<lparr>m_world := \<lparr>fk_Applied = 1, fk_Reverted = 0, fk_ApplyErr = None, fk_RevertErr = None\<rparr>\<rparr>"

definition demo_due_revert :: PendingRevert where
  "demo_due_revert = revert_of (sign_intent demo_engine demo_route) minute"

lemma demo_due_ok: "sqlite_inv (m_store demo_due)" "sqlite_healthy (m_store demo_due)"
  using sqlite.applyIntent_keeps [OF demo_engine_ok, of demo_route 0] by (simp_all add: demo_due_def)

lemma demo_due_reverts: "v_reverts (sqlite_view (m_store demo_due)) = [''r1'' \<mapsto> demo_due_revert]"
proof -
  have k: "ri_Kind (sign_intent demo_engine demo_route) = ActionRouteOverride" by simp
  have t: "stored_time 60000000000 = 60000000000" by code_simp
  have "v_reverts (sqlite_view (m_store demo_mem)) = Map.empty"
    by (simp add: demo_mem_def demo_store_def empty_db_def sqlite_view_def db_view_def)
  with sqlite.applyIntent_healthy(1) [OF demo_engine_ok, of demo_route 0] show ?thesis
    by (simp add: demo_due_def demo_due_revert_def demo_apply [OF k] spec_apply_def demo_view eff_schedule_def revert_of_def t
        time_add_def minute_def second_def)
qed

lemma demo_due_revert_all:
  "revert_all (eng_reg demo_engine) [demo_due_revert] (m_world demo_due) = ([demo_due_revert], (m_world demo_due)\<lparr>fk_Reverted := 1\<rparr>)"
  by (simp add: Registry_Revert_def demo_engine_def map_of_Register fake_actuator_def fake_Revert_def Let_def demo_due_def
      demo_due_revert_def pending_intent_def revert_of_def action_kind_defs wrap64_def int64_min_def)

theorem due_reverts_processed_witness:
  "\<exists>m'. ProcessDueReverts demo_engine hour demo_due = (Inr 1, m') \<and> fk_Reverted (m_world m') = 1
     \<and> v_reverts (sqlite_view (m_store m')) = Map.empty"
proof -
  obtain r m' where p: "ProcessDueReverts demo_engine hour demo_due = (r, m')" by fastforce
  from due_reverts_processed [OF demo_engine_ok(1) demo_due_ok p] obtain due where
    d: "due_spec hour due (sqlite_view (m_store demo_due))"
    and r: "r = Inr (wrap64 (int (length (fst (revert_all (eng_reg demo_engine) due (m_world demo_due))))))"
      "m_world m' = snd (revert_all (eng_reg demo_engine) due (m_world demo_due))"
      "v_reverts (sqlite_view (m_store m')) =
         drop_reverts (fst (revert_all (eng_reg demo_engine) due (m_world demo_due))) (v_reverts (sqlite_view (m_store demo_due)))"
    by blast
  have i: "pr_IntentID demo_due_revert = ''r1''" "pr_DueAt demo_due_revert = minute"
    by (simp_all add: demo_due_revert_def revert_of_def)
  have "distinct (map pr_IntentID due)" "set due = {demo_due_revert}"
    using d i by (auto simp: due_spec_def demo_due_reverts hour_def minute_def second_def split: if_splits)
  then have due: "due = [demo_due_revert]" by (cases due; cases "tl due") auto
  have "fk_Reverted (m_world m') = 1" "v_reverts (sqlite_view (m_store m')) = Map.empty" "r = Inr 1"
    using r unfolding due demo_due_revert_all by (auto simp: demo_due_reverts drop_reverts_def i wrap64_def int64_min_def)
  with p show ?thesis by blast
qed

text \<open>Rollback on clear forgets what it could not revert.  On a SQLite store that raises no error,
  after a rollback the rule has no outstanding intent left for that correlation key, whatever
  the actuators answered, so an intent whose revert failed is not retried when the condition is
  next seen cleared; outstanding intents of other keys are untouched.\<close>

theorem rollback_forgets:
  assumes "eng_store e = sqlite_ops ed" "sqlite_inv (m_store m)" "sqlite_healthy (m_store m)"
  shows "outstanding_spec (dedupKey (rule_SHA r) corr) [] (sqlite_view (m_store (rollbackOnClear e corr r m)))
         \<and> (\<forall>key. key \<noteq> dedupKey (rule_SHA r) corr \<longrightarrow>
              v_outstanding (sqlite_view (m_store (rollbackOnClear e corr r m))) key = v_outstanding (sqlite_view (m_store m)) key)"
  using sqlite.rollbackOnClear_healthy [OF assms] by blast

text \<open>An engine whose actuator cannot revert, with one outstanding intent.\<close>

definition demo_outstanding :: "(sqliteStore, Fake) mem" where
  "demo_outstanding = record_outstanding demo_engine (dedupKey ''abc'' ''corr'') demo_route demo_mem"

lemma demo_outstanding_ok: "sqlite_inv (m_store demo_outstanding)" "sqlite_healthy (m_store demo_outstanding)"
  using sqlite.healthy_write [OF sqlite.record_outstanding_law [OF demo_engine_ok(2)] demo_engine_ok(3)]
  by (simp_all add: demo_outstanding_def record_outstanding_def)

lemma demo_outstanding_revert_fails:
  "snd (fst (Registry_Revert (eng_reg demo_engine) (pending_intent (revert_of demo_route t)) (m_world demo_outstanding))) = Some ''timeout''"
  by (simp add: Registry_Revert_def demo_engine_def map_of_Register fake_actuator_def fake_Revert_def demo_mem_def Let_def
      demo_outstanding_def record_outstanding_def pending_intent_def revert_of_def demo_route_def action_kind_defs)

theorem rollback_forgets_witness:
  "snd (fst (Registry_Revert (eng_reg demo_engine) (pending_intent (revert_of demo_route zero_time)) (m_world demo_outstanding))) \<noteq> None
   \<and> outstanding_spec (dedupKey ''abc'' ''corr'') []
     (sqlite_view (m_store (rollbackOnClear demo_engine ''corr'' (demo_rule ''cost'' ''true'' ''abc'') demo_outstanding)))"
  using rollback_forgets [OF demo_engine_ok(1) demo_outstanding_ok, of "demo_rule ''cost'' ''true'' ''abc''" "''corr''"]
  by (simp add: demo_rule_def demo_outstanding_revert_fails)

text \<open>C35: a reverted intent is never applied again.  On a SQLite store that raises no error, once an
  intent has been applied, no due-revert tick and no rollback frees its id: the same intent of
  a later incident is skipped as already applied and the outside world is not touched, although
  the remediation is no longer in force.\<close>

theorem reverted_not_reapplied:
  assumes "eng_store e = sqlite_ops ed" "sqlite_inv (m_store m)" "sqlite_healthy (m_store m)"
    and "applyIntent e i now m = (r, m1)" "res_Outcome r = OutApplied" "\<not> ri_DryRun i"
    and "fold (do_revert e) evs m1 = m2" "applyIntent e i now' m2 = (r', m3)"
  shows "res_Outcome r' = OutSkipped \<and> m_world m3 = m_world m2"
  using sqlite.not_reapplied [OF assms(1-3), where i = i and now = now and evs = evs and now' = now'] assms(4-) by simp

theorem reverted_not_reapplied_witness:
  "\<exists>r m1 r' m3. applyIntent demo_engine demo_route 0 demo_mem = (r, m1) \<and> res_Outcome r = OutApplied
     \<and> applyIntent demo_engine demo_route (2 * hour) (snd (ProcessDueReverts demo_engine hour m1)) = (r', m3) \<and> res_Outcome r' = OutSkipped"
proof -
  obtain r m1 where a: "applyIntent demo_engine demo_route 0 demo_mem = (r, m1)" by fastforce
  obtain r' m3 where b: "applyIntent demo_engine demo_route (2 * hour) (fold (do_revert demo_engine) [Due_Tick hour] m1) = (r', m3)"
    by fastforce
  have k: "ri_Kind (sign_intent demo_engine demo_route) = ActionRouteOverride" by (simp add: demo_route_def)
  have ap: "res_Outcome r = OutApplied"
    using sqlite.applyIntent_healthy(1) [OF demo_engine_ok, of demo_route 0] a
    by (simp add: demo_apply [OF k] spec_apply_def demo_view)
  from reverted_not_reapplied [OF demo_engine_ok a ap demo_route_simps(3) refl b] a ap b show ?thesis by simp
qed

text \<open>The audit log of a running engine verifies.  Whatever signals, ticks and changes of the outside
  world an engine goes through, its SQLite store, opened on a new database with an honest
  checkpoint signer, passes its own audit verification, when storage raises no error and the
  clock stays within the four-digit years.\<close>

theorem engine_audit_verifies:
  assumes "ed25519_scheme ed" and "length priv = PrivateKeySize"
    and "OpenSQLite empty_db (\<lambda>_. None) clock summation rows [WithCheckpointSigner (Some (signerFromPrivate ed priv))] = Inr s"
    and "\<And>n. year_ok (clock n)" and "eng_store e = sqlite_ops ed" and "m_store m = s"
  shows "fst (VerifyAudit (sqlite_ops ed) (m_store (run_events e evs m)))"
proof -
  obtain cs where "m_store (run_events e evs m) = run_calls (sqlite_ops ed) cs s"
    using run_events_steps [of e m evs] assms(5,6) by (auto simp: steps_by_def)
  with opened_store_verifies [OF assms(1-4)] show ?thesis by simp
qed

theorem engine_audit_verifies_witness:
  "\<exists>s. OpenSQLite empty_db (\<lambda>_. None) (\<lambda>_. 0) (\<lambda>_. F64 0) (\<lambda>_. 0) [WithCheckpointSigner (Some (signerFromPrivate demo_ed demo_priv))] = Inr s
       \<and> fst (VerifyAudit (sqlite_ops demo_ed) (m_store (run_events demo_engine [Signal_In demo_signal, Tick hour] (demo_mem\<lparr>m_store := s\<rparr>))))"
proof -
  obtain s where s: "OpenSQLite empty_db (\<lambda>_. None) (\<lambda>_. 0) (\<lambda>_. F64 0) (\<lambda>_. 0)
      [WithCheckpointSigner (Some (signerFromPrivate demo_ed demo_priv))] = Inr s"
    by (simp add: OpenSQLite_def exec_def fault_now_def Let_def next_tick_def set_db_def)
  have "m_store (demo_mem\<lparr>m_store := s\<rparr>) = s" by simp
  from engine_audit_verifies [OF demo_key.ed25519_scheme_axioms demo_key.priv_size s year_ok_epoch demo_engine_ok(1) this] s
  show ?thesis by blast
qed

end
