(* ===== verification/Governance.thy ===== *)
theory Governance
  imports Handlers
begin

text \<open>
  What holds the engine back: the \<^verbatim>\<open>for:\<close> window of a rule, its intent budget, and the guards that
  fail closed when state cannot be read.  Firings are checked one after another here; in the
  daemon the count and the record of a firing are two calls of the store, between which another
  handler can run.
\<close>

section \<open>Windows\<close>

text \<open>A history of window checks: rule, correlation key, duration and time of each.\<close>

fun window_checks :: "(string \<times> string \<times> duration \<times> time) list \<Rightarrow> time dict \<Rightarrow> bool list \<times> time dict" where
  "window_checks [] p = ([], p)"
| "window_checks ((sha, corr, dur, now) # cs) p =
     (let (ok, p1) = forWindowSatisfied sha corr dur now p; (oks, p2) = window_checks cs p1 in (ok # oks, p2))"

lemma window_keeps_distinct:
  "distinct_keys p \<Longrightarrow> distinct_keys (snd (forWindowSatisfied sha corr dur now p))"
  by (auto simp: forWindowSatisfied_def Let_def split: option.splits)

text \<open>What a check of one key leaves for any key.\<close>

definition live :: "duration \<Rightarrow> time \<Rightarrow> time dict \<Rightarrow> string \<Rightarrow> time option" where
  "live dur now p k =
     (case map_of p k of None \<Rightarrow> None | Some first \<Rightarrow> if time_sub now first > wrap64 (2 * dur) then None else Some first)"

lemma window_result:
  assumes "distinct_keys p"
  shows "fst (forWindowSatisfied sha corr dur now p) =
           (case live dur now p (dedupKey sha corr) of None \<Rightarrow> False | Some first \<Rightarrow> time_sub now first \<ge> dur)"
    and "map_of (snd (forWindowSatisfied sha corr dur now p)) k =
           (if k = dedupKey sha corr
            then (case live dur now p k of
                    None \<Rightarrow> Some now
                  | Some first \<Rightarrow> if time_sub now first \<ge> dur then None else Some first)
            else live dur now p k)"
proof -
  have f: "map_of (filter (\<lambda>(k, first). \<not> time_sub now first > wrap64 (2 * dur)) p) k = live dur now p k" for k
    by (simp add: map_of_filter_key [OF assms] live_def split: option.splits)
  show "fst (forWindowSatisfied sha corr dur now p) =
      (case live dur now p (dedupKey sha corr) of None \<Rightarrow> False | Some first \<Rightarrow> time_sub now first \<ge> dur)"
    by (auto simp: forWindowSatisfied_def Let_def f split: option.splits)
  show "map_of (snd (forWindowSatisfied sha corr dur now p)) k =
           (if k = dedupKey sha corr
            then (case live dur now p k of
                    None \<Rightarrow> Some now
                  | Some first \<Rightarrow> if time_sub now first \<ge> dur then None else Some first)
            else live dur now p k)"
    by (auto simp: forWindowSatisfied_def Let_def f split: option.splits)
qed

text \<open>
  A rule fires only after an earlier check of the same key: the entry it finds is one that an
  earlier check of that key put there.
\<close>

lemma window_entry_origin:
  assumes "distinct_keys p" "map_of p key = None" "map_of (snd (window_checks cs p)) key = Some t"
  shows "\<exists>sha corr dur. (sha, corr, dur, t) \<in> set cs \<and> dedupKey sha corr = key"
proof -
  have "\<exists>sha corr dur. (sha, corr, dur, t) \<in> set cs \<and> dedupKey sha corr = key"
    if "distinct_keys p" "map_of (snd (window_checks cs p)) key = Some t" "map_of p key \<noteq> Some t" for p
    using that
  proof (induction cs arbitrary: p)
    case (Cons c cs)
    obtain sha corr dur now where c: "c = (sha, corr, dur, now)" by (cases c)
    let ?p1 = "snd (forWindowSatisfied sha corr dur now p)"
    have d: "distinct_keys ?p1" by (rule window_keeps_distinct [OF Cons.prems(1)])
    have rest: "map_of (snd (window_checks cs ?p1)) key = Some t"
      using Cons.prems(2) by (simp add: c case_prod_beta)
    show ?case
    proof (cases "map_of ?p1 key = Some t")
      case True
      with Cons.prems(1,3) have "t = now \<and> dedupKey sha corr = key"
        by (auto simp: window_result(2) live_def split: if_splits option.splits)
      then show ?thesis by (auto simp: c)
    next
      case False
      from Cons.IH [OF d rest False] show ?thesis by (auto simp: c)
    qed
  qed simp
  with assms show ?thesis by fastforce
qed

section \<open>Starvation\<close>

text \<open>A signal that two rules match, checked for the first and then for the second.\<close>

definition both_rules :: "string \<Rightarrow> duration \<Rightarrow> string \<Rightarrow> duration \<Rightarrow> string \<Rightarrow> time \<Rightarrow> (string \<times> string \<times> duration \<times> time) list" where
  "both_rules short d1 long d2 corr t = [(short, corr, d1, t), (long, corr, d2, t)]"

fun spaced :: "duration \<Rightarrow> time list \<Rightarrow> bool" where
  "spaced d (t # u # ts) = (d < u - t \<and> spaced d (u # ts))"
| "spaced d _ = True"

fun long_results :: "string \<Rightarrow> duration \<Rightarrow> string \<Rightarrow> duration \<Rightarrow> string \<Rightarrow> time list \<Rightarrow> time dict \<Rightarrow> bool list" where
  "long_results short d1 long d2 corr [] p = []"
| "long_results short d1 long d2 corr (t # ts) p =
     (let (oks, p1) = window_checks (both_rules short d1 long d2 corr t) p
      in last oks # long_results short d1 long d2 corr ts p1)"

lemma time_sub_gt:
  assumes "0 < d" "2 * d < int64_max" "2 * d < u - t"
  shows "wrap64 (2 * d) < time_sub u t"
proof -
  have "in_int64 (2 * d)" using assms(1,2) by (simp add: in_int64_def int64_min_def)
  then show ?thesis using assms by (simp add: time_sub_def sat64_def)
qed

lemma starved:
  assumes "0 < d1" "2 * d1 < int64_max" "dedupKey short corr \<noteq> dedupKey long corr"
    and "distinct_keys p" "spaced (2 * d1) ts"
    and "\<And>first. map_of p (dedupKey long corr) = Some first \<Longrightarrow> ts \<noteq> [] \<Longrightarrow> 2 * d1 < hd ts - first"
  shows "list_all Not (long_results short d1 long d2 corr ts p)"
  using assms(4-)
proof (induction ts arbitrary: p)
  case (Cons t ts)
  let ?p1 = "snd (forWindowSatisfied short corr d1 t p)"
  let ?p2 = "snd (forWindowSatisfied long corr d2 t ?p1)"
  have d: "distinct_keys ?p1" "distinct_keys ?p2" by (simp_all add: window_keeps_distinct Cons.prems(1))
  have "map_of ?p1 (dedupKey long corr) = None"
    using assms(3) Cons.prems(3) time_sub_gt [OF assms(1,2), of t]
    by (auto simp: window_result(2) [OF Cons.prems(1)] live_def split: option.splits)
  then have r: "\<not> fst (forWindowSatisfied long corr d2 t ?p1)" "map_of ?p2 (dedupKey long corr) = Some t"
    by (simp_all add: window_result [OF d(1)] live_def)
  have "list_all Not (long_results short d1 long d2 corr ts ?p2)"
    using Cons.prems(2) r(2) by (intro Cons.IH [OF d(2)]) (cases ts; simp)+
  with r(1) show ?case by (simp add: both_rules_def case_prod_beta Let_def)
qed simp

section \<open>Budgets on the SQLite store\<close>

definition recent :: "string \<Rightarrow> time \<Rightarrow> (string \<times> string) list \<Rightarrow> int" where
  "recent sha since rows = int (length (filter (\<lambda>(k, ts). k = sha \<and> format_rfc3339 since \<le> ts) rows))"

lemma AppendAudit_rule_actions [simp]: "rule_actions (st_db (snd (sqlite_AppendAudit k d s))) = rule_actions (st_db s)"
  by (auto simp: sqlite_AppendAudit_def in_tx_def query_def commit_tx_def checkpoint_tx_def exec_def insert_audit_def
      next_tick_def set_db_def Let_def split: option.splits fault.splits prod.splits sum.splits)

lemma CountActions_healthy:
  assumes "sqlite_healthy s"
  shows "fst (sqlite_CountActions sha since s) = Inr (recent sha since (rule_actions (st_db s)))"
    and "rule_actions (st_db (snd (sqlite_CountActions sha since s))) = rule_actions (st_db s)"
  using assms by (auto simp: sqlite_CountActions_def query_def recent_def sqlite_healthy_def fault_now_def case_prod_beta')

lemma RecordAction_healthy:
  assumes "sqlite_healthy s"
  shows "rule_actions (st_db (snd (sqlite_RecordAction sha t s))) = rule_actions (st_db s) @ [(sha, format_rfc3339 t)]"
  using assms by (auto simp: sqlite_RecordAction_def exec_def sqlite_healthy_def fault_now_def next_tick_def set_db_def)

lemma throttled_sqlite:
  assumes "eng_store e = sqlite_ops ed" "sqlite_inv (m_store m)" "sqlite_healthy (m_store m)"
    and "ParseIntentBudget (with_IntentBudget (rule_With r)) = Inr (n, window)" "n \<noteq> 0" "throttled e r now m = (b, m')"
  defines "rows \<equiv> rule_actions (st_db (m_store m))"
  shows "b \<longleftrightarrow> recent (rule_SHA r) (time_add now (wrap64 (- window))) rows \<ge> n"
    and "rule_actions (st_db (m_store m')) = (if b then rows else rows @ [(rule_SHA r, format_rfc3339 now)])"
    and "sqlite_inv (m_store m')" "sqlite_healthy (m_store m')"
proof -
  let ?since = "time_add now (wrap64 (- window))"
  have sb: "steps_by (sqlite_ops ed) housekeeping (m_store m) (m_store m')"
    using throttled_steps [of e m r now] assms(1,6) by simp
  show "sqlite_inv (m_store m')" "sqlite_healthy (m_store m')"
    using sqlite.steps_inv [OF sb] sqlite.steps_healthy [OF sb] assms(2,3) by simp_all
  note c = CountActions_healthy [OF assms(3), of "rule_SHA r" ?since]
  obtain m1 where q: "on_store (sqlite_CountActions (rule_SHA r) ?since) m = (Inr (recent (rule_SHA r) ?since rows), m1)"
    using c(1) by (cases "on_store (sqlite_CountActions (rule_SHA r) ?since) m") (auto simp: rows_def dest: on_storeD)
  note m1 = on_storeD [OF q]
  have h1: "sqlite_healthy (m_store m1)"
    using sqlite.count_law [OF assms(2), of ed "rule_SHA r" ?since] assms(3) m1
    by (simp add: read_ok_def step_ok_def sqlite_ops_def)
  have rows1: "rule_actions (st_db (m_store m1)) = rows" using m1 c(2) by (simp add: rows_def)
  note ra = RecordAction_healthy [OF h1, of "rule_SHA r" now]
  have rec: "on_store (sqlite_RecordAction (rule_SHA r) now) m1 = (x, m2) \<Longrightarrow>
      rule_actions (st_db (m_store m2)) = rows @ [(rule_SHA r, format_rfc3339 now)]" for x m2
    using ra rows1 by (auto dest!: on_storeD)
  show "b \<longleftrightarrow> recent (rule_SHA r) ?since rows \<ge> n"
    using assms(4-6) by (auto simp: throttled_def assms(1) sqlite_ops_def q split: if_splits)
  show "rule_actions (st_db (m_store m')) = (if b then rows else rows @ [(rule_SHA r, format_rfc3339 now)])"
    using assms(4-6) rec rows1
    by (auto simp: throttled_def assms(1) sqlite_ops_def q split: if_splits prod.splits option.splits)
qed

fun run_throttled :: "('s, 'w) Engine \<Rightarrow> Rule \<Rightarrow> time list \<Rightarrow> ('s, 'w) mem \<Rightarrow> bool list \<times> ('s, 'w) mem" where
  "run_throttled e r [] m = ([], m)"
| "run_throttled e r (t # ts) m =
     (let (b, m1) = throttled e r t m; (bs, m2) = run_throttled e r ts m1 in (b # bs, m2))"

text \<open>All times of a burst are within the window of each other, counted in whole seconds.\<close>

definition one_window :: "duration \<Rightarrow> time list \<Rightarrow> bool" where
  "one_window window ts \<longleftrightarrow>
     (\<forall>t\<in>set ts. \<forall>u\<in>set ts. year_ok t \<and> year_ok (u - window) \<and> (u - window) div second < t div second)"

lemma recent_ge:
  assumes "list_all (\<lambda>t. (u - window) div second < t div second \<and> year_ok t) fired" "year_ok (u - window)"
    and "rows = old @ map (\<lambda>t. (sha, format_rfc3339 t)) fired"
  shows "int (length fired) \<le> recent sha (u - window) rows"
proof -
  have "filter (\<lambda>(k, ts). k = sha \<and> format_rfc3339 (u - window) \<le> ts) (map (\<lambda>t. (sha, format_rfc3339 t)) fired)
      = map (\<lambda>t. (sha, format_rfc3339 t)) fired"
    using assms(1,2) text_ge_bounds(1) by (auto simp: filter_id_conv list_all_iff)
  then show ?thesis by (simp add: recent_def assms(3))
qed

lemma run_throttled_bound:
  assumes "eng_store e = sqlite_ops ed" "sqlite_inv (m_store m)" "sqlite_healthy (m_store m)"
    and "ParseIntentBudget (with_IntentBudget (rule_With r)) = Inr (n, window)" "n \<noteq> 0" "in_int64 (- window)"
    and "rule_actions (st_db (m_store m)) = old @ map (\<lambda>t. (rule_SHA r, format_rfc3339 t)) fired"
    and "one_window window (fired @ ts)" "int (length fired) \<le> n" "run_throttled e r ts m = (bs, m')"
  shows "int (length fired + length (filter Not bs)) \<le> n"
  using assms(2,3,7-)
proof (induction ts arbitrary: m fired bs)
  case (Cons t ts)
  obtain b m1 where th: "throttled e r t m = (b, m1)" by fastforce
  obtain bs1 where rt: "run_throttled e r ts m1 = (bs1, m')" and bs: "bs = b # bs1"
    using Cons.prems(6) by (auto simp: th split: prod.splits)
  note tt = throttled_sqlite [OF assms(1) Cons.prems(1,2) assms(4,5) th]
  have since: "time_add t (wrap64 (- window)) = t - window" using assms(6) by (simp add: time_add_def)
  have ow: "one_window window ((fired @ [t]) @ ts)" "one_window window (fired @ ts)"
    using Cons.prems(4) by (auto simp: one_window_def)
  have "list_all (\<lambda>u. (t - window) div second < u div second \<and> year_ok u) fired" "year_ok (t - window)"
    using Cons.prems(4) by (auto simp: one_window_def list_all_iff)
  then have "int (length fired) \<le> recent (rule_SHA r) (t - window) (rule_actions (st_db (m_store m)))"
    using recent_ge Cons.prems(3) by blast
  show ?case
  proof (cases b)
    case True
    then show ?thesis
      using Cons.IH [OF tt(3,4) _ ow(2) Cons.prems(5) rt] tt(2) Cons.prems(3) bs by simp
  next
    case False
    with tt(1) \<open>int (length fired) \<le> recent _ _ _\<close> since have "int (length (fired @ [t])) \<le> n" by simp
    then show ?thesis
      using Cons.IH [OF tt(3,4) _ ow(1) _ rt] tt(2) Cons.prems(3) bs False by simp
  qed
qed simp

section \<open>What a signal without a match leaves alone\<close>

lemma rollback_one_pending [simp]: "m_pending (rollback_one e pr m) = m_pending m"
  by (auto simp: rollback_one_def dest!: revertPendingD split: prod.splits option.splits)

lemma fold_pending: "(\<And>x m. m_pending (f x m) = m_pending m) \<Longrightarrow> m_pending (fold f xs m) = m_pending m"
  by (induction xs arbitrary: m) simp_all

lemma rollbackOnClear_pending [simp]: "m_pending (rollbackOnClear e corr r m) = m_pending m"
  by (auto simp: rollbackOnClear_def Let_def fold_pending dest!: on_storeD split: prod.splits)

lemma read_state_pending: "read_state e sig now m = (st, bl, m') \<Longrightarrow> m_pending m' = m_pending m"
  by (auto simp: read_state_def Let_def fold_pending dest!: on_storeD split: option.splits prod.splits sum.splits)

lemma Handle_no_match_pending:
  assumes "\<And>st. EvaluateMatches (eng_rec e) sig st = []"
  shows "m_pending (snd (Handle e sig m)) = m_pending m"
proof -
  let ?r = "read_state e sig (eng_now e (m_world m)) (inc ''signals_handled'' m)"
  obtain st bl m2 where r: "?r = (st, bl, m2)" by (cases ?r)
  then have "m_pending m2 = m_pending m" using read_state_pending by fastforce
  then show ?thesis by (simp add: Handle_def Let_def r assms fold_pending)
qed

section \<open>Guards that fail closed\<close>

lemma applyIntent_intent [simp]: "res_Intent (fst (applyIntent e i now m)) = sign_intent e i"
  by (auto simp: applyIntent_def claim_part_def failed_part_def applied_part_def result_def Let_def
      split: prod.splits option.splits sum.splits bool.splits if_splits)

lemma sign_intent_rule [simp]: "ri_RuleSHA (sign_intent e i) = ri_RuleSHA i"
  by (simp add: sign_intent_def)

lemma apply_intents_rule:
  "r \<in> set (fst (apply_intents e is now m)) \<Longrightarrow> \<exists>i\<in>set is. res_Intent r = sign_intent e i"
  by (induction "is" arbitrary: m) (auto simp: case_prod_beta)

lemma EvaluateMatches_rule:
  "mt \<in> set (EvaluateMatches rc sig st) \<Longrightarrow> i \<in> set (m_Intents mt) \<Longrightarrow> ri_RuleSHA i = rule_SHA (m_Rule mt)"
proof -
  have "mt \<in> set (eval_bucket crs sig st) \<Longrightarrow> i \<in> set (m_Intents mt) \<Longrightarrow> ri_RuleSHA i = rule_SHA (m_Rule mt)" for crs
    by (induction crs) (auto simp: actionToIntent_def Let_def split: if_splits)
  then show "mt \<in> set (EvaluateMatches rc sig st) \<Longrightarrow> i \<in> set (m_Intents mt) \<Longrightarrow> ?thesis"
    by (simp add: EvaluateMatches_def)
qed

lemma handle_match_rule:
  assumes "x \<in> set (fst (handle_match e sig now bl mt m))" and "\<And>i. i \<in> set (m_Intents mt) \<Longrightarrow> ri_RuleSHA i = rule_SHA (m_Rule mt)"
  shows "ri_RuleSHA (res_Intent x) = rule_SHA (m_Rule mt) \<and> rule_SHA (m_Rule mt) \<notin> set bl"
  using assms
  by (auto simp: handle_match_def fire_rule_def rule_result_def Let_def case_prod_beta dest!: apply_intents_rule
      split: if_splits prod.splits bool.splits)

lemma handle_matches_rule:
  assumes "x \<in> set (fst (handle_matches e sig now bl mts m))"
    and "\<And>mt i. mt \<in> set mts \<Longrightarrow> i \<in> set (m_Intents mt) \<Longrightarrow> ri_RuleSHA i = rule_SHA (m_Rule mt)"
  shows "ri_RuleSHA (res_Intent x) \<notin> set bl"
  using assms
proof (induction mts arbitrary: m)
  case (Cons mt mts)
  let ?m1 = "snd (handle_match e sig now bl mt m)"
  from Cons.prems(1) consider "x \<in> set (fst (handle_match e sig now bl mt m))" | "x \<in> set (fst (handle_matches e sig now bl mts ?m1))"
    by (auto simp: case_prod_beta)
  then show ?case
  proof cases
    case 1
    then show ?thesis using handle_match_rule [OF 1] Cons.prems(2) by simp
  next
    case 2
    then show ?thesis using Cons.IH Cons.prems(2) by auto
  qed
qed simp

section \<open>Properties\<close>

text \<open>C34: a window is satisfied only by the passage of time.  In any history of window checks of any
  rules, a check that is satisfied is at least the rule's duration after an earlier check of the
  same rule and correlation key, and at most twice the duration after it.\<close>

theorem window_needs_duration:
  assumes "window_checks cs [] = (oks, p)" and "fst (forWindowSatisfied sha corr dur now p)"
  shows "\<exists>sha' corr' dur' t. (sha', corr', dur', t) \<in> set cs \<and> dedupKey sha' corr' = dedupKey sha corr
         \<and> dur \<le> time_sub now t \<and> time_sub now t \<le> wrap64 (2 * dur)"
proof -
  have d: "distinct_keys (snd (window_checks cs q))" if "distinct_keys q" for q
    using that by (induction cs arbitrary: q) (auto simp: case_prod_beta window_keeps_distinct)
  have p: "p = snd (window_checks cs [])" by (simp add: assms(1))
  then have dp: "distinct_keys p" using d by simp
  from assms(2) obtain t where t: "map_of p (dedupKey sha corr) = Some t" "dur \<le> time_sub now t" "time_sub now t \<le> wrap64 (2 * dur)"
    by (auto simp: window_result(1) [OF dp] live_def split: option.splits if_splits)
  with window_entry_origin [of "[]" "dedupKey sha corr" cs t] p show ?thesis by fastforce
qed

theorem window_needs_duration_witness:
  "\<exists>sha' corr' dur' t. (sha', corr', dur', t) \<in> set [(''a'', ''k'', minute, 0)] \<and> dedupKey sha' corr' = dedupKey ''a'' ''k''
     \<and> minute \<le> time_sub (90 * second) t \<and> time_sub (90 * second) t \<le> wrap64 (2 * minute)"
proof -
  have "window_checks [(''a'', ''k'', minute, 0)] [] = ([False], [(dedupKey ''a'' ''k'', 0)])"
    by (simp add: forWindowSatisfied_def Let_def)
  moreover have "fst (forWindowSatisfied ''a'' ''k'' minute (90 * second) [(dedupKey ''a'' ''k'', 0)])"
    by (simp add: forWindowSatisfied_def time_sub_def minute_def second_def sat64_def int64_min_def int64_max_def wrap64_def)
  ultimately show ?thesis by (rule window_needs_duration)
qed

text \<open>C40: a short window starves a long one that comes after it.  Each check drops every pending window
  older than twice the duration of the rule being checked, also those of other rules.  Take two
  rules of which the one with the short window comes first in the rule order, so that it is
  checked first on every signal: when signals that match both arrive more than twice the short
  duration apart, the rule with the long window is never satisfied, however long its condition
  holds.  (In the other order it can be.)\<close>

theorem short_window_starves_long:
  assumes "0 < d1" "2 * d1 < int64_max" "dedupKey short corr \<noteq> dedupKey long corr" and "spaced (2 * d1) ts"
  shows "list_all Not (long_results short d1 long d2 corr ts [])"
  using starved [OF assms(1-3), of "[]" ts d2] assms(4) by simp

text \<open>The same signals for the long rule alone.\<close>

theorem short_window_starves_long_witness:
  "list_all Not (long_results ''a'' minute ''b'' (10 * minute) ''k'' [0, 3 * minute, 6 * minute, 9 * minute, 12 * minute] [])
   \<and> fst (window_checks (map (\<lambda>t. (''b'', ''k'', 10 * minute, t)) [0, 3 * minute, 6 * minute, 9 * minute, 12 * minute]) [])
       = [False, False, False, False, True]"
proof
  show "list_all Not (long_results ''a'' minute ''b'' (10 * minute) ''k'' [0, 3 * minute, 6 * minute, 9 * minute, 12 * minute] [])"
    by (rule short_window_starves_long) (simp_all add: minute_def second_def int64_max_def dedupKey_def)
  show "fst (window_checks (map (\<lambda>t. (''b'', ''k'', 10 * minute, t)) [0, 3 * minute, 6 * minute, 9 * minute, 12 * minute]) [])
       = [False, False, False, False, True]"
    by (simp add: forWindowSatisfied_def Let_def time_sub_def minute_def second_def sat64_def int64_min_def int64_max_def wrap64_def)
qed

text \<open>A window does not require the condition to hold throughout.  Signals on which no rule matches
  leave every pending window as it was, so a rule whose condition was seen false in between is
  satisfied by a later match within twice its duration of the first.\<close>

theorem window_survives_clear:
  assumes "\<And>sig st. sig \<in> set sigs \<Longrightarrow> EvaluateMatches (eng_rec e) sig st = []"
    and "distinct_keys (m_pending m)" "map_of (m_pending m) (dedupKey sha corr) = Some first"
    and "fold (\<lambda>sig m. snd (Handle e sig m)) sigs m = m'"
    and "dur \<le> time_sub now first" "time_sub now first \<le> wrap64 (2 * dur)"
  shows "fst (forWindowSatisfied sha corr dur now (m_pending m'))"
proof -
  have "m_pending (fold (\<lambda>sig m. snd (Handle e sig m)) sigs m) = m_pending m"
    using assms(1) by (induction sigs arbitrary: m) (simp_all add: Handle_no_match_pending)
  then have p: "m_pending m' = m_pending m" using assms(4) by simp
  show ?thesis using assms(2,3,5,6) by (simp add: p window_result(1) live_def)
qed

theorem window_survives_clear_witness:
  "fst (forWindowSatisfied ''a'' ''k'' minute (90 * second)
     (m_pending (snd (Handle demo_engine (demo_signal\<lparr>sig_Type := ''other''\<rparr>) (demo_mem\<lparr>m_pending := [(dedupKey ''a'' ''k'', 0)]\<rparr>)))))"
  by (rule window_survives_clear [of "[demo_signal\<lparr>sig_Type := ''other''\<rparr>]" demo_engine
        "demo_mem\<lparr>m_pending := [(dedupKey ''a'' ''k'', 0)]\<rparr>" _ _ 0])
     (auto simp: EvaluateMatches_def bucket_def demo_engine_def demo_reconciler_def time_sub_def minute_def second_def
       sat64_def int64_min_def int64_max_def wrap64_def)

text \<open>C9: the intent budget of one window.  On a SQLite store that raises no error, take a stretch of
  firings of a rule, checked one after another, in the four-digit years, all of which happen
  strictly after the second in which the window of the last one starts: at most the budgeted
  number is let through, whatever was recorded before.  (Recorded times are compared as text
  and a firing in the very second the window starts is not always counted, so a longer stretch
  can exceed the budget; so can handlers that check at the same time, since the count and the
  record are two calls of the store.)\<close>

theorem budget_bounds_firings:
  assumes "eng_store e = sqlite_ops ed" "sqlite_inv (m_store m)" "sqlite_healthy (m_store m)"
    and "ParseIntentBudget (with_IntentBudget (rule_With r)) = Inr (n, window)" "0 < n" "in_int64 (- window)"
    and "one_window window ts" "run_throttled e r ts m = (bs, m')"
  shows "int (length (filter Not bs)) \<le> n"
  using run_throttled_bound [OF assms(1-4) _ assms(6), of "rule_actions (st_db (m_store m))" "[]" ts bs m'] assms(5,7,8)
  by simp

lemma year_ok_minus_hour: "year_ok (- hour)"
  by (simp add: year_ok_def hour_def minute_def second_def civil_of_days_def epoch_day_def days_before_def Let_def
      month_lengths_def leap_year_def)

theorem budget_bounds_firings_witness:
  "\<exists>bs m'. run_throttled demo_engine (demo_rule ''cost'' ''true'' ''abc'') [0, 0, 0, 0, 0] demo_mem = (bs, m') \<and> int (length (filter Not bs)) \<le> 3"
proof -
  let ?r = "demo_rule ''cost'' ''true'' ''abc''"
  obtain bs m' where run: "run_throttled demo_engine ?r [0, 0, 0, 0, 0] demo_mem = (bs, m')" by fastforce
  have b: "ParseIntentBudget (with_IntentBudget (rule_With ?r)) = Inr (3, hour)" by (simp add: demo_rule_def demo_budget)
  have "one_window hour [0, 0, 0, 0, 0]"
    using year_ok_epoch year_ok_minus_hour by (simp add: one_window_def hour_def minute_def second_def)
  moreover have "in_int64 (- hour)" by (simp add: in_int64_def int64_min_def int64_max_def hour_def minute_def second_def)
  ultimately show ?thesis using budget_bounds_firings [OF demo_engine_ok b _ _ _ run] run by simp
qed

text \<open>C10: a cost guard that cannot be evaluated is reported, not passed over.  When the engine fails closed
  and the ledger cannot be read, every rule of the signal's type whose condition mentions
  \<^verbatim>\<open>state.\<close> is reported as failed for that reason, and no other result of the pass belongs to one
  of these rules: none of their intents is applied.\<close>

theorem state_guard_fails_closed:
  assumes "eng_failMode e = FailClosed" "eng_led e = Some l"
    and "StateFor (eng_store e) l (sub_Tenant (sig_Subject sig)) (eng_now e (m_world m)) (m_store m) = (Inl err, s1)"
    and "Handle e sig m = (rs, m')"
  shows "(\<forall>r\<in>set (StateDependentRules (eng_rec e) (sig_Type sig)).
            rule_result r OutFailed ''state unavailable (fail-closed)'' \<in> set rs)
         \<and> (\<forall>x\<in>set rs. \<forall>r\<in>set (StateDependentRules (eng_rec e) (sig_Type sig)).
            ri_RuleSHA (res_Intent x) = rule_SHA r \<longrightarrow>
            res_Outcome x = OutFailed \<and> res_Err x = ''state unavailable (fail-closed)'')"
proof -
  let ?m1 = "inc ''signals_handled'' m" and ?now = "eng_now e (m_world m)"
  let ?bl = "StateDependentRules (eng_rec e) (sig_Type sig)"
  obtain m2 where rd: "read_state e sig ?now ?m1 = (None, ?bl, m2)"
    using assms(1-3) by (simp add: read_state_def on_store_def Let_def)
  obtain hs m3 where h: "handle_matches e sig ?now (map rule_SHA ?bl) (EvaluateMatches (eng_rec e) sig None) m2 = (hs, m3)"
    by fastforce
  have rs: "rs = map (\<lambda>r. rule_result r OutFailed ''state unavailable (fail-closed)'') ?bl @ hs"
    using assms(4) by (simp add: Handle_def Let_def rd h)
  have "ri_RuleSHA (res_Intent x) \<notin> set (map rule_SHA ?bl)" if "x \<in> set hs" for x
    using handle_matches_rule [of x e sig ?now "map rule_SHA ?bl"] that h EvaluateMatches_rule by (metis fst_conv)
  then show ?thesis by (auto simp: rs rule_result_def result_def)
qed

definition demo_outage :: "(sqliteStore, Fake) mem" where
  "demo_outage = demo_mem\<lparr>m_store := demo_store\<lparr>st_fault := \<lambda>_. Some (FailBefore ''disk I/O error'')\<rparr>\<rparr>"

theorem state_guard_fails_closed_witness:
  "\<exists>rs m'. Handle (demo_engine\<lparr>eng_led := Some (New_ledger None)\<rparr>) demo_signal demo_outage = (rs, m')
     \<and> rule_result (demo_rule ''cost'' ''state.hot'' ''sha-c'') OutFailed ''state unavailable (fail-closed)'' \<in> set rs"
proof -
  let ?e = "demo_engine\<lparr>eng_led := Some (New_ledger None)\<rparr>"
  obtain rs m' where h: "Handle ?e demo_signal demo_outage = (rs, m')" by fastforce
  obtain s1 where s: "StateFor (eng_store ?e) (New_ledger None) (sub_Tenant (sig_Subject demo_signal))
      (eng_now ?e (m_world demo_outage)) (m_store demo_outage) = (Inl ''disk I/O error'', s1)"
    by (simp add: StateFor_def demo_engine_def demo_outage_def demo_store_def sqlite_ops_def sqlite_SpendSince_def query_def
        fault_now_def)
  have "demo_rule ''cost'' ''state.hot'' ''sha-c'' \<in> set (StateDependentRules (eng_rec ?e) (sig_Type demo_signal))"
    by (simp add: StateDependentRules_def demo_engine_def demo_reconciler_def bucket_def demo_signal_def referencesState_def
        str_contains_def demo_rule_def)
  moreover have "eng_failMode ?e = FailClosed" "eng_led ?e = Some (New_ledger None)" by (simp_all add: demo_engine_def)
  ultimately show ?thesis using state_guard_fails_closed [OF _ _ s h] h by blast
qed

end
