(* ===== verification/Recipe.thy ===== *)
theory Recipe
  imports Rules
begin

text \<open>
  Package \<^verbatim>\<open>recipe\<close>: curated rules made from parameters.  A recipe has typed parameters with
  defaults, a check, and a text template whose rendering is parsed like a hand-written rule.
  The templates are functions to text (\<^verbatim>\<open>recipe/templates\<close>), so that what a recipe
  renders is a definition here; the YAML encoder and decoders are parameters.

  The lemmas: the defaults of every recipe pass its check, a rendered rule carries the hash of
  its text, and which parameters the text ignores.
\<close>

record Target =
  tg_Enabled :: bool
  tg_Repo :: string
  tg_Channel :: string

definition zero_target :: Target where
  "zero_target = \<lparr>tg_Enabled = False, tg_Repo = [], tg_Channel = []\<rparr>"

record Platforms =
  pl_Github :: Target
  pl_Slack :: Target

record notify =
  nt_OpenIssue :: bool
  nt_Page :: bool

record costGuardParams =
  cg_On :: string
  cg_ThresholdUSD1h :: f64
  cg_For :: string
  cg_Alias :: string
  cg_To :: string
  cg_TTL :: string
  cg_IntentBudget :: string
  cg_Notify :: notify

record costRunawayParams =
  cr_On :: string
  cr_ThresholdUSD1h :: f64
  cr_For :: string
  cr_TTL :: string
  cr_Notify :: notify

record fallbackStormParams =
  fs_On :: string
  fs_Severity :: string
  fs_Notify :: notify

record latencyGuardParams =
  lg_On :: string
  lg_ThresholdP95Ms :: f64
  lg_Notify :: notify

datatype recipe_params =
    CostGuard costGuardParams
  | CostRunaway costRunawayParams
  | FallbackStorm fallbackStormParams
  | LatencyGuard latencyGuardParams

definition costGuardDefaults :: recipe_params where
  "costGuardDefaults =
     CostGuard \<lparr>cg_On = ''cost.budget_burn'', cg_ThresholdUSD1h = F64 5, cg_For = ''5m'', cg_Alias = ''gpt-4o'',
       cg_To = ''ollama/llama3'', cg_TTL = ''30m'', cg_IntentBudget = ''3/h'', cg_Notify = \<lparr>nt_OpenIssue = True, nt_Page = True\<rparr>\<rparr>"

definition costRunawayDefaults :: recipe_params where
  "costRunawayDefaults =
     CostRunaway \<lparr>cr_On = ''cost.budget_burn'', cr_ThresholdUSD1h = F64 50, cr_For = ''5m'', cr_TTL = ''30m'',
       cr_Notify = \<lparr>nt_OpenIssue = True, nt_Page = True\<rparr>\<rparr>"

definition fallbackStormDefaults :: recipe_params where
  "fallbackStormDefaults =
     FallbackStorm \<lparr>fs_On = ''fallback.fired'', fs_Severity = ''critical'', fs_Notify = \<lparr>nt_OpenIssue = False, nt_Page = True\<rparr>\<rparr>"

definition latencyGuardDefaults :: recipe_params where
  "latencyGuardDefaults =
     LatencyGuard \<lparr>lg_On = ''latency.regression'', lg_ThresholdP95Ms = F64 2000,
       lg_Notify = \<lparr>nt_OpenIssue = True, nt_Page = True\<rparr>\<rparr>"

text \<open>\<^verbatim>\<open>x <= 0\<close> on 64-bit floats: false for NaN and for plus infinity.\<close>

fun f64_le_zero :: "f64 \<Rightarrow> bool" where
  "f64_le_zero (F64 q) = (q \<le> 0)"
| "f64_le_zero (F64Inf neg) = neg"
| "f64_le_zero F64NaN = False"

definition costGuardValidate :: "costGuardParams \<Rightarrow> error option" where
  "costGuardValidate p =
     (if cg_On p = [] then Some ''on: required''
      else if f64_le_zero (cg_ThresholdUSD1h p) then Some ''threshold_usd_1h must be > 0''
      else if cg_Alias p = [] \<or> cg_To p = [] then Some ''failover.alias and failover.to are required''
      else None)"

definition costRunawayValidate :: "costRunawayParams \<Rightarrow> error option" where
  "costRunawayValidate p =
     (if cr_On p = [] then Some ''on: required''
      else if f64_le_zero (cr_ThresholdUSD1h p) then Some ''threshold_usd_1h must be > 0''
      else if cr_TTL p = [] then Some ''ttl: required''
      else None)"

definition fallbackStormValidate :: "fallbackStormParams \<Rightarrow> error option" where
  "fallbackStormValidate p =
     (if fs_On p = [] then Some ''on: required''
      else if fs_Severity p = [] then Some ''severity: required''
      else None)"

definition latencyGuardValidate :: "latencyGuardParams \<Rightarrow> error option" where
  "latencyGuardValidate p =
     (if lg_On p = [] then Some ''on: required''
      else if f64_le_zero (lg_ThresholdP95Ms p) then Some ''threshold_p95_ms must be > 0''
      else None)"

text \<open>
  Each entry of the registry has its own parameter type; one datatype holds the four, and
  the check of a recipe is the one of its constructor.
\<close>

fun validate_params :: "recipe_params \<Rightarrow> error option" where
  "validate_params (CostGuard p) = costGuardValidate p"
| "validate_params (CostRunaway p) = costRunawayValidate p"
| "validate_params (FallbackStorm p) = fallbackStormValidate p"
| "validate_params (LatencyGuard p) = latencyGuardValidate p"

section \<open>Templates\<close>

definition nl :: string where "nl = [CHR 0x0A]"

definition line_if :: "bool \<Rightarrow> string \<Rightarrow> string" where
  "line_if b s = (if b then nl @ s else [])"

definition issue_line :: "notify \<Rightarrow> Target \<Rightarrow> string" where
  "issue_line n gh = line_if (nt_OpenIssue n \<and> tg_Enabled gh) (''  - open_issue: { repo: '' @ tg_Repo gh @ '' }'')"

definition page_text :: "Target \<Rightarrow> string" where
  "page_text sl = ''  - page: { slack: '' @ [dquote] @ tg_Channel sl @ [dquote] @ '' }''"

definition cost_guard_tmpl :: "costGuardParams \<Rightarrow> Target \<Rightarrow> Target \<Rightarrow> string" where
  "cost_guard_tmpl p gh sl =
     ''# recipe: cost-guard v1'' @ nl @ ''on: '' @ cg_On p @ nl @
     ''when: signal.data.spend_1h_usd > '' @ fmt_g (cg_ThresholdUSD1h p) @
     line_if (cg_For p \<noteq> []) (''for: '' @ cg_For p) @ nl @
     ''then:'' @ nl @
     ''  - route_override: { alias: '' @ cg_Alias p @ '', to: '' @ cg_To p @ '', ttl: '' @ cg_TTL p @ '' }'' @
     issue_line (cg_Notify p) gh @
     line_if (nt_Page (cg_Notify p) \<and> tg_Enabled sl) (page_text sl) @ nl @
     ''with: { dry_run: false, intent_budget: '' @ [dquote] @ cg_IntentBudget p @ [dquote] @ '' }'' @ nl"

definition cost_runaway_tmpl :: "costRunawayParams \<Rightarrow> Target \<Rightarrow> Target \<Rightarrow> string" where
  "cost_runaway_tmpl p gh sl =
     ''# recipe: cost-runaway v1'' @ nl @ ''on: '' @ cr_On p @ nl @
     ''when: signal.data.spend_1h_usd > '' @ fmt_g (cr_ThresholdUSD1h p) @
     line_if (cr_For p \<noteq> []) (''for: '' @ cr_For p) @ nl @
     ''then:'' @ nl @
     ''  - throttle_tenant: { ttl: '' @ cr_TTL p @ '' }'' @
     issue_line (cr_Notify p) gh @
     line_if (nt_Page (cr_Notify p) \<and> tg_Enabled sl) (page_text sl) @ nl @
     ''with: { dry_run: false, rollback: on_clear }'' @ nl"

definition fallback_storm_tmpl :: "fallbackStormParams \<Rightarrow> Target \<Rightarrow> Target \<Rightarrow> string" where
  "fallback_storm_tmpl p gh sl =
     ''# recipe: fallback-storm v1'' @ nl @ ''on: '' @ fs_On p @ nl @
     ''when: signal.severity == '' @ [dquote] @ fs_Severity p @ [dquote] @ nl @
     ''then:'' @ nl @ page_text sl @ issue_line (fs_Notify p) gh @ nl @
     ''with: { dry_run: false }'' @ nl"

definition latency_guard_tmpl :: "latencyGuardParams \<Rightarrow> Target \<Rightarrow> Target \<Rightarrow> string" where
  "latency_guard_tmpl p gh sl =
     ''# recipe: latency-guard v1'' @ nl @ ''on: '' @ lg_On p @ nl @
     ''when: signal.data.p95_latency_ms > '' @ fmt_g (lg_ThresholdP95Ms p) @ nl @
     ''then:'' @ nl @ page_text sl @ issue_line (lg_Notify p) gh @ nl @
     ''with: { dry_run: false }'' @ nl"

fun execute_template :: "recipe_params \<Rightarrow> Target \<Rightarrow> Target \<Rightarrow> string" where
  "execute_template (CostGuard p) gh sl = cost_guard_tmpl p gh sl"
| "execute_template (CostRunaway p) gh sl = cost_runaway_tmpl p gh sl"
| "execute_template (FallbackStorm p) gh sl = fallback_storm_tmpl p gh sl"
| "execute_template (LatencyGuard p) gh sl = latency_guard_tmpl p gh sl"

section \<open>The registry and rendering\<close>

record recipeDef =
  rd_summary :: string
  rd_build :: recipe_params

definition recipe_registry :: "recipeDef dict" where
  "recipe_registry =
     [(''cost-guard'', \<lparr>rd_summary = ''Cost burn over a $/hr threshold -> fail over to a cheaper/local model (+ optional issue/page).'',
                       rd_build = costGuardDefaults\<rparr>),
      (''cost-runaway'', \<lparr>rd_summary = ''Extreme spend over a $/hr threshold -> throttle the tenant (TTL, auto-revert on_clear) (+ optional issue/page).'',
                         rd_build = costRunawayDefaults\<rparr>),
      (''fallback-storm'', \<lparr>rd_summary = ''Critical provider-fallback storm -> page on-call (+ optional issue).'',
                           rd_build = fallbackStormDefaults\<rparr>),
      (''latency-guard'', \<lparr>rd_summary = ''p95 latency regression over a threshold -> page on-call (+ optional issue).'',
                          rd_build = latencyGuardDefaults\<rparr>)]"

definition Names :: "string list" where
  "Names = sort (map fst recipe_registry)"

definition Known :: "string \<Rightarrow> bool" where
  "Known name \<longleftrightarrow> map_of recipe_registry name \<noteq> None"

definition Summary :: "string \<Rightarrow> string" where
  "Summary name = (case map_of recipe_registry name of None \<Rightarrow> [] | Some d \<Rightarrow> rd_summary d)"

datatype recipe_error =
    UnknownRecipe string
  | MarshalParams error
  | BadParams string error
  | InvalidParams string error
  | ParseRendered string rule_error

text \<open>
  What the sources use of the YAML package: encoding a map, decoding over a parameter struct
  (with unknown fields refused), decoding a rule.  A decoder changes the struct it is given
  and may report the end of the input, which is not an error here.
\<close>

datatype decode_status = DecodeOK | DecodeEOF | DecodeError error

record yaml_lib =
  yl_Marshal :: "any dict \<Rightarrow> bytes result"
  yl_CostGuard :: "bytes \<Rightarrow> costGuardParams \<Rightarrow> costGuardParams \<times> decode_status"
  yl_CostRunaway :: "bytes \<Rightarrow> costRunawayParams \<Rightarrow> costRunawayParams \<times> decode_status"
  yl_FallbackStorm :: "bytes \<Rightarrow> fallbackStormParams \<Rightarrow> fallbackStormParams \<times> decode_status"
  yl_LatencyGuard :: "bytes \<Rightarrow> latencyGuardParams \<Rightarrow> latencyGuardParams \<times> decode_status"
  yl_Rule :: "bytes \<Rightarrow> rawRule result"

fun decode_over :: "yaml_lib \<Rightarrow> bytes \<Rightarrow> recipe_params \<Rightarrow> recipe_params \<times> decode_status" where
  "decode_over yl b (CostGuard p) = map_prod CostGuard id (yl_CostGuard yl b p)"
| "decode_over yl b (CostRunaway p) = map_prod CostRunaway id (yl_CostRunaway yl b p)"
| "decode_over yl b (FallbackStorm p) = map_prod FallbackStorm id (yl_FallbackStorm yl b p)"
| "decode_over yl b (LatencyGuard p) = map_prod LatencyGuard id (yl_LatencyGuard yl b p)"

definition decode_params :: "yaml_lib \<Rightarrow> string \<Rightarrow> any dict \<Rightarrow> recipe_params \<Rightarrow> recipe_error + recipe_params" where
  "decode_params yl name raw d =
     (if raw = [] then Inr d
      else case yl_Marshal yl raw of
        Inl e \<Rightarrow> Inl (MarshalParams e)
      | Inr b \<Rightarrow>
          (case decode_over yl b d of
             (p, DecodeError e) \<Rightarrow> Inl (BadParams name e)
           | (p, _) \<Rightarrow> Inr p))"

definition page_target :: "Target \<Rightarrow> Target" where
  "page_target sl = (if tg_Channel sl = [] then sl\<lparr>tg_Channel := ''#alerts''\<rparr> else sl)"

text \<open>
  The templates refer to fields that exist and print strings and floats only, so executing
  one does not fail.
\<close>

definition Render :: "yaml_lib \<Rightarrow> string \<Rightarrow> args \<Rightarrow> Platforms \<Rightarrow> recipe_error + string \<times> Rule list" where
  "Render yl name raw p =
     (case map_of recipe_registry name of
        None \<Rightarrow> Inl (UnknownRecipe name)
      | Some def \<Rightarrow>
          (case decode_params yl name (dict_of raw) (rd_build def) of
             Inl e \<Rightarrow> Inl e
           | Inr params \<Rightarrow>
               (case validate_params params of
                  Some e \<Rightarrow> Inl (InvalidParams name e)
                | None \<Rightarrow>
                    (let buf = execute_template params (pl_Github p) (page_target (pl_Slack p))
                     in case ParseRules (yl_Rule yl) buf of
                          Inl e \<Rightarrow> Inl (ParseRendered name e)
                        | Inr rs \<Rightarrow> Inr (buf, rs)))))"

section \<open>Properties\<close>

lemma ParseRules_one:
  "ParseRules yaml b = Inr rs \<Longrightarrow> \<exists>r. rs = [r] \<and> rule_SHA r = take 12 (hex_encode (sha256 b))"
  by (auto simp: ParseRules_def Let_def split: sum.splits option.splits if_splits)

lemma registry_defaults_valid: "(n, d) \<in> set recipe_registry \<Longrightarrow> validate_params (rd_build d) = None"
  by (auto simp: recipe_registry_def costGuardDefaults_def costRunawayDefaults_def fallbackStormDefaults_def
      latencyGuardDefaults_def costGuardValidate_def costRunawayValidate_def fallbackStormValidate_def latencyGuardValidate_def)

text \<open>What a recipe renders comes from checked parameters of that recipe, and the one rule it
  gives carries the hash of the exact text that is returned.
\<close>

theorem recipe_rule_pinned_to_text:
  assumes "Render yl name raw p = Inr (text, rs)"
  shows "Known name \<and> (\<exists>params r. validate_params params = None
    \<and> text = execute_template params (pl_Github p) (page_target (pl_Slack p))
    \<and> rs = [r] \<and> rule_SHA r = take 12 (hex_encode (sha256 text)))"
  using assms ParseRules_one
  by (fastforce simp: Render_def Known_def Let_def split: option.splits sum.splits)

definition demo_yaml :: yaml_lib where
  "demo_yaml =
     \<lparr>yl_Marshal = (\<lambda>_. Inr []), yl_CostGuard = (\<lambda>b p. (p, DecodeEOF)), yl_CostRunaway = (\<lambda>b p. (p, DecodeEOF)),
      yl_FallbackStorm = (\<lambda>b p. (p, DecodeEOF)), yl_LatencyGuard = (\<lambda>b p. (p, DecodeEOF)),
      yl_Rule = (\<lambda>b. Inr \<lparr>raw_On = ''fallback.fired'', raw_When = ''true'', raw_For = [],
                          raw_Then = [[(ActionPage, None)]],
                          raw_With = \<lparr>with_DryRun = False, with_IntentBudget = [], with_Rollback = []\<rparr>\<rparr>)\<rparr>"

definition demo_platforms :: Platforms where
  "demo_platforms = \<lparr>pl_Github = zero_target, pl_Slack = zero_target\<rparr>"

theorem recipe_rule_pinned_to_text_witness:
  "\<exists>text r. Render demo_yaml ''fallback-storm'' None demo_platforms = Inr (text, [r])
     \<and> rule_SHA r = take 12 (hex_encode (sha256 text))"
proof -
  obtain t rs where r: "Render demo_yaml ''fallback-storm'' None demo_platforms = Inr (t, rs)"
    by (simp add: Render_def recipe_registry_def decode_params_def dict_of_def fallbackStormDefaults_def
        fallbackStormValidate_def ParseRules_def demo_yaml_def raw_actions_def Let_def)
  from recipe_rule_pinned_to_text [OF this] r show ?thesis by auto
qed

text \<open>The recipes that page do so whatever their parameter \<^verbatim>\<open>notify.page\<close> says and whether or not Slack
  is enabled: the text is the same for both values of the switch.
\<close>

theorem page_switch_ignored:
  "execute_template (FallbackStorm (p\<lparr>fs_Notify := (fs_Notify p)\<lparr>nt_Page := b\<rparr>\<rparr>)) gh (sl\<lparr>tg_Enabled := c\<rparr>) =
     execute_template (FallbackStorm p) gh sl
   \<and> execute_template (LatencyGuard (q\<lparr>lg_Notify := (lg_Notify q)\<lparr>nt_Page := b\<rparr>\<rparr>)) gh (sl\<lparr>tg_Enabled := c\<rparr>) =
     execute_template (LatencyGuard q) gh sl"
  by (simp add: fallback_storm_tmpl_def latency_guard_tmpl_def issue_line_def page_text_def)

end
