(* ===== verification/GoDecode.thy ===== *)
theory GoDecode
  imports GoJson
begin

text \<open>
  Decoding JSON into typed Go values, as \<^verbatim>\<open>encoding/json\<close> does it.  A decoder takes a syntax tree
  and the current value of the destination and gives the new value; \<^const>\<open>None\<close> is a
  decoding error, after which the sources use nothing of the destination.  \<^verbatim>\<open>null\<close> leaves a value
  as it is and empties a pointer, slice or map; a member is matched to a field by its exact
  name, then up to letter case; unknown members are ignored; a repeated member decodes over
  the value that the earlier one left.

  The second part is the scanner: whether a text is the start of some JSON value, which
  decides between a syntax error and a request for more input when a body is cut off.
\<close>

section \<open>Decoders\<close>

type_synonym 'a decoder = "json \<Rightarrow> 'a \<Rightarrow> 'a option"

fun dec_string :: "string decoder" where
  "dec_string JNull cur = Some cur"
| "dec_string (JStr s) cur = Some s"
| "dec_string _ cur = None"

text \<open>An \<^verbatim>\<open>int\<close> or \<^verbatim>\<open>int64\<close>: the literal must be a decimal integer in range.\<close>

fun dec_int :: "int decoder" where
  "dec_int JNull cur = Some cur"
| "dec_int (JNum l) cur = atoi l"
| "dec_int _ cur = None"

fun dec_float :: "f64 decoder" where
  "dec_float JNull cur = Some cur"
| "dec_float (JNum l) cur = number_value l"
| "dec_float _ cur = None"

text \<open>Elements decode over the elements that are there, then over the zero value.\<close>

fun dec_elems :: "'a decoder \<Rightarrow> 'a \<Rightarrow> json list \<Rightarrow> 'a list \<Rightarrow> 'a list option" where
  "dec_elems d z [] cur = Some []"
| "dec_elems d z (j # js) cur =
     (case d j (case cur of [] \<Rightarrow> z | c # _ \<Rightarrow> c) of
        None \<Rightarrow> None
      | Some v \<Rightarrow> map_option (Cons v) (dec_elems d z js (drop 1 cur)))"

fun dec_slice :: "'a decoder \<Rightarrow> 'a \<Rightarrow> 'a list decoder" where
  "dec_slice d z JNull cur = Some []"
| "dec_slice d z (JArr js) cur = dec_elems d z js cur"
| "dec_slice d z _ cur = None"

fun dec_pointer :: "'a decoder \<Rightarrow> 'a \<Rightarrow> 'a option decoder" where
  "dec_pointer d z JNull cur = Some None"
| "dec_pointer d z j cur = map_option Some (d j (case cur of None \<Rightarrow> z | Some v \<Rightarrow> v))"

text \<open>\<^verbatim>\<open>map[string]any\<close>: a nil map is \<^const>\<open>None\<close>; members replace entries.\<close>

fun dec_map :: "any dict option decoder" where
  "dec_map JNull cur = Some None"
| "dec_map (JObj ms) cur =
     map_option (\<lambda>es. Some (fold (\<lambda>(k, v) m. AList.update k v m) es (case cur of None \<Rightarrow> [] | Some m \<Rightarrow> m)))
       (those (map (\<lambda>(k, j). map_option (Pair k) (any_of_json j)) ms))"
| "dec_map _ cur = None"

text \<open>
  The case folding of member names: ASCII letters to upper case, and the two other runes
  that fold to an ASCII letter (the long s and the Kelvin sign).
\<close>

fun fold_name :: "string \<Rightarrow> string" where
  "fold_name (a # b # c # r) =
     (if [a, b, c] = map char_of [0xE2, 0x84, 0xAA :: nat] then CHR ''K'' # fold_name r
      else if [a, b] = map char_of [0xC5, 0xBF :: nat] then CHR ''S'' # fold_name (c # r)
      else to_upper_char a # fold_name (b # c # r))"
| "fold_name [a, b] = (if [a, b] = map char_of [0xC5, 0xBF :: nat] then ''S'' else [to_upper_char a, to_upper_char b])"
| "fold_name [a] = [to_upper_char a]"
| "fold_name [] = []"

definition field_for :: "'d dict \<Rightarrow> string \<Rightarrow> 'd option" where
  "field_for fields k =
     (case map_of fields k of
        Some d \<Rightarrow> Some d
      | None \<Rightarrow> map_of (map (\<lambda>(n, d). (fold_name n, d)) fields) (fold_name k))"

fun dec_members :: "'a decoder dict \<Rightarrow> (string \<times> json) list \<Rightarrow> 'a \<Rightarrow> 'a option" where
  "dec_members fields [] cur = Some cur"
| "dec_members fields ((k, j) # ms) cur =
     (case field_for fields k of
        None \<Rightarrow> dec_members fields ms cur
      | Some d \<Rightarrow> (case d j cur of None \<Rightarrow> None | Some v \<Rightarrow> dec_members fields ms v))"

fun dec_struct :: "'a decoder dict \<Rightarrow> 'a decoder" where
  "dec_struct fields JNull cur = Some cur"
| "dec_struct fields (JObj ms) cur = dec_members fields ms cur"
| "dec_struct fields _ cur = None"

text \<open>The decoder of one field of a record.\<close>

definition at_field :: "('a \<Rightarrow> 'b) \<Rightarrow> ('b \<Rightarrow> 'a \<Rightarrow> 'a) \<Rightarrow> 'b decoder \<Rightarrow> 'a decoder" where
  "at_field get put d j cur = map_option (\<lambda>v. put v cur) (d j (get cur))"

text \<open>\<^verbatim>\<open>json.Unmarshal\<close> into a typed value.\<close>

definition unmarshal_into :: "'a decoder \<Rightarrow> 'a \<Rightarrow> bytes \<Rightarrow> 'a option" where
  "unmarshal_into d z b = Option.bind (json_parse b) (\<lambda>j. d j z)"

section \<open>The scanner\<close>

datatype scan_state =
    BeginValue | BeginValueOrEmpty | BeginString | BeginStringOrEmpty | EndValue | EndTop
  | InString | InStringEsc | InStringEscU nat
  | InNeg | InZero | InInt | InDot | InFrac | InE | InESign | InExp
  | InLiteral string

datatype parse_frame = ObjectKey | ObjectValue | ArrayValue

type_synonym scanner = "scan_state \<times> parse_frame list"

definition is_space :: "char \<Rightarrow> bool" where
  "is_space c \<longleftrightarrow> c = CHR '' '' \<or> c = CHR 0x09 \<or> c = CHR 0x0A \<or> c = CHR 0x0D"

text \<open>After a value, inside what it belongs to.\<close>

definition after_value :: "parse_frame list \<Rightarrow> scanner" where
  "after_value stack = (if stack = [] then EndTop else EndValue, stack)"

definition begin_value :: "char \<Rightarrow> parse_frame list \<Rightarrow> scanner option" where
  "begin_value c st =
     (if c = CHR ''{'' then Some (BeginStringOrEmpty, ObjectKey # st)
      else if c = CHR ''['' then Some (BeginValueOrEmpty, ArrayValue # st)
      else if c = dquote then Some (InString, st)
      else if c = CHR ''-'' then Some (InNeg, st)
      else if c = CHR ''0'' then Some (InZero, st)
      else if c = CHR ''t'' then Some (InLiteral ''rue'', st)
      else if c = CHR ''f'' then Some (InLiteral ''alse'', st)
      else if c = CHR ''n'' then Some (InLiteral ''ull'', st)
      else if is_digit c then Some (InInt, st)
      else None)"

definition end_value :: "char \<Rightarrow> parse_frame list \<Rightarrow> scanner option" where
  "end_value c st =
     (if is_space c then Some (if st = [] then EndTop else EndValue, st)
      else case st of
        [] \<Rightarrow> None
      | ObjectKey # r \<Rightarrow> if c = CHR '':'' then Some (BeginValue, ObjectValue # r) else None
      | ObjectValue # r \<Rightarrow>
          if c = CHR '','' then Some (BeginString, ObjectKey # r)
          else if c = CHR ''}'' then Some (after_value r) else None
      | ArrayValue # r \<Rightarrow>
          if c = CHR '','' then Some (BeginValue, ArrayValue # r)
          else if c = CHR '']'' then Some (after_value r) else None)"

definition after_int :: "char \<Rightarrow> parse_frame list \<Rightarrow> scanner option" where
  "after_int c st =
     (if c = CHR ''.'' then Some (InDot, st)
      else if c = CHR ''e'' \<or> c = CHR ''E'' then Some (InE, st) else end_value c st)"

fun scan_step :: "char \<Rightarrow> scanner \<Rightarrow> scanner option" where
  "scan_step c (BeginValue, st) = (if is_space c then Some (BeginValue, st) else begin_value c st)"
| "scan_step c (BeginValueOrEmpty, st) =
     (if is_space c then Some (BeginValueOrEmpty, st)
      else if c = CHR '']'' then end_value c st else begin_value c st)"
| "scan_step c (BeginString, st) =
     (if is_space c then Some (BeginString, st) else if c = dquote then Some (InString, st) else None)"
| "scan_step c (BeginStringOrEmpty, st) =
     (if is_space c then Some (BeginStringOrEmpty, st)
      else if c = CHR ''}'' then end_value c (case st of [] \<Rightarrow> [] | _ # r \<Rightarrow> ObjectValue # r)
      else if c = dquote then Some (InString, st) else None)"
| "scan_step c (EndValue, st) = end_value c st"
| "scan_step c (EndTop, st) = (if is_space c then Some (EndTop, st) else None)"
| "scan_step c (InString, st) =
     (if c = dquote then Some (after_value st)
      else if c = backslash then Some (InStringEsc, st)
      else if of_char c < (32::nat) then None else Some (InString, st))"
| "scan_step c (InStringEsc, st) =
     (if c = CHR ''u'' then Some (InStringEscU 4, st)
      else if c \<in> set ''bfnrt/'' \<or> c = backslash \<or> c = dquote then Some (InString, st) else None)"
| "scan_step c (InStringEscU k, st) =
     (if hex_val c = None then None else Some (if k \<le> 1 then InString else InStringEscU (k - 1), st))"
| "scan_step c (InNeg, st) =
     (if c = CHR ''0'' then Some (InZero, st) else if is_digit c then Some (InInt, st) else None)"
| "scan_step c (InInt, st) = (if is_digit c then Some (InInt, st) else after_int c st)"
| "scan_step c (InZero, st) = after_int c st"
| "scan_step c (InDot, st) = (if is_digit c then Some (InFrac, st) else None)"
| "scan_step c (InFrac, st) =
     (if is_digit c then Some (InFrac, st)
      else if c = CHR ''e'' \<or> c = CHR ''E'' then Some (InE, st) else end_value c st)"
| "scan_step c (InE, st) =
     (if c = CHR ''+'' \<or> c = CHR ''-'' then Some (InESign, st)
      else if is_digit c then Some (InExp, st) else None)"
| "scan_step c (InESign, st) = (if is_digit c then Some (InExp, st) else None)"
| "scan_step c (InExp, st) = (if is_digit c then Some (InExp, st) else end_value c st)"
| "scan_step c (InLiteral w, st) =
     (case w of
        [] \<Rightarrow> None
      | d # r \<Rightarrow> if c = d then Some (if r = [] then after_value st else (InLiteral r, st)) else None)"

fun scan :: "string \<Rightarrow> scanner \<Rightarrow> scanner option" where
  "scan [] s = Some s"
| "scan (c # cs) s = Option.bind (scan_step c s) (scan cs)"

text \<open>The text can still become a value: no error, and the value is not complete.\<close>

definition viable :: "string \<Rightarrow> bool" where
  "viable t = (case scan t (BeginValue, []) of None \<Rightarrow> False | Some (q, _) \<Rightarrow> q \<noteq> EndTop)"

section \<open>Decoding the first value of a capped body\<close>

datatype 'a body_result = Decoded_body 'a | BodyTooLarge | BadJson

text \<open>
  \<^verbatim>\<open>json.NewDecoder(r.Body).Decode\<close> behind \<^verbatim>\<open>http.MaxBytesReader\<close>.  The decoder reads as far as its
  first value goes and ignores the rest of the body; it meets the limit only when the first
  \<open>max\<close> bytes neither hold a complete value nor an error.  A value without a closing bracket
  is complete only at the next byte or at the end of the body, and when reading the body breaks
  off with an error (\<open>broken\<close>) there is no such end.
\<close>

fun bracketed :: "json \<Rightarrow> bool" where
  "bracketed (JObj ms) = True"
| "bracketed (JArr js) = True"
| "bracketed _ = False"

definition read_first_value :: "nat \<Rightarrow> bool \<Rightarrow> bytes \<Rightarrow> json body_result" where
  "read_first_value limit broken body =
     (let pre = take limit body; over = (limit < length body)
      in case json_value pre of
           Some (v, r) \<Rightarrow>
             if r = [] \<and> \<not> bracketed v \<and> over then BodyTooLarge
             else if r = [] \<and> \<not> bracketed v \<and> broken then BadJson else Decoded_body v
         | None \<Rightarrow> if over \<and> viable pre then BodyTooLarge else BadJson)"

definition decode_body :: "nat \<Rightarrow> 'a decoder \<Rightarrow> 'a \<Rightarrow> bool \<Rightarrow> bytes \<Rightarrow> 'a body_result" where
  "decode_body limit d z broken body =
     (case read_first_value limit broken body of
        Decoded_body j \<Rightarrow> (case d j z of None \<Rightarrow> BadJson | Some v \<Rightarrow> Decoded_body v)
      | BodyTooLarge \<Rightarrow> BodyTooLarge
      | BadJson \<Rightarrow> BadJson)"

section \<open>Lemmas\<close>

lemma decode_body_small:
  "length body \<le> limit \<Longrightarrow> decode_body limit d z broken body \<noteq> BodyTooLarge"
  by (auto simp: decode_body_def read_first_value_def Let_def split: option.splits body_result.splits)

lemma decode_body_prefix:
  assumes "decode_body limit d z broken body = Decoded_body v"
  shows "decode_body limit d z broken (take limit body) = Decoded_body v"
  using assms
  by (auto simp: decode_body_def read_first_value_def Let_def split: option.splits body_result.splits if_splits prod.splits)

section \<open>Strings survive encoding\<close>

text \<open>Valid UTF-8, which is what the encoder does not replace.\<close>

function utf8_valid :: "string \<Rightarrow> bool" where
  "utf8_valid s =
     (if s = [] then True else case utf8_len s of None \<Rightarrow> False | Some k \<Rightarrow> utf8_valid (drop (max 1 k) s))"
  by pat_completeness auto
termination
  by (relation "measure length") auto

declare utf8_valid.simps [simp del]

lemma utf8_len_bounds: "utf8_len s = Some k \<Longrightarrow> 1 \<le> k \<and> k \<le> length s"
  by (cases s rule: utf8_len.cases) (auto simp: Let_def split: if_splits list.splits)

text \<open>The length of an encoding, from its bytes.\<close>

lemma utf8_len_one: "byte_in 0 127 c \<Longrightarrow> utf8_len (c # r) = Some 1"
  by simp

lemma utf8_len_cases:
  assumes "utf8_len s = Some k"
  obtains (one) c r where "s = c # r" "byte_in 0 127 c" "k = 1"
  | (two) c d r where "s = c # d # r" "k = 2" "\<not> byte_in 0 127 c"
  | (three) c d e r where "s = c # d # e # r" "k = 3" "\<not> byte_in 0 127 c"
  | (four) c d e f r where "s = c # d # e # f # r" "k = 4" "\<not> byte_in 0 127 c"
  using assms by (cases s rule: utf8_len.cases) (auto simp: Let_def split: if_splits list.splits)

lemma utf8_len_ext:
  "utf8_len (c # d # r) = Some 2 \<Longrightarrow> utf8_len (c # d # t) = Some 2"
  "utf8_len (c # d # e # r) = Some 3 \<Longrightarrow> utf8_len (c # d # e # t) = Some 3"
  "utf8_len (c # d # e # f # r) = Some 4 \<Longrightarrow> utf8_len (c # d # e # f # t) = Some 4"
  by (auto simp: Let_def split: if_splits list.splits)

lemma utf8_len_take:
  assumes "utf8_len s = Some k"
  shows "utf8_len (take k s @ t) = Some k"
  using assms
proof (cases rule: utf8_len_cases)
  case one
  then show ?thesis by simp
next
  case (two c d r)
  with assms utf8_len_ext(1) [of c d r t] show ?thesis by (simp del: utf8_len.simps)
next
  case (three c d e r)
  with assms utf8_len_ext(2) [of c d e r t] show ?thesis by (simp del: utf8_len.simps)
next
  case (four c d e f r)
  with assms utf8_len_ext(3) [of c d e f r t] show ?thesis by (simp del: utf8_len.simps)
qed

declare utf8_len.simps [simp del]

lemma utf8_valid_Nil [simp]: "utf8_valid []"
  by (simp add: utf8_valid.simps)

lemma utf8_valid_ascii [simp]: "list_all (byte_in 0 127) s \<Longrightarrow> utf8_valid s"
proof (induction s)
  case (Cons c s)
  then show ?case by (simp add: utf8_valid.simps [of "c # s"] utf8_len_one)
qed simp

lemma hex_val_digit: "n < 16 \<Longrightarrow> hex_val (hex_digit n) = Some n"
  by (auto simp: hex_digit_def hex_val_def Let_def)

lemma hex4_val_hex4: "n < 128 \<Longrightarrow> hex4_val (hex4 n) = Some n"
  by (simp add: hex4_def hex_val_digit)

lemma unquote_plain:
  assumes "c \<noteq> dquote" "\<not> of_char c < (32::nat)" "c \<noteq> backslash" and "utf8_len (c # r) = Some k"
  shows "json_unquote (c # r) = map_option (\<lambda>(t, z). (take k (c # r) @ t, z)) (json_unquote (drop k (c # r)))"
proof -
  have "max 1 k = k" using utf8_len_bounds [OF assms(4)] by simp
  with assms show ?thesis by (simp add: json_unquote.simps [of "c # r"])
qed

lemma length_hex4 [simp]: "length (hex4 n) = 4"
  by (simp add: hex4_def)

lemma unquote_u:
  assumes "n < 128"
  shows "json_unquote (backslash # CHR ''u'' # hex4 n @ r) = map_option (\<lambda>(t, z). (char_of n # t, z)) (json_unquote r)"
proof -
  have "unicode_escape (hex4 n @ r) = Some ([char_of n], 4)"
    using assms by (simp add: unicode_escape_def hex4_val_hex4 surrogate_def utf8_encode_def)
  then show ?thesis
    by (subst json_unquote.simps) (simp add: backslash_def dquote_def)
qed

definition simple_escapes :: "(char \<times> char) list" where
  "simple_escapes =
     [(dquote, dquote), (backslash, backslash), (CHR ''/'', CHR ''/''), (CHR ''b'', CHR 0x08),
      (CHR ''f'', CHR 0x0C), (CHR ''n'', CHR 0x0A), (CHR ''r'', CHR 0x0D), (CHR ''t'', CHR 0x09)]"

lemma unquote_simple:
  assumes "map_of simple_escapes e = Some x" and "e \<noteq> CHR ''u''"
  shows "json_unquote (backslash # e # r) = map_option (\<lambda>(t, z). (x # t, z)) (json_unquote r)"
proof -
  have "map_of [(dquote, dquote), (backslash, backslash), (CHR ''/'', CHR ''/''), (CHR ''b'', CHR 0x08),
      (CHR ''f'', CHR 0x0C), (CHR ''n'', CHR 0x0A), (CHR ''r'', CHR 0x0D), (CHR ''t'', CHR 0x09)] e = Some x"
    using assms(1) by (simp only: simple_escapes_def)
  with assms(2) show ?thesis
    by (subst json_unquote.simps) (simp add: backslash_def dquote_def del: map_of.simps)
qed

lemma escape_ascii_cases:
  obtains (esc) e where "escape_ascii c = [backslash, e]" "e \<noteq> CHR ''u''" "map_of simple_escapes e = Some c"
    | (u) "escape_ascii c = [backslash, CHR ''u''] @ hex4 (of_char c)"
    | (plain) "escape_ascii c = [c]" "c \<noteq> dquote" "c \<noteq> backslash" "\<not> of_char c < (32::nat)"
proof -
  consider "c = dquote" | "c = backslash" | "c = CHR 0x08" | "c = CHR 0x0C" | "c = CHR 0x0A" | "c = CHR 0x0D" | "c = CHR 0x09"
    | "c \<notin> {dquote, backslash, CHR 0x08, CHR 0x0C, CHR 0x0A, CHR 0x0D, CHR 0x09}"
    by blast
  then show ?thesis
  proof cases
    case 1
    then show ?thesis by (intro esc [of "dquote"]) (simp_all add: escape_ascii_def simple_escapes_def dquote_def backslash_def)
  next
    case 2
    then show ?thesis by (intro esc [of "backslash"]) (simp_all add: escape_ascii_def simple_escapes_def dquote_def backslash_def)
  next
    case 3
    then show ?thesis by (intro esc [of "CHR ''b''"]) (simp_all add: escape_ascii_def simple_escapes_def dquote_def backslash_def)
  next
    case 4
    then show ?thesis by (intro esc [of "CHR ''f''"]) (simp_all add: escape_ascii_def simple_escapes_def dquote_def backslash_def)
  next
    case 5
    then show ?thesis by (intro esc [of "CHR ''n''"]) (simp_all add: escape_ascii_def simple_escapes_def dquote_def backslash_def)
  next
    case 6
    then show ?thesis by (intro esc [of "CHR ''r''"]) (simp_all add: escape_ascii_def simple_escapes_def dquote_def backslash_def)
  next
    case 7
    then show ?thesis by (intro esc [of "CHR ''t''"]) (simp_all add: escape_ascii_def simple_escapes_def dquote_def backslash_def)
  next
    case 8
    then show ?thesis using u plain by (cases "of_char c < (32::nat) \<or> c \<in> set ''<>&''") (auto simp: escape_ascii_def)
  qed
qed

lemma unquote_escape_ascii:
  assumes "byte_in 0 127 c"
  shows "json_unquote (escape_ascii c @ r) = map_option (\<lambda>(t, z). (c # t, z)) (json_unquote r)"
proof -
  have n: "of_char c < (128::nat)" using assms by (simp add: byte_in_def)
  show ?thesis
  proof (cases c rule: escape_ascii_cases)
    case esc
    with unquote_simple show ?thesis by simp
  next
    case u
    with unquote_u [OF n, of r] show ?thesis by simp
  next
    case plain
    with unquote_plain [OF plain(2,4,3) utf8_len_one [OF assms]] show ?thesis by simp
  qed
qed

lemma utf8_valid_step:
  "s \<noteq> [] \<Longrightarrow> utf8_valid s \<Longrightarrow> \<exists>k. utf8_len s = Some k \<and> 1 \<le> k \<and> utf8_valid (drop k s)"
  using utf8_len_bounds [of s]
  by (fastforce simp: utf8_valid.simps [of s] max_def split: option.splits if_splits)

lemma unquote_separator:
  assumes "u = map char_of [0xE2, 0x80, 0xA8 :: nat] \<and> x = ''u2028'' \<or> u = map char_of [0xE2, 0x80, 0xA9 :: nat] \<and> x = ''u2029''"
  shows "json_unquote (backslash # x @ r) = map_option (\<lambda>(t, z). (u @ t, z)) (json_unquote r)"
  using assms
proof
  assume a: "u = map char_of [0xE2, 0x80, 0xA8 :: nat] \<and> x = ''u2028''"
  have "unicode_escape (''2028'' @ r) = Some (map char_of [0xE2, 0x80, 0xA8 :: nat], 4)"
    by (simp add: unicode_escape_def hex_val_def Let_def surrogate_def utf8_encode_def)
  with a show ?thesis by (subst json_unquote.simps) (simp add: backslash_def dquote_def)
next
  assume a: "u = map char_of [0xE2, 0x80, 0xA9 :: nat] \<and> x = ''u2029''"
  have "unicode_escape (''2029'' @ r) = Some (map char_of [0xE2, 0x80, 0xA9 :: nat], 4)"
    by (simp add: unicode_escape_def hex_val_def Let_def surrogate_def utf8_encode_def)
  with a show ?thesis by (subst json_unquote.simps) (simp add: backslash_def dquote_def)
qed

lemma unquote_multi:
  assumes "utf8_len s = Some k" and "s = c # t" and "\<not> byte_in 0 127 c"
  shows "json_unquote (take k s @ y) = map_option (\<lambda>(t, z). (take k s @ t, z)) (json_unquote y)"
proof -
  have k: "1 \<le> k" "k \<le> length s" using utf8_len_bounds [OF assms(1)] by simp_all
  then obtain u where u: "take k s = c # u" using assms(2) by (cases k) auto
  have c: "c \<noteq> dquote" "\<not> of_char c < (32::nat)" "c \<noteq> backslash"
    using assms(3) by (auto simp: byte_in_def dquote_def backslash_def)
  have "utf8_len (c # u @ y) = Some k" using utf8_len_take [OF assms(1), of y] u by simp
  note p = unquote_plain [OF c this]
  have len: "length (c # u) = k" using k u by (metis length_take min.absorb2)
  have "take k (c # u @ y) = c # u" "drop k (c # u @ y) = y"
    using len by (metis append_Cons append_eq_conv_conj)+
  with p show ?thesis by (simp only: u append_Cons)
qed

lemma unquote_escape: "utf8_valid s \<Longrightarrow> json_unquote (json_escape s @ dquote # r) = Some (s, r)"
proof (induction s rule: length_induct)
  case (1 s)
  show ?case
  proof (cases s)
    case Nil
    then show ?thesis by (simp add: json_escape.simps json_unquote.simps [of "dquote # r"])
  next
    case (Cons c t)
    with 1(2) obtain k where k: "utf8_len s = Some k" "1 \<le> k" "utf8_valid (drop k s)"
      using utf8_valid_step [of s] by auto
    have ih: "json_unquote (json_escape (drop k s) @ dquote # r) = Some (drop k s, r)"
      using 1(1) k Cons by simp
    show ?thesis
    proof (cases "byte_in 0 127 c")
      case True
      then have "k = 1" using k(1) Cons by (simp add: utf8_len_one)
      with True ih Cons show ?thesis
        by (simp add: json_escape.simps [of "c # t"] unquote_escape_ascii)
    next
      case False
      define u where "u = take k s"
      have s: "s = u @ drop k s" by (simp add: u_def)
      have esc: "json_escape s = (if u = map char_of [0xE2, 0x80, 0xA8 :: nat] then backslash # ''u2028''
          else if u = map char_of [0xE2, 0x80, 0xA9 :: nat] then backslash # ''u2029'' else u) @ json_escape (drop k s)"
        using False k Cons by (simp add: json_escape.simps [of "c # t"] u_def Let_def max_def)
      have "json_unquote ((if u = map char_of [0xE2, 0x80, 0xA8 :: nat] then backslash # ''u2028''
          else if u = map char_of [0xE2, 0x80, 0xA9 :: nat] then backslash # ''u2029'' else u) @ y) =
          map_option (\<lambda>(t, z). (u @ t, z)) (json_unquote y)" for y
        using unquote_separator [of u] unquote_multi [of s k c t y] k Cons False by (auto simp: u_def)
      with esc ih s show ?thesis by simp
    qed
  qed
qed

section \<open>Objects with string members\<close>

text \<open>\<^verbatim>\<open>json.Marshal\<close> of a struct: its members in the order of the fields.\<close>

definition json_object :: "(string \<times> string) list \<Rightarrow> string" where
  "json_object ms = ''{'' @ join_with '','' (map (\<lambda>(k, t). json_string k @ '':'' @ t) ms) @ ''}''"

lemma skip_ws_simps [simp]:
  "skip_ws (dquote # r) = dquote # r" "skip_ws (CHR '':'' # r) = CHR '':'' # r"
  "skip_ws (CHR '','' # r) = CHR '','' # r" "skip_ws (CHR ''}'' # r) = CHR ''}'' # r"
  "skip_ws (CHR ''{'' # r) = CHR ''{'' # r" "skip_ws [] = []"
  by (simp_all add: skip_ws_def dquote_def)

lemma json_value_string: "utf8_valid s \<Longrightarrow> json_value (json_string s @ r) = Some (JStr s, r)"
  by (simp add: json_string_def json_value.simps unquote_escape) (simp add: dquote_def)

lemma json_members_one:
  assumes "utf8_valid k"
  shows "json_members (json_string k @ CHR '':'' # t) =
    (case json_value t of
       None \<Rightarrow> None
     | Some (v, y) \<Rightarrow>
         (case skip_ws y of
            e # z \<Rightarrow>
              (if e = CHR ''}'' then Some ([(k, v)], z)
               else if e = CHR '','' \<and> length z < length (json_string k @ CHR '':'' # t)
               then map_option (\<lambda>(m, x). ((k, v) # m, x)) (json_members z)
               else None)
          | [] \<Rightarrow> None))"
  using assms unfolding json_string_def by (subst json_members.simps) (simp add: unquote_escape)

lemma json_members_strings:
  assumes "ms \<noteq> []" and "list_all (\<lambda>(k, v). utf8_valid k \<and> utf8_valid v) ms"
  shows "json_members (join_with '','' (map (\<lambda>(k, v). json_string k @ '':'' @ json_string v) ms) @ CHR ''}'' # r) =
    Some (map (\<lambda>(k, v). (k, JStr v)) ms, r)"
  using assms
proof (induction ms)
  case (Cons m ms)
  obtain k v where m: "m = (k, v)" by (cases m)
  with Cons.prems have ok: "utf8_valid k" "utf8_valid v" by simp_all
  show ?case
  proof (cases ms)
    case Nil
    with ok m show ?thesis by (simp add: json_members_one json_value_string)
  next
    case (Cons m' ms')
    have ih: "json_members (join_with '','' (map (\<lambda>(k, v). json_string k @ '':'' @ json_string v) ms) @ CHR ''}'' # r) =
        Some (map (\<lambda>(k, v). (k, JStr v)) ms, r)"
      using Cons.IH Cons.prems local.Cons by simp
    have "join_with '','' (map (\<lambda>(k, v). json_string k @ '':'' @ json_string v) (m # ms)) =
        json_string k @ CHR '':'' # json_string v @ CHR '','' #
          join_with '','' (map (\<lambda>(k, v). json_string k @ '':'' @ json_string v) ms)"
      using local.Cons m by simp
    with ih ok m show ?thesis by (simp add: json_members_one json_value_string)
  qed
qed simp

lemma json_parse_object:
  assumes "ms \<noteq> []" and "list_all (\<lambda>(k, v). utf8_valid k \<and> utf8_valid v) ms"
  shows "json_parse (json_object (map (\<lambda>(k, v). (k, json_string v)) ms)) = Some (JObj (map (\<lambda>(k, v). (k, JStr v)) ms))"
proof -
  let ?t = "join_with '','' (map (\<lambda>(k, v). json_string k @ '':'' @ json_string v) ms) @ ''}''"
  have t: "json_object (map (\<lambda>(k, v). (k, json_string v)) ms) = CHR ''{'' # ?t"
    by (simp add: json_object_def comp_def split_def)
  have m: "json_members ?t = Some (map (\<lambda>(k, v). (k, JStr v)) ms, [])"
    using json_members_strings [OF assms, of "[]"] by simp
  have "take 1 (skip_ws ?t) \<noteq> ''}''"
  proof -
    obtain k v ms' where "ms = (k, v) # ms'" using assms(1) by (cases ms) auto
    then obtain u where "?t = dquote # u" by (cases ms') (simp_all add: json_string_def)
    then have "take 1 (skip_ws ?t) = [dquote]" by simp
    then show ?thesis by (simp add: dquote_def)
  qed
  with m have "json_value (CHR ''{'' # ?t) = Some (JObj (map (\<lambda>(k, v). (k, JStr v)) ms), [])"
    by (subst json_value.simps) (simp add: dquote_def)
  with t show ?thesis by (simp add: json_parse_def)
qed

end
