(* ===== verification/Redis.thy ===== *)
theory Redis
  imports Store GoDecode
begin

text \<open>
  \<^verbatim>\<open>state/redis.go\<close>: the Redis backend.  The client library and the server are a parameter, the
  record \<^verbatim>\<open>redis\<close> of the commands the code sends, over a state that is the server with all its
  other clients: a command may see what others wrote since the last one.  What the lemmas
  need of the documented behaviour of Redis is stated as named predicates on the record.

  The lemmas: records survive their JSON encoding; an append that succeeds extends the chain
  by one linked entry, whatever other replicas do, unless its read of the last record failed; retries are bounded; and two usage records
  of the same instant, cost and model are one member of the sorted set.
\<close>

section \<open>The client\<close>

datatype tx_cmd = TxRPush string string | TxSet string string
datatype tx_result = TxDone int | TxFailed | TxError error

record 'r redis =
  rd_Ping :: "'r \<Rightarrow> error option \<times> 'r"
  rd_SetNX :: "string \<Rightarrow> string \<Rightarrow> duration \<Rightarrow> 'r \<Rightarrow> bool result \<times> 'r"
  rd_Get :: "string \<Rightarrow> 'r \<Rightarrow> string option result \<times> 'r"
  rd_Del :: "string \<Rightarrow> 'r \<Rightarrow> error option \<times> 'r"
  rd_Expire :: "string \<Rightarrow> duration \<Rightarrow> 'r \<Rightarrow> error option \<times> 'r"
  rd_LIndex :: "string \<Rightarrow> int \<Rightarrow> 'r \<Rightarrow> string result \<times> 'r"
  rd_LLen :: "string \<Rightarrow> 'r \<Rightarrow> int result \<times> 'r"
  rd_LRange :: "string \<Rightarrow> int \<Rightarrow> int \<Rightarrow> 'r \<Rightarrow> string list result \<times> 'r"
  rd_Watch :: "string list \<Rightarrow> 'r \<Rightarrow> error option \<times> 'r"
  rd_Exec :: "tx_cmd list \<Rightarrow> 'r \<Rightarrow> tx_result \<times> 'r"
  rd_HSet :: "string \<Rightarrow> string \<Rightarrow> string \<Rightarrow> 'r \<Rightarrow> error option \<times> 'r"
  rd_HSetNX :: "string \<Rightarrow> string \<Rightarrow> string \<Rightarrow> 'r \<Rightarrow> error option \<times> 'r"
  rd_HDel :: "string \<Rightarrow> string \<Rightarrow> 'r \<Rightarrow> error option \<times> 'r"
  rd_HGetAll :: "string \<Rightarrow> 'r \<Rightarrow> string dict result \<times> 'r"
  rd_ZAdd :: "string \<Rightarrow> f64 \<Rightarrow> string \<Rightarrow> 'r \<Rightarrow> error option \<times> 'r"
  rd_ZRemRangeByScore :: "string \<Rightarrow> string \<Rightarrow> string \<Rightarrow> 'r \<Rightarrow> error option \<times> 'r"
  rd_ZCount :: "string \<Rightarrow> string \<Rightarrow> string \<Rightarrow> 'r \<Rightarrow> int result \<times> 'r"
  rd_ZRangeByScore :: "string \<Rightarrow> string \<Rightarrow> string \<Rightarrow> 'r \<Rightarrow> string list result \<times> 'r"
  rd_Now :: "'r \<Rightarrow> time"

section \<open>Keys and records\<close>

definition keyAudit :: string where "keyAudit = ''sloppy:audit''"
definition keyCheckpoint :: string where "keyCheckpoint = ''sloppy:audit_checkpoint''"
definition keyReverts :: string where "keyReverts = ''sloppy:pending_reverts''"
definition appliedRetention :: duration where "appliedRetention = 30 * 24 * hour"
definition actionRetention :: duration where "actionRetention = 7 * 24 * hour"
definition usageRetention :: duration where "usageRetention = 48 * hour"

record auditRec =
  ar_TS :: string
  ar_Kind :: string
  ar_Detail :: string
  ar_PrevHash :: string
  ar_Hash :: string

definition zero_auditRec :: auditRec where
  "zero_auditRec = \<lparr>ar_TS = [], ar_Kind = [], ar_Detail = [], ar_PrevHash = [], ar_Hash = []\<rparr>"

definition marshal_auditRec :: "auditRec \<Rightarrow> string" where
  "marshal_auditRec a =
     json_object (map (\<lambda>(k, v). (k, json_string v))
       [(''ts'', ar_TS a), (''kind'', ar_Kind a), (''detail'', ar_Detail a), (''prev_hash'', ar_PrevHash a),
        (''hash'', ar_Hash a)])"

definition dec_auditRec :: "auditRec decoder" where
  "dec_auditRec =
     dec_struct
       [(''ts'', at_field ar_TS (\<lambda>v. ar_TS_update (\<lambda>_. v)) dec_string),
        (''kind'', at_field ar_Kind (\<lambda>v. ar_Kind_update (\<lambda>_. v)) dec_string),
        (''detail'', at_field ar_Detail (\<lambda>v. ar_Detail_update (\<lambda>_. v)) dec_string),
        (''prev_hash'', at_field ar_PrevHash (\<lambda>v. ar_PrevHash_update (\<lambda>_. v)) dec_string),
        (''hash'', at_field ar_Hash (\<lambda>v. ar_Hash_update (\<lambda>_. v)) dec_string)]"

definition unmarshal_auditRec :: "string \<Rightarrow> auditRec option" where
  "unmarshal_auditRec t = unmarshal_into dec_auditRec zero_auditRec t"

definition marshal_checkpoint :: "Checkpoint \<Rightarrow> string" where
  "marshal_checkpoint cp =
     json_object
       [(''count'', int_to_dec (cp_Count cp)), (''head_hash'', json_string (cp_HeadHash cp)),
        (''sig'', json_string (cp_Sig cp)), (''pub_key'', json_string (cp_PubKey cp))]"

definition dec_checkpoint :: "Checkpoint decoder" where
  "dec_checkpoint =
     dec_struct
       [(''count'', at_field cp_Count (\<lambda>v. cp_Count_update (\<lambda>_. v)) dec_int),
        (''head_hash'', at_field cp_HeadHash (\<lambda>v. cp_HeadHash_update (\<lambda>_. v)) dec_string),
        (''sig'', at_field cp_Sig (\<lambda>v. cp_Sig_update (\<lambda>_. v)) dec_string),
        (''pub_key'', at_field cp_PubKey (\<lambda>v. cp_PubKey_update (\<lambda>_. v)) dec_string)]"

record revertRec =
  rv_Kind :: string
  rv_Target :: string
  rv_Args :: string
  rv_DueAt :: string

definition zero_revertRec :: revertRec where
  "zero_revertRec = \<lparr>rv_Kind = [], rv_Target = [], rv_Args = [], rv_DueAt = []\<rparr>"

definition marshal_revertRec :: "revertRec \<Rightarrow> string" where
  "marshal_revertRec a =
     json_object (map (\<lambda>(k, v). (k, json_string v))
       [(''kind'', rv_Kind a), (''target'', rv_Target a), (''args'', rv_Args a), (''due_at'', rv_DueAt a)])"

definition dec_revertRec :: "revertRec decoder" where
  "dec_revertRec =
     dec_struct
       [(''kind'', at_field rv_Kind (\<lambda>v. rv_Kind_update (\<lambda>_. v)) dec_string),
        (''target'', at_field rv_Target (\<lambda>v. rv_Target_update (\<lambda>_. v)) dec_string),
        (''args'', at_field rv_Args (\<lambda>v. rv_Args_update (\<lambda>_. v)) dec_string),
        (''due_at'', at_field rv_DueAt (\<lambda>v. rv_DueAt_update (\<lambda>_. v)) dec_string)]"

definition unmarshal_revertRec :: "string \<Rightarrow> revertRec option" where
  "unmarshal_revertRec t = unmarshal_into dec_revertRec zero_revertRec t"

section \<open>Opening and the idempotency gate\<close>

record redisStore =
  rs_signer :: "Signer option"
  rs_require :: bool

definition OpenRedis :: "'r redis \<Rightarrow> StoreOption list \<Rightarrow> 'r \<Rightarrow> redisStore result \<times> 'r" where
  "OpenRedis rd opts r =
     (let cfg = applyStoreOptions opts
      in case rd_Ping rd r of
           (Some e, r1) \<Rightarrow> (Inl e, r1)
         | (None, r1) \<Rightarrow> (Inr \<lparr>rs_signer = cfg_checkpointSigner cfg, rs_require = cfg_requireCheckpoint cfg\<rparr>, r1))"

definition redis_ClaimIntent :: "'r redis \<Rightarrow> string \<Rightarrow> 'r \<Rightarrow> bool result \<times> 'r" where
  "redis_ClaimIntent rd i r = rd_SetNX rd (''sloppy:applied:'' @ i) ''1'' appliedRetention r"

definition redis_ReleaseIntent :: "'r redis \<Rightarrow> string \<Rightarrow> 'r \<Rightarrow> error option \<times> 'r" where
  "redis_ReleaseIntent rd i r = rd_Del rd (''sloppy:applied:'' @ i) r"

section \<open>The audit chain\<close>

datatype attempt = Appended AuditEntry | Conflict | AttemptError error

text \<open>The hash of the last record; any failure to read or decode it counts as an empty chain.\<close>

definition prev_hash :: "string result \<Rightarrow> string" where
  "prev_hash x =
     (case x of
        Inl _ \<Rightarrow> []
      | Inr lst \<Rightarrow>
          (if lst = [] then []
           else case unmarshal_auditRec lst of None \<Rightarrow> [] | Some lr \<Rightarrow> ar_Hash lr))"

definition append_rec :: "time \<Rightarrow> string \<Rightarrow> string \<Rightarrow> string \<Rightarrow> auditRec" where
  "append_rec now kind detail prev =
     (let ts = format_rfc3339 now
      in \<lparr>ar_TS = ts, ar_Kind = kind, ar_Detail = detail, ar_PrevHash = prev, ar_Hash = ChainHash ts kind detail prev\<rparr>)"

definition append_cmds :: "Signer option \<Rightarrow> int \<Rightarrow> auditRec \<Rightarrow> tx_cmd list" where
  "append_cmds signer curLen a =
     TxRPush keyAudit (marshal_auditRec a) #
     (case signer of
        None \<Rightarrow> []
      | Some sg \<Rightarrow> [TxSet keyCheckpoint (marshal_checkpoint (MakeCheckpoint sg (wrap64 (curLen + 1)) (ar_Hash a)))])"

definition rec_entry :: "int \<Rightarrow> auditRec \<Rightarrow> AuditEntry" where
  "rec_entry seq a =
     \<lparr>ae_Seq = seq, ae_TS = parse_or_zero (ar_TS a), ae_Kind = ar_Kind a, ae_Detail = ar_Detail a,
      ae_PrevHash = ar_PrevHash a, ae_Hash = ar_Hash a\<rparr>"

definition append_attempt :: "'r redis \<Rightarrow> Signer option \<Rightarrow> string \<Rightarrow> string \<Rightarrow> 'r \<Rightarrow> attempt \<times> 'r" where
  "append_attempt rd signer kind detail r =
     (case rd_Watch rd [keyAudit, keyCheckpoint] r of
        (Some e, r1) \<Rightarrow> (AttemptError e, r1)
      | (None, r1) \<Rightarrow>
          (case rd_LIndex rd keyAudit (- 1) r1 of
             (x, r2) \<Rightarrow>
               (case rd_LLen rd keyAudit r2 of
                  (Inl e, r3) \<Rightarrow> (AttemptError e, r3)
                | (Inr curLen, r3) \<Rightarrow>
                    (let a = append_rec (rd_Now rd r3) kind detail (prev_hash x)
                     in case rd_Exec rd (append_cmds signer curLen a) r3 of
                          (TxError e, r4) \<Rightarrow> (AttemptError e, r4)
                        | (TxFailed, r4) \<Rightarrow> (Conflict, r4)
                        | (TxDone n, r4) \<Rightarrow> (Appended (rec_entry n a), r4)))))"

definition maxRetries :: nat where "maxRetries = 16"

fun append_loop :: "nat \<Rightarrow> 'r redis \<Rightarrow> Signer option \<Rightarrow> string \<Rightarrow> string \<Rightarrow> 'r \<Rightarrow> AuditEntry result \<times> 'r" where
  "append_loop 0 rd signer kind detail r =
     (Inl (''redis: audit append contention after '' @ int_to_dec (int maxRetries) @ '' retries''), r)"
| "append_loop (Suc n) rd signer kind detail r =
     (case append_attempt rd signer kind detail r of
        (Appended e, r') \<Rightarrow> (Inr e, r')
      | (Conflict, r') \<Rightarrow> append_loop n rd signer kind detail r'
      | (AttemptError e, r') \<Rightarrow> (Inl e, r'))"

definition redis_AppendAudit :: "'r redis \<Rightarrow> Signer option \<Rightarrow> string \<Rightarrow> string \<Rightarrow> 'r \<Rightarrow> AuditEntry result \<times> 'r" where
  "redis_AppendAudit rd signer kind detail r = append_loop maxRetries rd signer kind detail r"

definition json_failure :: error where "json_failure = ''json: cannot decode''"

definition redis_entries :: "string list \<Rightarrow> AuditEntry list option" where
  "redis_entries vals =
     those (map (\<lambda>(i, v). map_option (rec_entry (int i + 1)) (unmarshal_auditRec v)) (enumerate 0 vals))"

definition redis_Audit :: "'r redis \<Rightarrow> 'r \<Rightarrow> AuditEntry list result \<times> 'r" where
  "redis_Audit rd r =
     (case rd_LRange rd keyAudit 0 (- 1) r of
        (Inl e, r1) \<Rightarrow> (Inl e, r1)
      | (Inr vals, r1) \<Rightarrow> (case redis_entries vals of None \<Rightarrow> (Inl json_failure, r1) | Some es \<Rightarrow> (Inr es, r1)))"

definition redis_loadCheckpoint :: "'r redis \<Rightarrow> 'r \<Rightarrow> (Checkpoint \<times> bool) result \<times> 'r" where
  "redis_loadCheckpoint rd r =
     (case rd_Get rd keyCheckpoint r of
        (Inr None, r1) \<Rightarrow> (Inr (zero_checkpoint, False), r1)
      | (Inl e, r1) \<Rightarrow> (Inl e, r1)
      | (Inr (Some v), r1) \<Rightarrow>
          (case unmarshal_into dec_checkpoint zero_checkpoint v of
             None \<Rightarrow> (Inl json_failure, r1)
           | Some cp \<Rightarrow> (Inr (cp, True), r1)))"

definition redis_VerifyAudit :: "ed25519 \<Rightarrow> 'r redis \<Rightarrow> redisStore \<Rightarrow> 'r \<Rightarrow> bool \<times> 'r" where
  "redis_VerifyAudit ed rd s r =
     (case redis_Audit rd r of
        (Inl e, r1) \<Rightarrow> (False, r1)
      | (Inr es, r1) \<Rightarrow>
          (case redis_loadCheckpoint rd r1 of
             (Inl e, r2) \<Rightarrow> (False, r2)
           | (Inr (cp, found), r2) \<Rightarrow>
               (VerifyAgainstCheckpoint ed es cp found (rs_signer s \<noteq> None \<or> rs_require s), r2)))"

section \<open>Pending reverts\<close>

definition redis_ScheduleRevert :: "'r redis \<Rightarrow> PendingRevert \<Rightarrow> 'r \<Rightarrow> error option \<times> 'r" where
  "redis_ScheduleRevert rd p r =
     rd_HSetNX rd keyReverts (pr_IntentID p)
       (marshal_revertRec \<lparr>rv_Kind = pr_Kind p, rv_Target = pr_Target p, rv_Args = pr_ArgsJSON p,
                           rv_DueAt = format_rfc3339 (pr_DueAt p)\<rparr>) r"

definition rec_revert :: "string \<Rightarrow> revertRec \<Rightarrow> time \<Rightarrow> PendingRevert" where
  "rec_revert i a due =
     \<lparr>pr_IntentID = i, pr_Kind = rv_Kind a, pr_Target = rv_Target a, pr_ArgsJSON = rv_Args a, pr_DueAt = due\<rparr>"

text \<open>Records that do not decode are skipped.\<close>

definition due_of :: "time \<Rightarrow> string dict \<Rightarrow> PendingRevert list" where
  "due_of now m =
     List.map_filter
       (\<lambda>(i, v). case unmarshal_revertRec v of
          None \<Rightarrow> None
        | Some a \<Rightarrow> (let due = parse_or_zero (rv_DueAt a) in if due > now then None else Some (rec_revert i a due))) m"

definition redis_DueReverts :: "'r redis \<Rightarrow> time \<Rightarrow> 'r \<Rightarrow> PendingRevert list result \<times> 'r" where
  "redis_DueReverts rd now r =
     (case rd_HGetAll rd keyReverts r of (Inl e, r1) \<Rightarrow> (Inl e, r1) | (Inr m, r1) \<Rightarrow> (Inr (due_of now m), r1))"

definition redis_MarkReverted :: "'r redis \<Rightarrow> string \<Rightarrow> 'r \<Rightarrow> error option \<times> 'r" where
  "redis_MarkReverted rd i r = rd_HDel rd keyReverts i r"

section \<open>Firings\<close>

definition unixNano :: "time \<Rightarrow> int" where "unixNano t = wrap64 t"

text \<open>Drop what is older than the retention, ignoring failure, then renew the key's life.\<close>

definition prune_key :: "'r redis \<Rightarrow> string \<Rightarrow> duration \<Rightarrow> time \<Rightarrow> 'r \<Rightarrow> error option \<times> 'r" where
  "prune_key rd key keep t r =
     (let cutoff = unixNano (time_add t (- keep));
          (_, r1) = rd_ZRemRangeByScore rd key ''-inf'' (''('' @ int_to_dec cutoff) r
      in rd_Expire rd key keep r1)"

definition redis_RecordAction :: "'r redis \<Rightarrow> string \<Rightarrow> time \<Rightarrow> 'r \<Rightarrow> error option \<times> 'r" where
  "redis_RecordAction rd ruleSHA t r =
     (let key = ''sloppy:ract:'' @ ruleSHA; ns = unixNano t
      in case rd_ZAdd rd key (f64_of_int ns) (int_to_dec ns) r of
           (Some e, r1) \<Rightarrow> (Some e, r1)
         | (None, r1) \<Rightarrow> prune_key rd key actionRetention t r1)"

definition redis_CountActions :: "'r redis \<Rightarrow> string \<Rightarrow> time \<Rightarrow> 'r \<Rightarrow> int result \<times> 'r" where
  "redis_CountActions rd ruleSHA since r =
     rd_ZCount rd (''sloppy:ract:'' @ ruleSHA) (int_to_dec (unixNano since)) ''+inf'' r"

section \<open>Outstanding actions\<close>

definition redis_RecordOutstanding :: "'r redis \<Rightarrow> string \<Rightarrow> PendingRevert \<Rightarrow> 'r \<Rightarrow> error option \<times> 'r" where
  "redis_RecordOutstanding rd key p r =
     rd_HSet rd (''sloppy:onclear:'' @ key) (pr_IntentID p)
       (marshal_revertRec \<lparr>rv_Kind = pr_Kind p, rv_Target = pr_Target p, rv_Args = pr_ArgsJSON p, rv_DueAt = []\<rparr>) r"

definition outstanding_of :: "string dict \<Rightarrow> PendingRevert list" where
  "outstanding_of m =
     List.map_filter
       (\<lambda>(i, v). case unmarshal_revertRec v of None \<Rightarrow> None | Some a \<Rightarrow> Some (rec_revert i a zero_time)) m"

definition redis_Outstanding :: "'r redis \<Rightarrow> string \<Rightarrow> 'r \<Rightarrow> (PendingRevert list \<times> error option) \<times> 'r" where
  "redis_Outstanding rd key r =
     (case rd_HGetAll rd (''sloppy:onclear:'' @ key) r of
        (Inl e, r1) \<Rightarrow> (([], Some e), r1)
      | (Inr m, r1) \<Rightarrow> ((outstanding_of m, None), r1))"

definition redis_ClearOutstanding :: "'r redis \<Rightarrow> string \<Rightarrow> 'r \<Rightarrow> error option \<times> 'r" where
  "redis_ClearOutstanding rd key r = rd_Del rd (''sloppy:onclear:'' @ key) r"

section \<open>Usage\<close>

definition usage_member :: "int \<Rightarrow> f64 \<Rightarrow> string \<Rightarrow> string" where
  "usage_member ns cost model = int_to_dec ns @ '':'' @ fmt_g cost @ '':'' @ model"

definition redis_RecordUsage :: "'r redis \<Rightarrow> string \<Rightarrow> string \<Rightarrow> f64 \<Rightarrow> time \<Rightarrow> 'r \<Rightarrow> error option \<times> 'r" where
  "redis_RecordUsage rd tenant model cost t r =
     (let key = ''sloppy:usage:'' @ tenant; ns = unixNano t
      in case rd_ZAdd rd key (f64_of_int ns) (usage_member ns cost model) r of
           (Some e, r1) \<Rightarrow> (Some e, r1)
         | (None, r1) \<Rightarrow> prune_key rd key usageRetention t r1)"

text \<open>
  \<^verbatim>\<open>strconv.ParseFloat\<close> with the error dropped, on the texts \<^verbatim>\<open>%g\<close> writes: a text that is no number
  counts 0, one out of range is infinite.
\<close>

definition parse_float :: "string \<Rightarrow> f64" where
  "parse_float s =
     (if s = ''+Inf'' then F64Inf False else if s = ''-Inf'' then F64Inf True else if s = ''NaN'' then F64NaN
      else case json_number s of
        Some (l, []) \<Rightarrow> (case number_value l of Some x \<Rightarrow> x | None \<Rightarrow> F64Inf (take 1 l = ''-''))
      | _ \<Rightarrow> F64 0)"

text \<open>The second of at most three parts between colons.\<close>

definition member_cost :: "string \<Rightarrow> f64 option" where
  "member_cost m =
     (case str_cut m (CHR '':'') of
        None \<Rightarrow> None
      | Some (_, r) \<Rightarrow> Some (parse_float (case str_cut r (CHR '':'') of None \<Rightarrow> r | Some (c, _) \<Rightarrow> c)))"

definition members_cost :: "string list \<Rightarrow> f64" where
  "members_cost ms = fold (\<lambda>m acc. case member_cost m of None \<Rightarrow> acc | Some c \<Rightarrow> f64_add acc c) ms (F64 0)"

definition redis_SpendSince :: "'r redis \<Rightarrow> string \<Rightarrow> time \<Rightarrow> 'r \<Rightarrow> f64 result \<times> 'r" where
  "redis_SpendSince rd tenant since r =
     (case rd_ZRangeByScore rd (''sloppy:usage:'' @ tenant) (int_to_dec (unixNano since)) ''+inf'' r of
        (Inl e, r1) \<Rightarrow> (Inl e, r1)
      | (Inr ms, r1) \<Rightarrow> (Inr (members_cost ms), r1))"

definition redis_PruneUsage :: "'r redis \<Rightarrow> time \<Rightarrow> 'r \<Rightarrow> error option \<times> 'r" where
  "redis_PruneUsage rd before r = (None, r)"

definition redis_ops :: "ed25519 \<Rightarrow> 'r redis \<Rightarrow> redisStore \<Rightarrow> 'r store_ops" where
  "redis_ops ed rd s =
     \<lparr>ClaimIntent = redis_ClaimIntent rd, ReleaseIntent = redis_ReleaseIntent rd,
      AppendAudit = redis_AppendAudit rd (rs_signer s), Audit_entries = redis_Audit rd,
      VerifyAudit = redis_VerifyAudit ed rd s, ScheduleRevert = redis_ScheduleRevert rd,
      DueReverts = redis_DueReverts rd, MarkReverted = redis_MarkReverted rd,
      RecordAction = redis_RecordAction rd, CountActions = redis_CountActions rd,
      RecordOutstanding = redis_RecordOutstanding rd, Outstanding = redis_Outstanding rd,
      ClearOutstanding = redis_ClearOutstanding rd, RecordUsage = redis_RecordUsage rd,
      SpendSince = redis_SpendSince rd, PruneUsage = redis_PruneUsage rd\<rparr>"

section \<open>Records survive encoding\<close>

lemma byte_in_hex [simp]: "c \<in> hex_chars \<Longrightarrow> byte_in 0 127 c"
  by (auto simp: hex_chars_def byte_in_def)

lemma utf8_valid_hex [simp]: "utf8_valid (hex_encode s)"
  using set_hex_encode [of s] by (intro utf8_valid_ascii) (auto simp: list_all_iff)

lemma utf8_valid_ChainHash [simp]: "utf8_valid (ChainHash ts k d p)"
  by (simp add: ChainHash_def)

lemma time_char_byte: "time_char c \<Longrightarrow> byte_in 0 127 c"
  using of_nat_of_char [of c, where 'a = int] by (auto simp: time_char_def is_digit_def byte_in_def)

lemma utf8_valid_time [simp]: "utf8_valid (format_rfc3339 t)"
  using format_rfc3339_chars by (intro utf8_valid_ascii) (simp add: list_all_iff time_char_byte)

definition rec_valid :: "auditRec \<Rightarrow> bool" where
  "rec_valid a \<longleftrightarrow> utf8_valid (ar_TS a) \<and> utf8_valid (ar_Kind a) \<and> utf8_valid (ar_Detail a) \<and> utf8_valid (ar_PrevHash a) \<and> utf8_valid (ar_Hash a)"

lemma auditRec_round_trip:
  assumes "rec_valid a"
  shows "unmarshal_auditRec (marshal_auditRec a) = Some a"
proof -
  let ?ms = "[(''ts'', ar_TS a), (''kind'', ar_Kind a), (''detail'', ar_Detail a), (''prev_hash'', ar_PrevHash a), (''hash'', ar_Hash a)]"
  have "list_all (\<lambda>(k, v). utf8_valid k \<and> utf8_valid v) ?ms"
    using assms by (simp add: rec_valid_def byte_in_def)
  from json_parse_object [OF _ this]
  have "json_parse (marshal_auditRec a) = Some (JObj (map (\<lambda>(k, v). (k, JStr v)) ?ms))"
    by (simp add: marshal_auditRec_def)
  then show ?thesis
    by (simp add: unmarshal_auditRec_def unmarshal_into_def dec_auditRec_def field_for_def at_field_def zero_auditRec_def)
qed

lemma revertRec_round_trip:
  assumes "utf8_valid (rv_Kind a)" "utf8_valid (rv_Target a)" "utf8_valid (rv_Args a)" "utf8_valid (rv_DueAt a)"
  shows "unmarshal_revertRec (marshal_revertRec a) = Some a"
proof -
  let ?ms = "[(''kind'', rv_Kind a), (''target'', rv_Target a), (''args'', rv_Args a), (''due_at'', rv_DueAt a)]"
  have "list_all (\<lambda>(k, v). utf8_valid k \<and> utf8_valid v) ?ms"
    using assms by (simp add: byte_in_def)
  from json_parse_object [OF _ this]
  have "json_parse (marshal_revertRec a) = Some (JObj (map (\<lambda>(k, v). (k, JStr v)) ?ms))"
    by (simp add: marshal_revertRec_def)
  then show ?thesis
    by (simp add: unmarshal_revertRec_def unmarshal_into_def dec_revertRec_def field_for_def at_field_def zero_revertRec_def)
qed

section \<open>Appending\<close>

fun pushed :: "tx_cmd list \<Rightarrow> string list" where
  "pushed [] = []"
| "pushed (TxRPush k v # cs) = (if k = keyAudit then v # pushed cs else pushed cs)"
| "pushed (TxSet k v # cs) = pushed cs"

text \<open>
  Documented behaviour of \<^verbatim>\<open>WATCH\<close>, \<^verbatim>\<open>MULTI\<close> and \<^verbatim>\<open>EXEC\<close>: a transaction that is executed finds the
  watched list as the reads since \<^verbatim>\<open>WATCH\<close> saw it, and applies its commands at once.
\<close>

definition transaction_law :: "'r redis \<Rightarrow> ('r \<Rightarrow> string list) \<Rightarrow> bool" where
  "transaction_law rd lst \<longleftrightarrow>
     (\<forall>r r1 x r2 n r3 cmds k r4.
        rd_Watch rd [keyAudit, keyCheckpoint] r = (None, r1) \<longrightarrow> rd_LIndex rd keyAudit (- 1) r1 = (x, r2) \<longrightarrow>
        rd_LLen rd keyAudit r2 = (Inr n, r3) \<longrightarrow> rd_Exec rd cmds r3 = (TxDone k, r4) \<longrightarrow>
          n = int (length (lst r3)) \<and> (\<forall>v. x = Inr v \<longrightarrow> lst r3 \<noteq> [] \<and> v = last (lst r3))
          \<and> lst r4 = lst r3 @ pushed cmds \<and> k = int (length (lst r4)))"

lemma those_snoc: "those (xs @ [x]) = (case (those xs, x) of (Some ys, Some y) \<Rightarrow> Some (ys @ [y]) | _ \<Rightarrow> None)"
  by (induction xs) (auto split: option.splits)

lemma redis_entries_snoc:
  "redis_entries (vals @ [v]) =
     (case (redis_entries vals, unmarshal_auditRec v) of
        (Some es, Some a) \<Rightarrow> Some (es @ [rec_entry (int (length vals) + 1) a])
      | _ \<Rightarrow> None)"
  by (simp add: redis_entries_def enumerate_append_eq those_snoc split: option.splits)

lemma redis_entries_last:
  assumes "redis_entries vals = Some es" and "vals \<noteq> []"
  shows "\<exists>a. unmarshal_auditRec (last vals) = Some a \<and> head_hash es = ar_Hash a"
proof -
  obtain ws w where "vals = ws @ [w]" using assms(2) by (cases vals rule: rev_cases) auto
  with assms show ?thesis by (auto simp: redis_entries_snoc rec_entry_def split: option.splits)
qed

lemma unmarshal_Nil [simp]: "unmarshal_auditRec [] = None"
  by (simp add: unmarshal_auditRec_def unmarshal_into_def json_parse_def json_value.simps skip_ws_def)

text \<open>The hash the new record links to: the head of the chain, or none when the read failed.\<close>

lemma prev_hash_head:
  assumes "redis_entries vals = Some es" and "\<forall>v. x = Inr v \<longrightarrow> vals \<noteq> [] \<and> v = last vals"
  shows "prev_hash x = (case x of Inl _ \<Rightarrow> [] | Inr _ \<Rightarrow> head_hash es)"
proof (cases x)
  case (Inr v)
  with assms(2) have v: "vals \<noteq> []" "v = last vals" by simp_all
  from redis_entries_last [OF assms(1) v(1)] v(2) Inr show ?thesis by (auto simp: prev_hash_def)
qed (simp add: prev_hash_def)

text \<open>One attempt that is executed appends the record it built on what it read.\<close>

lemma append_attempt_done:
  assumes "append_attempt rd signer kind detail r = (Appended e, r')"
  obtains r1 x r2 n r3 a where "rd_Watch rd [keyAudit, keyCheckpoint] r = (None, r1)"
    "rd_LIndex rd keyAudit (- 1) r1 = (x, r2)" "rd_LLen rd keyAudit r2 = (Inr n, r3)"
    "a = append_rec (rd_Now rd r3) kind detail (prev_hash x)"
    "\<exists>k. rd_Exec rd (append_cmds signer n a) r3 = (TxDone k, r') \<and> e = rec_entry k a"
  using assms
  by (auto simp: append_attempt_def Let_def split: prod.splits option.splits sum.splits tx_result.splits)

text \<open>The server after a number of attempts, and what an attempt that did not conflict returns.\<close>

definition after_attempts :: "'r redis \<Rightarrow> Signer option \<Rightarrow> string \<Rightarrow> string \<Rightarrow> nat \<Rightarrow> 'r \<Rightarrow> 'r" where
  "after_attempts rd sg kind detail n = (\<lambda>r. snd (append_attempt rd sg kind detail r)) ^^ n"

fun attempt_result :: "attempt \<times> 'r \<Rightarrow> AuditEntry result \<times> 'r" where
  "attempt_result (Appended e, r) = (Inr e, r)"
| "attempt_result (AttemptError e, r) = (Inl e, r)"
| "attempt_result (Conflict, r) = (Inl [], r)"

lemma find_map_Suc: "find P (map Suc xs) = map_option Suc (find (\<lambda>k. P (Suc k)) xs)"
  by (induction xs) auto

lemma append_loop_first:
  "append_loop n rd sg kind detail r =
     (case find (\<lambda>k. fst (append_attempt rd sg kind detail (after_attempts rd sg kind detail k r)) \<noteq> Conflict) [0..<n] of
        None \<Rightarrow> append_loop 0 rd sg kind detail (after_attempts rd sg kind detail n r)
      | Some k \<Rightarrow> attempt_result (append_attempt rd sg kind detail (after_attempts rd sg kind detail k r)))"
proof (induction n arbitrary: r)
  case (Suc n)
  obtain a r' where a: "append_attempt rd sg kind detail r = (a, r')" by fastforce
  then have shift: "after_attempts rd sg kind detail (Suc k) r = after_attempts rd sg kind detail k r'" for k
    by (simp only: after_attempts_def funpow_Suc_right o_def snd_conv)
  have z: "after_attempts rd sg kind detail 0 r = r" by (simp add: after_attempts_def)
  have u: "[0..<Suc n] = 0 # map Suc [0..<n]" by (simp add: upt_conv_Cons map_Suc_upt del: upt_Suc)
  show ?case
  proof (cases a)
    case Conflict
    with a Suc.IH [of r'] show ?thesis unfolding u by (simp add: z find_map_Suc shift split: option.splits)
  qed (use a in \<open>simp_all add: u z del: upt_Suc\<close>)
qed (simp add: after_attempts_def)

lemma append_loop_done:
  assumes "append_loop n rd signer kind detail r = (Inr e, r')"
  shows "\<exists>k<n. append_attempt rd signer kind detail (after_attempts rd signer kind detail k r) = (Appended e, r')"
proof (cases "find (\<lambda>k. fst (append_attempt rd signer kind detail (after_attempts rd signer kind detail k r)) \<noteq> Conflict) [0..<n]")
  case None
  with assms show ?thesis using append_loop_first [of n rd signer kind detail r] by simp
next
  case (Some k)
  then have k: "k < n" by (auto simp: find_Some_iff)
  from Some assms have "attempt_result (append_attempt rd signer kind detail (after_attempts rd signer kind detail k r)) = (Inr e, r')"
    using append_loop_first [of n rd signer kind detail r] by simp
  with k show ?thesis
    by (cases "append_attempt rd signer kind detail (after_attempts rd signer kind detail k r)" rule: attempt_result.cases) auto
qed

lemma pushed_append [simp]: "pushed (append_cmds signer n a) = [marshal_auditRec a]"
  by (simp add: append_cmds_def split: option.splits)

lemma append_rec_valid:
  "utf8_valid kind \<Longrightarrow> utf8_valid detail \<Longrightarrow> utf8_valid prev \<Longrightarrow> rec_valid (append_rec now kind detail prev)"
  by (simp add: rec_valid_def append_rec_def Let_def)

lemma append_rec_entry:
  assumes "year_ok now"
  shows "rec_entry seq (append_rec now kind detail prev) =
    \<lparr>ae_Seq = seq, ae_TS = now, ae_Kind = kind, ae_Detail = detail, ae_PrevHash = prev,
     ae_Hash = ChainHash (format_rfc3339 now) kind detail prev\<rparr>"
  using assms by (simp add: rec_entry_def append_rec_def Let_def parse_or_zero_def parse_format_rfc3339)

text \<open>Every hash a verified chain has is hexadecimal, so the new record can carry it.\<close>

lemma ChainHash_nonempty: "ChainHash ts k d p \<noteq> []"
  using length_hex_encode [of "sha256 (chain_preimage ts k d p)"] by (auto simp: ChainHash_def simp del: length_hex_encode)

lemma head_hash_Nil: "VerifyChain es \<Longrightarrow> head_hash es = [] \<longleftrightarrow> es = []"
  by (cases es rule: rev_cases) (auto simp: VerifyChain_snoc ChainHash_nonempty)

lemma head_hash_valid: "VerifyChain es \<Longrightarrow> utf8_valid (head_hash es)"
  by (cases es rule: rev_cases) (auto simp: VerifyChain_snoc)

section \<open>Usage of one instant\<close>

text \<open>
  Documented behaviour of sorted sets: adding a member that is there changes its score only,
  the other two commands remove members at most.
\<close>

definition sorted_set_law :: "'r redis \<Rightarrow> ('r \<Rightarrow> string \<Rightarrow> string \<rightharpoonup> f64) \<Rightarrow> bool" where
  "sorted_set_law rd zs \<longleftrightarrow>
     (\<forall>k sc m r r'. rd_ZAdd rd k sc m r = (None, r') \<longrightarrow> zs r' k = (zs r k)(m \<mapsto> sc))
     \<and> (\<forall>k lo hi r. dom (zs (snd (rd_ZRemRangeByScore rd k lo hi r)) k) \<subseteq> dom (zs r k))
     \<and> (\<forall>k d r. dom (zs (snd (rd_Expire rd k d r)) k) \<subseteq> dom (zs r k))"

lemma prune_key_dom:
  assumes "sorted_set_law rd zs"
  shows "dom (zs (snd (prune_key rd k keep t r)) k) \<subseteq> dom (zs r k)"
proof -
  obtain e r1 where z: "rd_ZRemRangeByScore rd k ''-inf'' (''('' @ int_to_dec (unixNano (time_add t (- keep)))) r = (e, r1)"
    by fastforce
  have "dom (zs r1 k) \<subseteq> dom (zs r k)" using assms z unfolding sorted_set_law_def by (metis snd_conv)
  moreover have "dom (zs (snd (rd_Expire rd k keep r1)) k) \<subseteq> dom (zs r1 k)"
    using assms unfolding sorted_set_law_def by blast
  ultimately show ?thesis using z by (simp add: prune_key_def)
qed

lemma RecordUsage_dom:
  assumes "sorted_set_law rd zs" and "redis_RecordUsage rd tenant model cost t r = (None, r')"
  shows "dom (zs r' (''sloppy:usage:'' @ tenant)) \<subseteq>
    insert (usage_member (unixNano t) cost model) (dom (zs r (''sloppy:usage:'' @ tenant)))"
proof -
  let ?k = "''sloppy:usage:'' @ tenant" and ?m = "usage_member (unixNano t) cost model"
  from assms(2) obtain r1 where z: "rd_ZAdd rd ?k (f64_of_int (unixNano t)) ?m r = (None, r1)"
    and p: "prune_key rd ?k usageRetention t r1 = (None, r')"
    by (auto simp: redis_RecordUsage_def Let_def split: prod.splits option.splits)
  have "zs r1 ?k = (zs r ?k)(?m \<mapsto> f64_of_int (unixNano t))"
    using assms(1) z unfolding sorted_set_law_def by blast
  with prune_key_dom [OF assms(1), of ?k usageRetention t r1] p show ?thesis by auto
qed

section \<open>A server in memory\<close>

record memory =
  mm_strings :: "string dict"
  mm_lists :: "string list dict"
  mm_hashes :: "string dict dict"
  mm_zsets :: "f64 dict dict"

definition at_key :: "'v list dict \<Rightarrow> string \<Rightarrow> 'v list" where
  "at_key d k = (case map_of d k of None \<Rightarrow> [] | Some v \<Rightarrow> v)"

fun exec_one :: "tx_cmd \<Rightarrow> memory \<Rightarrow> memory" where
  "exec_one (TxRPush k v) m = m\<lparr>mm_lists := AList.update k (at_key (mm_lists m) k @ [v]) (mm_lists m)\<rparr>"
| "exec_one (TxSet k v) m = m\<lparr>mm_strings := AList.update k v (mm_strings m)\<rparr>"

definition demo_redis :: "memory redis" where
  "demo_redis =
     \<lparr>rd_Ping = Pair None,
      rd_SetNX = (\<lambda>k v d m. if map_of (mm_strings m) k \<noteq> None then (Inr False, m)
                            else (Inr True, m\<lparr>mm_strings := AList.update k v (mm_strings m)\<rparr>)),
      rd_Get = (\<lambda>k m. (Inr (map_of (mm_strings m) k), m)),
      rd_Del = (\<lambda>k m. (None, m\<lparr>mm_strings := AList.delete k (mm_strings m), mm_hashes := AList.delete k (mm_hashes m)\<rparr>)),
      rd_Expire = (\<lambda>k d m. (None, m)),
      rd_LIndex = (\<lambda>k i m. (let l = at_key (mm_lists m) k in if l = [] then Inl ''redis: nil'' else Inr (last l), m)),
      rd_LLen = (\<lambda>k m. (Inr (int (length (at_key (mm_lists m) k))), m)),
      rd_LRange = (\<lambda>k i j m. (Inr (at_key (mm_lists m) k), m)),
      rd_Watch = (\<lambda>ks m. (None, m)),
      rd_Exec = (\<lambda>cs m. (let m' = fold exec_one cs m in (TxDone (int (length (at_key (mm_lists m') keyAudit))), m'))),
      rd_HSet = (\<lambda>k f v m. (None, m\<lparr>mm_hashes := AList.update k (AList.update f v (at_key (mm_hashes m) k)) (mm_hashes m)\<rparr>)),
      rd_HSetNX = (\<lambda>k f v m. (None, if map_of (at_key (mm_hashes m) k) f \<noteq> None then m
                     else m\<lparr>mm_hashes := AList.update k (AList.update f v (at_key (mm_hashes m) k)) (mm_hashes m)\<rparr>)),
      rd_HDel = (\<lambda>k f m. (None, m\<lparr>mm_hashes := AList.update k (AList.delete f (at_key (mm_hashes m) k)) (mm_hashes m)\<rparr>)),
      rd_HGetAll = (\<lambda>k m. (Inr (at_key (mm_hashes m) k), m)),
      rd_ZAdd = (\<lambda>k sc x m. (None, m\<lparr>mm_zsets := AList.update k (AList.update x sc (at_key (mm_zsets m) k)) (mm_zsets m)\<rparr>)),
      rd_ZRemRangeByScore = (\<lambda>k lo hi m. (None, m)),
      rd_ZCount = (\<lambda>k lo hi m. (Inr (int (length (at_key (mm_zsets m) k))), m)),
      rd_ZRangeByScore = (\<lambda>k lo hi m. (Inr (map fst (at_key (mm_zsets m) k)), m)),
      rd_Now = (\<lambda>m. 0)\<rparr>"

definition demo_memory :: memory where
  "demo_memory = \<lparr>mm_strings = [], mm_lists = [], mm_hashes = [], mm_zsets = []\<rparr>"

lemma fold_exec_lists:
  "at_key (mm_lists (fold exec_one cs m)) keyAudit = at_key (mm_lists m) keyAudit @ pushed cs"
proof (induction cs arbitrary: m)
  case (Cons c cs)
  then show ?case by (cases c) (auto simp: at_key_def split: option.splits)
qed simp

lemma demo_redis_laws:
  "transaction_law demo_redis (\<lambda>m. at_key (mm_lists m) keyAudit)"
  "sorted_set_law demo_redis (\<lambda>m k. map_of (at_key (mm_zsets m) k))"
proof -
  show "transaction_law demo_redis (\<lambda>m. at_key (mm_lists m) keyAudit)"
    by (auto simp: transaction_law_def demo_redis_def Let_def fold_exec_lists split: if_splits)
  show "sorted_set_law demo_redis (\<lambda>m k. map_of (at_key (mm_zsets m) k))"
    by (auto simp: sorted_set_law_def demo_redis_def at_key_def update_conv' split: option.splits)
qed

section \<open>Properties\<close>

text \<open>What the transaction reads as the last record of the list, once it watches it.\<close>

definition last_read :: "'r redis \<Rightarrow> 'r \<Rightarrow> string result" where
  "last_read rd r = fst (rd_LIndex rd keyAudit (- 1) (snd (rd_Watch rd [keyAudit, keyCheckpoint] r)))"

text \<open>C13: An append to the Redis backend that succeeds adds one entry to the list as its last attempt
  found it, whatever other replicas append in between: when that list decodes to a chain that
  verifies, the list after it decodes to the same chain with the returned entry at its end, and
  it verifies exactly when the chain was empty or the attempt's read of the last record did not
  fail.  So concurrent appends never fork the chain and an ignored read error does.  Redis has
  its documented transaction semantics; the clock is in the years that four digits write, and
  kind and detail are valid UTF-8.
\<close>

theorem redis_append_extends_chain:
  assumes "transaction_law rd lst" and "\<And>r. year_ok (rd_Now rd r)"
    and "utf8_valid kind" and "utf8_valid detail"
    and "redis_AppendAudit rd signer kind detail r = (Inr e, r')"
  shows "\<exists>k<16. \<exists>vals v. append_attempt rd signer kind detail (after_attempts rd signer kind detail k r) = (Appended e, r')
    \<and> lst r' = vals @ [v] \<and>
    (\<forall>es. redis_entries vals = Some es \<longrightarrow> VerifyChain es \<longrightarrow>
          redis_entries (lst r') = Some (es @ [e])
          \<and> (VerifyChain (es @ [e]) \<longleftrightarrow> es = [] \<or> (\<exists>w. last_read rd (after_attempts rd signer kind detail k r) = Inr w)))"
proof -
  from append_loop_done [OF assms(5) [unfolded redis_AppendAudit_def]] obtain k where k: "k < 16"
    and att: "append_attempt rd signer kind detail (after_attempts rd signer kind detail k r) = (Appended e, r')"
    by (auto simp: maxRetries_def)
  then obtain r1 x r2 n r3 a i where c: "rd_Watch rd [keyAudit, keyCheckpoint] (after_attempts rd signer kind detail k r) = (None, r1)"
    "rd_LIndex rd keyAudit (- 1) r1 = (x, r2)" "rd_LLen rd keyAudit r2 = (Inr n, r3)"
    and a: "a = append_rec (rd_Now rd r3) kind detail (prev_hash x)"
    and ex: "rd_Exec rd (append_cmds signer n a) r3 = (TxDone i, r')" "e = rec_entry i a"
    using append_attempt_done [OF att] by metis
  from assms(1) c ex(1) have t: "\<forall>v. x = Inr v \<longrightarrow> lst r3 \<noteq> [] \<and> v = last (lst r3)"
      "lst r' = lst r3 @ [marshal_auditRec a]" "i = int (length (lst r'))"
    unfolding transaction_law_def by (metis pushed_append)+
  have x: "last_read rd (after_attempts rd signer kind detail k r) = x" by (simp add: last_read_def c)
  show ?thesis
  proof (intro exI [of _ k] exI [of _ "lst r3"] exI [of _ "marshal_auditRec a"] conjI allI impI)
    fix es assume es: "redis_entries (lst r3) = Some es" "VerifyChain es"
    note p = prev_hash_head [OF es(1) t(1)]
    have "utf8_valid (prev_hash x)" unfolding p by (simp add: head_hash_valid [OF es(2)] split: sum.split)
    from append_rec_valid [OF assms(3,4) this] a
    have u: "unmarshal_auditRec (marshal_auditRec a) = Some a" by (simp add: auditRec_round_trip)
    from u es(1) t(2,3) ex(2) show "redis_entries (lst r') = Some (es @ [e])" by (simp add: redis_entries_snoc add.commute)
    have l: "VerifyChain (es @ [e]) \<longleftrightarrow> prev_hash x = head_hash es"
      using es(2) ex(2) a append_rec_entry [OF assms(2)] by (auto simp: VerifyChain_snoc)
    have "head_hash es = [] \<longleftrightarrow> es = []" by (rule head_hash_Nil [OF es(2)])
    with l p x show "VerifyChain (es @ [e]) \<longleftrightarrow> es = [] \<or> (\<exists>w. last_read rd (after_attempts rd signer kind detail k r) = Inr w)"
      by (auto split: sum.splits)
  qed (use k att t in simp_all)
qed

text \<open>A server on which another replica appends its record while this one's first transaction runs.\<close>

definition rival_record :: auditRec where
  "rival_record = append_rec 0 ''applied'' ''other'' []"

definition rival_redis :: "memory redis" where
  "rival_redis = demo_redis\<lparr>rd_Exec := (\<lambda>cs m.
     if at_key (mm_lists m) keyAudit = [] then (TxFailed, exec_one (TxRPush keyAudit (marshal_auditRec rival_record)) m)
     else rd_Exec demo_redis cs m)\<rparr>"

lemma rival_law: "transaction_law rival_redis (\<lambda>m. at_key (mm_lists m) keyAudit)"
  by (auto simp: transaction_law_def rival_redis_def demo_redis_def Let_def fold_exec_lists split: if_splits)

lemma rival_read:
  "append_attempt rival_redis None kind detail m = (Appended e, m') \<Longrightarrow> \<exists>w. last_read rival_redis m = Inr w"
  by (auto simp: append_attempt_def last_read_def rival_redis_def demo_redis_def Let_def split: if_splits)

lemma rival_chain:
  "redis_entries [marshal_auditRec rival_record] = Some [rec_entry 1 rival_record]" "VerifyChain [rec_entry 1 rival_record]"
proof -
  have "rec_valid rival_record" unfolding rival_record_def by (rule append_rec_valid) (simp_all add: byte_in_def)
  then show "redis_entries [marshal_auditRec rival_record] = Some [rec_entry 1 rival_record]"
    by (simp add: redis_entries_def auditRec_round_trip)
  have "year_ok 0" by code_simp
  from append_rec_entry [OF this] show "VerifyChain [rec_entry 1 rival_record]"
    using VerifyChain_snoc [of "[]"] by (simp add: rival_record_def VerifyChain_def)
qed

lemma rival_append:
  "\<exists>e r' v. redis_AppendAudit rival_redis None kind detail demo_memory = (Inr e, r')
     \<and> at_key (mm_lists r') keyAudit = [marshal_auditRec rival_record, v]"
  by (simp add: redis_AppendAudit_def maxRetries_def append_attempt_def rival_redis_def demo_redis_def demo_memory_def at_key_def
      append_cmds_def numeral_eq_Suc Let_def)

theorem redis_append_extends_chain_witness:
  "\<exists>e1 e r'. redis_AppendAudit rival_redis None ''applied'' ''page'' demo_memory = (Inr e, r')
     \<and> redis_entries (at_key (mm_lists r') keyAudit) = Some [e1, e] \<and> VerifyChain [e1, e]"
proof -
  obtain e r' w where a: "redis_AppendAudit rival_redis None ''applied'' ''page'' demo_memory = (Inr e, r')"
    and l: "at_key (mm_lists r') keyAudit = [marshal_auditRec rival_record, w]"
    using rival_append by blast
  have v: "utf8_valid ''applied''" "utf8_valid ''page''" by (simp_all add: byte_in_def)
  have y: "\<And>r. year_ok (rd_Now rival_redis r)" by (simp add: rival_redis_def demo_redis_def) code_simp
  from redis_append_extends_chain [OF rival_law y v a] obtain k vals w' where
    att: "append_attempt rival_redis None ''applied'' ''page'' (after_attempts rival_redis None ''applied'' ''page'' k demo_memory) = (Appended e, r')"
    and s: "at_key (mm_lists r') keyAudit = vals @ [w']"
    and c: "\<And>es. redis_entries vals = Some es \<Longrightarrow> VerifyChain es \<Longrightarrow> redis_entries (at_key (mm_lists r') keyAudit) = Some (es @ [e])
      \<and> (VerifyChain (es @ [e]) \<longleftrightarrow>
           es = [] \<or> (\<exists>w. last_read rival_redis (after_attempts rival_redis None ''applied'' ''page'' k demo_memory) = Inr w))"
    by blast
  have "vals = [marshal_auditRec rival_record]" using l s by (cases vals) auto
  with rival_chain c rival_read [OF att] a show ?thesis by fastforce
qed

text \<open>C32: An append to the Redis backend always returns, after at most sixteen transactions: with the
  result of the first one that does not meet a conflict, or, when all sixteen do, with the
  contention error.\<close>

theorem redis_append_terminates:
  "redis_AppendAudit rd sg kind detail r =
     (case find (\<lambda>k. fst (append_attempt rd sg kind detail (after_attempts rd sg kind detail k r)) \<noteq> Conflict) [0..<16] of
        None \<Rightarrow> (Inl ''redis: audit append contention after 16 retries'', after_attempts rd sg kind detail 16 r)
      | Some k \<Rightarrow> attempt_result (append_attempt rd sg kind detail (after_attempts rd sg kind detail k r)))"
proof -
  have "int_to_dec (int maxRetries) = ''16''" by code_simp
  then show ?thesis unfolding redis_AppendAudit_def append_loop_first [of maxRetries]
    by (simp add: maxRetries_def del: upt_Suc split: option.split)
qed

text \<open>On the Redis backend two usage records of one tenant at the same instant with the same
  cost and model are one: together they add at most the one member that either of them adds,
  so the second charge is missing from every spend window.  An OTLP batch records all its
  data points with one time.
\<close>

theorem redis_same_instant_usage_merged:
  assumes "sorted_set_law rd zs"
    and "redis_RecordUsage rd tenant model cost t r = (None, r1)"
    and "redis_RecordUsage rd tenant model cost t r1 = (None, r2)"
  shows "dom (zs r2 (''sloppy:usage:'' @ tenant)) \<subseteq>
    insert (usage_member (unixNano t) cost model) (dom (zs r (''sloppy:usage:'' @ tenant)))"
  using RecordUsage_dom [OF assms(1,2)] RecordUsage_dom [OF assms(1,3)] by blast

theorem redis_same_instant_usage_merged_witness:
  "\<exists>r1 r2. redis_RecordUsage demo_redis ''acme'' ''gpt'' (F64 2) 0 demo_memory = (None, r1)
     \<and> redis_RecordUsage demo_redis ''acme'' ''gpt'' (F64 2) 0 r1 = (None, r2)
     \<and> dom (map_of (at_key (mm_zsets r2) ''sloppy:usage:acme'')) \<subseteq> {usage_member 0 (F64 2) ''gpt''}"
proof -
  obtain r1 where a: "redis_RecordUsage demo_redis ''acme'' ''gpt'' (F64 2) 0 demo_memory = (None, r1)"
    by (simp add: redis_RecordUsage_def demo_redis_def prune_key_def Let_def)
  obtain r2 where b: "redis_RecordUsage demo_redis ''acme'' ''gpt'' (F64 2) 0 r1 = (None, r2)"
    by (simp add: redis_RecordUsage_def demo_redis_def prune_key_def Let_def)
  from redis_same_instant_usage_merged [OF demo_redis_laws(2) a b] a b show ?thesis
    by (auto simp: demo_memory_def at_key_def unixNano_def wrap64_def)
qed

end
