(* ===== verification/Config.thy ===== *)
theory Config
  imports Core
begin

text \<open>
  Package \<^verbatim>\<open>config\<close>: the file \<^verbatim>\<open>sloppy.yaml\<close>, its defaults, its validation, and the merge of defaults,
  file, environment and flags into the effective configuration with the provenance of each
  key.  The YAML decoder is a parameter.  Maps whose iteration order the code does not fix
  are association lists in one such order.

  The lemmas: which files are valid once defaulted; the precedence of the layers for every
  tracked key and what the recorded source says; a file with an unknown platform or with a
  credential in a field of a platform is rejected, and no other field is looked at.
\<close>

section \<open>The file\<close>

record ServerConfig =
  srv_Addr :: string
  srv_RevertInterval :: string

record StoreConfig =
  sto_Kind :: string
  sto_Path :: string
  sto_RedisAddr :: string

record FailModeConfig =
  fmc_Default :: string
  fmc_Notify :: string

record EngineConfig =
  ecf_SigningKey :: string
  ecf_LogFormat :: string
  ecf_Pricebook :: string
  ecf_FailMode :: FailModeConfig

record AuthConfig =
  auc_Enabled :: bool
  auc_KeysEnv :: string

record Platform =
  plt_Enabled :: bool
  plt_Experimental :: bool
  plt_URL :: string
  plt_BaseURL :: string
  plt_Repo :: string
  plt_Channel :: string
  plt_TokenEnv :: string

record RecipeConfig =
  rcc_Enabled :: bool
  rcc_Params :: args

record File =
  f_Version :: int
  f_Server :: ServerConfig
  f_Store :: StoreConfig
  f_Engine :: EngineConfig
  f_Auth :: AuthConfig
  f_Rules :: "string list"
  f_Platforms :: "Platform dict option"
  f_Recipes :: "RecipeConfig dict option"

definition zero_file :: File where
  "zero_file =
     \<lparr>f_Version = 0, f_Server = \<lparr>srv_Addr = [], srv_RevertInterval = []\<rparr>,
      f_Store = \<lparr>sto_Kind = [], sto_Path = [], sto_RedisAddr = []\<rparr>,
      f_Engine = \<lparr>ecf_SigningKey = [], ecf_LogFormat = [], ecf_Pricebook = [],
                  ecf_FailMode = \<lparr>fmc_Default = [], fmc_Notify = []\<rparr>\<rparr>,
      f_Auth = \<lparr>auc_Enabled = False, auc_KeysEnv = []\<rparr>, f_Rules = [], f_Platforms = None, f_Recipes = None\<rparr>"

definition zero_platform :: Platform where
  "zero_platform =
     \<lparr>plt_Enabled = False, plt_Experimental = False, plt_URL = [], plt_BaseURL = [], plt_Repo = [], plt_Channel = [],
      plt_TokenEnv = []\<rparr>"

text \<open>A string field that is empty takes its default.\<close>

definition dflt :: "string \<Rightarrow> string \<Rightarrow> string" where
  "dflt d s = (if s = [] then d else s)"

definition applyDefaults :: "File \<Rightarrow> File" where
  "applyDefaults f =
     f\<lparr>f_Version := if f_Version f = 0 then 1 else f_Version f,
       f_Server := \<lparr>srv_Addr = dflt ''127.0.0.1:8723'' (srv_Addr (f_Server f)),
                    srv_RevertInterval = dflt ''30s'' (srv_RevertInterval (f_Server f))\<rparr>,
       f_Store := (f_Store f)\<lparr>sto_Kind := dflt ''sqlite'' (sto_Kind (f_Store f)),
                              sto_Path := dflt ''sloppy.db'' (sto_Path (f_Store f))\<rparr>,
       f_Engine := (f_Engine f)\<lparr>ecf_SigningKey := dflt ''sloppy.key'' (ecf_SigningKey (f_Engine f)),
                                ecf_LogFormat := dflt ''text'' (ecf_LogFormat (f_Engine f)),
                                ecf_FailMode := \<lparr>fmc_Default = dflt ''closed'' (fmc_Default (ecf_FailMode (f_Engine f))),
                                                 fmc_Notify = dflt ''open'' (fmc_Notify (ecf_FailMode (f_Engine f)))\<rparr>\<rparr>,
       f_Auth := (f_Auth f)\<lparr>auc_KeysEnv := dflt ''SLOPPY_API_KEYS'' (auc_KeysEnv (f_Auth f))\<rparr>,
       f_Rules := if f_Rules f = [] then [''rules''] else f_Rules f\<rparr>"

definition Defaults :: File where
  "Defaults = applyDefaults zero_file"

datatype read_result = Contents bytes | NotExist | ReadError error
datatype yaml_result = Decoded File | EndOfInput | BadYaml error

text \<open>An empty document ends the input at once and leaves the zero value.\<close>

definition LoadFile :: "(bytes \<Rightarrow> yaml_result) \<Rightarrow> (string \<Rightarrow> read_result) \<Rightarrow> string \<Rightarrow> (File \<times> bool) result" where
  "LoadFile yaml readFile path =
     (case readFile path of
        NotExist \<Rightarrow> Inr (Defaults, False)
      | ReadError e \<Rightarrow> Inl e
      | Contents b \<Rightarrow>
          (case yaml b of
             BadYaml e \<Rightarrow> Inl (''config: '' @ path @ '': '' @ e)
           | EndOfInput \<Rightarrow> Inr (applyDefaults zero_file, True)
           | Decoded f \<Rightarrow> Inr (applyDefaults f, True)))"

section \<open>Effective configuration\<close>

datatype Source = SourceDefault | SourceFile | SourceEnv | SourceFlag

record FlagOverrides =
  fo_Addr :: "string option"
  fo_Store :: "string option"
  fo_DBPath :: "string option"
  fo_RedisAddr :: "string option"
  fo_Rules :: "string option"
  fo_SigningKey :: "string option"
  fo_LogFormat :: "string option"
  fo_Pricebook :: "string option"
  fo_RevertInterval :: "string option"
  fo_Auth :: "bool option"
  fo_FailClosed :: "bool option"

record Effective =
  eff_File :: File
  eff_prov :: "Source dict"

definition Effective_Source :: "Effective \<Rightarrow> string \<Rightarrow> Source option" where
  "Effective_Source e key = map_of (eff_prov e) key"

definition Effective_Keys :: "Effective \<Rightarrow> string list" where
  "Effective_Keys e = sort (map fst (eff_prov e))"

definition RevertInterval :: "Effective \<Rightarrow> duration option" where
  "RevertInterval e = parse_duration (srv_RevertInterval (f_Server (eff_File e)))"

definition tracked_keys :: "string list" where
  "tracked_keys =
     [''server.addr'', ''server.revert_interval'', ''store.kind'', ''store.path'', ''store.redis_addr'',
      ''engine.signing_key'', ''engine.log_format'', ''engine.pricebook'', ''engine.fail_mode.default'',
      ''engine.fail_mode.notify'', ''auth.enabled'', ''auth.keys_env'', ''rules'']"

definition set_prov :: "string \<Rightarrow> Source \<Rightarrow> Effective \<Rightarrow> Effective" where
  "set_prov k s e = e\<lparr>eff_prov := AList.update k s (eff_prov e)\<rparr>"

definition env_layer :: "(string \<Rightarrow> string) \<Rightarrow> Effective \<Rightarrow> Effective" where
  "env_layer getenv e =
     (let v = getenv ''SLOPPY_LITELLM_URL''
      in if v = [] then e
         else (let ps = (case f_Platforms (eff_File e) of None \<Rightarrow> [] | Some d \<Rightarrow> d);
                   p = (case map_of ps ''litellm'' of None \<Rightarrow> zero_platform | Some p \<Rightarrow> p);
                   p' = p\<lparr>plt_Enabled := True, plt_URL := v, plt_TokenEnv := dflt ''SLOPPY_TOKEN_LITELLM'' (plt_TokenEnv p)\<rparr>
               in set_prov ''platforms.litellm.url'' SourceEnv
                    (set_prov ''platforms.litellm.enabled'' SourceEnv
                      (e\<lparr>eff_File := (eff_File e)\<lparr>f_Platforms := Some (AList.update ''litellm'' p' ps)\<rparr>\<rparr>))))"

definition set_file :: "(File \<Rightarrow> File) \<Rightarrow> Effective \<Rightarrow> Effective" where
  "set_file g e = e\<lparr>eff_File := g (eff_File e)\<rparr>"

text \<open>One flag: when it was given, it sets its field and its provenance.\<close>

definition flag :: "'a option \<Rightarrow> string \<Rightarrow> ('a \<Rightarrow> File \<Rightarrow> File) \<Rightarrow> Effective \<Rightarrow> Effective" where
  "flag v key upd e = (case v of None \<Rightarrow> e | Some x \<Rightarrow> set_prov key SourceFlag (set_file (upd x) e))"

definition set_addr :: "string \<Rightarrow> File \<Rightarrow> File" where "set_addr v f = f\<lparr>f_Server := (f_Server f)\<lparr>srv_Addr := v\<rparr>\<rparr>"
definition set_interval :: "string \<Rightarrow> File \<Rightarrow> File" where "set_interval v f = f\<lparr>f_Server := (f_Server f)\<lparr>srv_RevertInterval := v\<rparr>\<rparr>"
definition set_kind :: "string \<Rightarrow> File \<Rightarrow> File" where "set_kind v f = f\<lparr>f_Store := (f_Store f)\<lparr>sto_Kind := v\<rparr>\<rparr>"
definition set_path :: "string \<Rightarrow> File \<Rightarrow> File" where "set_path v f = f\<lparr>f_Store := (f_Store f)\<lparr>sto_Path := v\<rparr>\<rparr>"
definition set_redis :: "string \<Rightarrow> File \<Rightarrow> File" where "set_redis v f = f\<lparr>f_Store := (f_Store f)\<lparr>sto_RedisAddr := v\<rparr>\<rparr>"
definition set_rules :: "string \<Rightarrow> File \<Rightarrow> File" where "set_rules v f = f\<lparr>f_Rules := [v]\<rparr>"
definition set_signing_key :: "string \<Rightarrow> File \<Rightarrow> File" where
  "set_signing_key v f = f\<lparr>f_Engine := (f_Engine f)\<lparr>ecf_SigningKey := v\<rparr>\<rparr>"
definition set_log_format :: "string \<Rightarrow> File \<Rightarrow> File" where
  "set_log_format v f = f\<lparr>f_Engine := (f_Engine f)\<lparr>ecf_LogFormat := v\<rparr>\<rparr>"
definition set_pricebook :: "string \<Rightarrow> File \<Rightarrow> File" where
  "set_pricebook v f = f\<lparr>f_Engine := (f_Engine f)\<lparr>ecf_Pricebook := v\<rparr>\<rparr>"
definition set_auth :: "bool \<Rightarrow> File \<Rightarrow> File" where "set_auth v f = f\<lparr>f_Auth := (f_Auth f)\<lparr>auc_Enabled := v\<rparr>\<rparr>"
definition set_fail_closed :: "bool \<Rightarrow> File \<Rightarrow> File" where
  "set_fail_closed v f =
     f\<lparr>f_Engine := (f_Engine f)\<lparr>ecf_FailMode := (ecf_FailMode (f_Engine f))\<lparr>fmc_Default := ''closed''\<rparr>\<rparr>\<rparr>"

lemmas setter_defs =
  set_addr_def set_interval_def set_kind_def set_path_def set_redis_def set_rules_def set_signing_key_def
  set_log_format_def set_pricebook_def set_auth_def set_fail_closed_def

text \<open>The flags in the order of the code; the fail-closed flag counts only when it is true.\<close>

definition flag_layer :: "FlagOverrides \<Rightarrow> Effective \<Rightarrow> Effective" where
  "flag_layer fl e =
     flag (if fo_FailClosed fl = Some True then Some True else None) ''engine.fail_mode.default'' set_fail_closed
       (flag (fo_Auth fl) ''auth.enabled'' set_auth
         (flag (fo_Pricebook fl) ''engine.pricebook'' set_pricebook
           (flag (fo_LogFormat fl) ''engine.log_format'' set_log_format
             (flag (fo_SigningKey fl) ''engine.signing_key'' set_signing_key
               (flag (fo_Rules fl) ''rules'' set_rules
                 (flag (fo_RedisAddr fl) ''store.redis_addr'' set_redis
                   (flag (fo_DBPath fl) ''store.path'' set_path
                     (flag (fo_Store fl) ''store.kind'' set_kind
                       (flag (fo_RevertInterval fl) ''server.revert_interval'' set_interval
                         (flag (fo_Addr fl) ''server.addr'' set_addr e))))))))))"

definition Resolve :: "File \<Rightarrow> bool \<Rightarrow> FlagOverrides \<Rightarrow> (string \<Rightarrow> string) option \<Rightarrow> Effective" where
  "Resolve f existed flags getenv =
     (let ge = (case getenv of None \<Rightarrow> (\<lambda>_. []) | Some g \<Rightarrow> g);
          base = (if existed then SourceFile else SourceDefault)
      in flag_layer flags (env_layer ge
           \<lparr>eff_File = applyDefaults f, eff_prov = map (\<lambda>k. (k, base)) tracked_keys\<rparr>))"

section \<open>Validation\<close>

record Problem =
  pb_Path :: string
  pb_Msg :: string

definition Problem_String :: "Problem \<Rightarrow> string" where
  "Problem_String p = pb_Path p @ '': '' @ pb_Msg p"

definition knownPlatforms :: "string list" where
  "knownPlatforms = [''litellm'', ''bifrost'', ''envoy'', ''github'', ''slack'', ''webhook'', ''cloudflare'']"

text \<open>
  The credential patterns.  A regular expression matches a string when it matches a prefix of
  one of its suffixes; each pattern is such a test of a suffix.
\<close>

definition alnum :: "char \<Rightarrow> bool" where
  "alnum c \<longleftrightarrow> is_digit c \<or> c \<in> set ''ABCDEFGHIJKLMNOPQRSTUVWXYZ'' \<or> c \<in> set ''abcdefghijklmnopqrstuvwxyz''"

definition upper_or_space :: "char \<Rightarrow> bool" where
  "upper_or_space c \<longleftrightarrow> c = CHR '' '' \<or> c \<in> set ''ABCDEFGHIJKLMNOPQRSTUVWXYZ''"

definition slack_hook_at :: "string \<Rightarrow> bool" where
  "slack_hook_at t = has_prefix t ''hooks.slack.com/services/''"

definition slack_token_at :: "string \<Rightarrow> bool" where
  "slack_token_at t \<longleftrightarrow>
     take 3 t = ''xox'' \<and> length t \<ge> 5 \<and> t ! 3 \<in> set ''baprs'' \<and> t ! 4 = CHR ''-''"

definition github_token_at :: "string \<Rightarrow> bool" where
  "github_token_at t \<longleftrightarrow>
     take 2 t = ''gh'' \<and> length t \<ge> 24 \<and> t ! 2 \<in> set ''pousr'' \<and> t ! 3 = CHR ''_'' \<and> list_all alnum (take 20 (drop 4 t))"

definition openai_key_at :: "string \<Rightarrow> bool" where
  "openai_key_at t \<longleftrightarrow> take 3 t = ''sk-'' \<and> length t \<ge> 19 \<and> list_all alnum (take 16 (drop 3 t))"

text \<open>The repetition may stop at any length, since the words that follow are in the same class.\<close>

fun private_key_rest :: "string \<Rightarrow> bool" where
  "private_key_rest [] = False"
| "private_key_rest (c # t) = (has_prefix (c # t) ''PRIVATE KEY'' \<or> upper_or_space c \<and> private_key_rest t)"

definition pem_at :: "string \<Rightarrow> bool" where
  "pem_at t \<longleftrightarrow> has_prefix t ''-----BEGIN '' \<and> private_key_rest (drop 11 t)"

definition secretPatterns :: "(string \<Rightarrow> bool) list" where
  "secretPatterns = [slack_hook_at, slack_token_at, github_token_at, openai_key_at, pem_at]"

fun matches_somewhere :: "(string \<Rightarrow> bool) \<Rightarrow> string \<Rightarrow> bool" where
  "matches_somewhere p [] = p []"
| "matches_somewhere p (c # t) = (p (c # t) \<or> matches_somewhere p t)"

definition looksSecret :: "string \<Rightarrow> bool" where
  "looksSecret s = list_ex (\<lambda>p. matches_somewhere p s) secretPatterns"

definition problem :: "string \<Rightarrow> string \<Rightarrow> Problem" where
  "problem path msg = \<lparr>pb_Path = path, pb_Msg = msg\<rparr>"

definition quoted :: "string \<Rightarrow> string" where
  "quoted s = [dquote] @ s @ [dquote]"

definition check_store :: "StoreConfig \<Rightarrow> Problem list" where
  "check_store s =
     (if sto_Kind s = ''sqlite'' then []
      else if sto_Kind s = ''redis'' then
        (if sto_RedisAddr s = [] then [problem ''store.redis_addr'' ''required when store.kind=redis''] else [])
      else if sto_Kind s = [] then [problem ''store.kind'' ''required (sqlite|redis)'']
      else [problem ''store.kind'' (''unknown store '' @ quoted (sto_Kind s) @ '' (want sqlite|redis)'')])"

definition check_fail_mode :: "string \<Rightarrow> string \<Rightarrow> Problem list" where
  "check_fail_mode name v =
     (if v = [] \<or> v = ''open'' \<or> v = ''closed'' then []
      else [problem name (''unknown '' @ quoted v @ '' (want open|closed)'')])"

definition check_platform :: "string \<Rightarrow> Platform \<Rightarrow> Problem list" where
  "check_platform name p =
     (let base = ''platforms.'' @ name;
          field = (\<lambda>(f, v). if looksSecret v
                    then [problem (base @ f) ''looks like an inline secret; reference it via token_env + SLOPPY_TOKEN_* instead'']
                    else [])
      in (if name \<in> set knownPlatforms then []
          else [problem base (''unknown platform '' @ quoted name @
                  '' (want litellm|bifrost|envoy|webhook|cloudflare|github|slack)'')])
         @ concat (map field [(''.url'', plt_URL p), (''.base_url'', plt_BaseURL p), (''.repo'', plt_Repo p),
                              (''.channel'', plt_Channel p)])
         @ (if looksSecret (plt_TokenEnv p) then
              [problem (base @ ''.token_env'') ''must be an env-var NAME, not an inline secret value'']
            else if plt_Enabled p \<and> plt_TokenEnv p \<noteq> [] \<and> \<not> has_prefix (plt_TokenEnv p) ''SLOPPY_TOKEN_'' then
              [problem (base @ ''.token_env'') (quoted (plt_TokenEnv p) @ '' should name a SLOPPY_TOKEN_* broker capability'')]
            else []))"

definition platforms_of :: "File \<Rightarrow> Platform dict" where
  "platforms_of f = (case f_Platforms f of None \<Rightarrow> [] | Some d \<Rightarrow> d)"

definition Validate_file :: "File \<Rightarrow> Problem list" where
  "Validate_file f =
     (if f_Version f \<noteq> 1 then [problem ''version'' (''unsupported version '' @ int_to_dec (f_Version f) @ '' (want 1)'')] else [])
     @ check_store (f_Store f)
     @ (let ri = srv_RevertInterval (f_Server f)
        in if ri \<noteq> [] \<and> parse_duration ri = None then [problem ''server.revert_interval'' (''bad duration '' @ quoted ri)] else [])
     @ (let lf = ecf_LogFormat (f_Engine f)
        in if lf = [] \<or> lf = ''text'' \<or> lf = ''json'' then []
           else [problem ''engine.log_format'' (''unknown '' @ quoted lf @ '' (want text|json)'')])
     @ check_fail_mode ''engine.fail_mode.default'' (fmc_Default (ecf_FailMode (f_Engine f)))
     @ check_fail_mode ''engine.fail_mode.notify'' (fmc_Notify (ecf_FailMode (f_Engine f)))
     @ (if auc_Enabled (f_Auth f) \<and> auc_KeysEnv (f_Auth f) = [] then [problem ''auth.keys_env'' ''required when auth.enabled=true''] else [])
     @ concat (map (\<lambda>(name, p). check_platform name p) (platforms_of f))"

section \<open>Lemmas\<close>

lemma dflt_idem [simp]: "dflt d (dflt d s) = dflt d s"
  by (simp add: dflt_def)

lemma applyDefaults_idem [simp]: "applyDefaults (applyDefaults f) = applyDefaults f"
  by (simp add: applyDefaults_def)

lemma dflt_nonempty [simp]: "d \<noteq> [] \<Longrightarrow> dflt d s \<noteq> []"
  by (simp add: dflt_def)

text \<open>A flag changes its own field and no other.\<close>

definition upd_opt :: "'a option \<Rightarrow> ('a \<Rightarrow> File \<Rightarrow> File) \<Rightarrow> File \<Rightarrow> File" where
  "upd_opt v upd f = (case v of None \<Rightarrow> f | Some x \<Rightarrow> upd x f)"

lemma upd_opt_frame [simp]:
  "f_Server (upd_opt v set_kind f) = f_Server f" "f_Server (upd_opt v set_path f) = f_Server f"
  "f_Server (upd_opt v set_redis f) = f_Server f" "f_Server (upd_opt v set_rules f) = f_Server f"
  "f_Server (upd_opt v set_signing_key f) = f_Server f" "f_Server (upd_opt v set_log_format f) = f_Server f"
  "f_Server (upd_opt v set_pricebook f) = f_Server f" "f_Server (upd_opt b set_auth f) = f_Server f"
  "f_Server (upd_opt b set_fail_closed f) = f_Server f"
  "f_Store (upd_opt v set_addr f) = f_Store f" "f_Store (upd_opt v set_interval f) = f_Store f"
  "f_Store (upd_opt v set_rules f) = f_Store f" "f_Store (upd_opt v set_signing_key f) = f_Store f"
  "f_Store (upd_opt v set_log_format f) = f_Store f" "f_Store (upd_opt v set_pricebook f) = f_Store f"
  "f_Store (upd_opt b set_auth f) = f_Store f" "f_Store (upd_opt b set_fail_closed f) = f_Store f"
  "f_Engine (upd_opt v set_addr f) = f_Engine f" "f_Engine (upd_opt v set_interval f) = f_Engine f"
  "f_Engine (upd_opt v set_kind f) = f_Engine f" "f_Engine (upd_opt v set_path f) = f_Engine f"
  "f_Engine (upd_opt v set_redis f) = f_Engine f" "f_Engine (upd_opt v set_rules f) = f_Engine f"
  "f_Engine (upd_opt b set_auth f) = f_Engine f"
  "f_Auth (upd_opt v set_addr f) = f_Auth f" "f_Auth (upd_opt v set_interval f) = f_Auth f"
  "f_Auth (upd_opt v set_kind f) = f_Auth f" "f_Auth (upd_opt v set_path f) = f_Auth f"
  "f_Auth (upd_opt v set_redis f) = f_Auth f" "f_Auth (upd_opt v set_rules f) = f_Auth f"
  "f_Auth (upd_opt v set_signing_key f) = f_Auth f" "f_Auth (upd_opt v set_log_format f) = f_Auth f"
  "f_Auth (upd_opt v set_pricebook f) = f_Auth f" "f_Auth (upd_opt b set_fail_closed f) = f_Auth f"
  "f_Rules (upd_opt v set_addr f) = f_Rules f" "f_Rules (upd_opt v set_interval f) = f_Rules f"
  "f_Rules (upd_opt v set_kind f) = f_Rules f" "f_Rules (upd_opt v set_path f) = f_Rules f"
  "f_Rules (upd_opt v set_redis f) = f_Rules f" "f_Rules (upd_opt v set_signing_key f) = f_Rules f"
  "f_Rules (upd_opt v set_log_format f) = f_Rules f" "f_Rules (upd_opt v set_pricebook f) = f_Rules f"
  "f_Rules (upd_opt b set_auth f) = f_Rules f" "f_Rules (upd_opt b set_fail_closed f) = f_Rules f"
  "ecf_FailMode (f_Engine (upd_opt v set_signing_key f)) = ecf_FailMode (f_Engine f)"
  "ecf_FailMode (f_Engine (upd_opt v set_log_format f)) = ecf_FailMode (f_Engine f)"
  "ecf_FailMode (f_Engine (upd_opt v set_pricebook f)) = ecf_FailMode (f_Engine f)"
  "ecf_SigningKey (f_Engine (upd_opt v set_log_format f)) = ecf_SigningKey (f_Engine f)"
  "ecf_SigningKey (f_Engine (upd_opt v set_pricebook f)) = ecf_SigningKey (f_Engine f)"
  "ecf_SigningKey (f_Engine (upd_opt b set_fail_closed f)) = ecf_SigningKey (f_Engine f)"
  "ecf_LogFormat (f_Engine (upd_opt v set_signing_key f)) = ecf_LogFormat (f_Engine f)"
  "ecf_LogFormat (f_Engine (upd_opt v set_pricebook f)) = ecf_LogFormat (f_Engine f)"
  "ecf_LogFormat (f_Engine (upd_opt b set_fail_closed f)) = ecf_LogFormat (f_Engine f)"
  "ecf_Pricebook (f_Engine (upd_opt v set_signing_key f)) = ecf_Pricebook (f_Engine f)"
  "ecf_Pricebook (f_Engine (upd_opt v set_log_format f)) = ecf_Pricebook (f_Engine f)"
  "ecf_Pricebook (f_Engine (upd_opt b set_fail_closed f)) = ecf_Pricebook (f_Engine f)"
  by (simp_all add: upd_opt_def setter_defs split: option.splits)

definition pick :: "'a option \<Rightarrow> 'a \<Rightarrow> 'a" where
  "pick v d = (case v of None \<Rightarrow> d | Some x \<Rightarrow> x)"

lemma upd_opt_own [simp]:
  "f_Server (upd_opt v set_addr f) = (f_Server f)\<lparr>srv_Addr := pick v (srv_Addr (f_Server f))\<rparr>"
  "f_Server (upd_opt v set_interval f) = (f_Server f)\<lparr>srv_RevertInterval := pick v (srv_RevertInterval (f_Server f))\<rparr>"
  "f_Store (upd_opt v set_kind f) = (f_Store f)\<lparr>sto_Kind := pick v (sto_Kind (f_Store f))\<rparr>"
  "f_Store (upd_opt v set_path f) = (f_Store f)\<lparr>sto_Path := pick v (sto_Path (f_Store f))\<rparr>"
  "f_Store (upd_opt v set_redis f) = (f_Store f)\<lparr>sto_RedisAddr := pick v (sto_RedisAddr (f_Store f))\<rparr>"
  "f_Auth (upd_opt b set_auth f) = (f_Auth f)\<lparr>auc_Enabled := pick b (auc_Enabled (f_Auth f))\<rparr>"
  "f_Rules (upd_opt v set_rules f) = pick (map_option (\<lambda>r. [r]) v) (f_Rules f)"
  "ecf_SigningKey (f_Engine (upd_opt v set_signing_key f)) = pick v (ecf_SigningKey (f_Engine f))"
  "ecf_LogFormat (f_Engine (upd_opt v set_log_format f)) = pick v (ecf_LogFormat (f_Engine f))"
  "ecf_Pricebook (f_Engine (upd_opt v set_pricebook f)) = pick v (ecf_Pricebook (f_Engine f))"
  "ecf_FailMode (f_Engine (upd_opt b set_fail_closed f)) =
     (ecf_FailMode (f_Engine f))\<lparr>fmc_Default := pick (map_option (\<lambda>_. ''closed'') b) (fmc_Default (ecf_FailMode (f_Engine f)))\<rparr>"
  by (simp_all add: upd_opt_def pick_def setter_defs split: option.splits)

lemma flag_simps [simp]:
  "eff_File (flag v key upd e) = upd_opt v upd (eff_File e)"
  "map_of (eff_prov (flag v key upd e)) k =
     (if v \<noteq> None \<and> k = key then Some SourceFlag else map_of (eff_prov e) k)"
  by (simp_all add: flag_def set_prov_def set_file_def upd_opt_def split: option.splits)

lemma upd_opt_wiring [simp]:
  "f_Recipes (upd_opt v set_addr f) = f_Recipes f" "f_Platforms (upd_opt v set_addr f) = f_Platforms f"
  "f_Recipes (upd_opt v set_interval f) = f_Recipes f" "f_Platforms (upd_opt v set_interval f) = f_Platforms f"
  "f_Recipes (upd_opt v set_kind f) = f_Recipes f" "f_Platforms (upd_opt v set_kind f) = f_Platforms f"
  "f_Recipes (upd_opt v set_path f) = f_Recipes f" "f_Platforms (upd_opt v set_path f) = f_Platforms f"
  "f_Recipes (upd_opt v set_redis f) = f_Recipes f" "f_Platforms (upd_opt v set_redis f) = f_Platforms f"
  "f_Recipes (upd_opt v set_rules f) = f_Recipes f" "f_Platforms (upd_opt v set_rules f) = f_Platforms f"
  "f_Recipes (upd_opt v set_signing_key f) = f_Recipes f" "f_Platforms (upd_opt v set_signing_key f) = f_Platforms f"
  "f_Recipes (upd_opt v set_log_format f) = f_Recipes f" "f_Platforms (upd_opt v set_log_format f) = f_Platforms f"
  "f_Recipes (upd_opt v set_pricebook f) = f_Recipes f" "f_Platforms (upd_opt v set_pricebook f) = f_Platforms f"
  "f_Recipes (upd_opt b set_auth f) = f_Recipes f" "f_Platforms (upd_opt b set_auth f) = f_Platforms f"
  "f_Recipes (upd_opt b set_fail_closed f) = f_Recipes f" "f_Platforms (upd_opt b set_fail_closed f) = f_Platforms f"
  by (cases v; cases b; simp add: upd_opt_def setter_defs)+

lemma flag_layer_wiring [simp]:
  "f_Recipes (eff_File (flag_layer fl e)) = f_Recipes (eff_File e)" "f_Platforms (eff_File (flag_layer fl e)) = f_Platforms (eff_File e)"
  by (simp_all add: flag_layer_def)

lemma env_layer_File:
  "f_Server (eff_File (env_layer g e)) = f_Server (eff_File e)" "f_Store (eff_File (env_layer g e)) = f_Store (eff_File e)"
  "f_Engine (eff_File (env_layer g e)) = f_Engine (eff_File e)" "f_Auth (eff_File (env_layer g e)) = f_Auth (eff_File e)"
  "f_Rules (eff_File (env_layer g e)) = f_Rules (eff_File e)" "f_Version (eff_File (env_layer g e)) = f_Version (eff_File e)"
  by (simp_all add: env_layer_def set_prov_def Let_def)

lemma env_layer_prov:
  "map_of (eff_prov (env_layer g e)) k =
     (if g ''SLOPPY_LITELLM_URL'' \<noteq> [] \<and> (k = ''platforms.litellm.url'' \<or> k = ''platforms.litellm.enabled'') then Some SourceEnv
      else map_of (eff_prov e) k)"
  by (simp add: env_layer_def set_prov_def Let_def)

lemma tracked_prov: "map_of (map (\<lambda>k. (k, base)) ks) k = (if k \<in> set ks then Some base else None)"
  by (induction ks) auto

definition no_flags :: FlagOverrides where
  "no_flags =
     \<lparr>fo_Addr = None, fo_Store = None, fo_DBPath = None, fo_RedisAddr = None, fo_Rules = None, fo_SigningKey = None,
      fo_LogFormat = None, fo_Pricebook = None, fo_RevertInterval = None, fo_Auth = None, fo_FailClosed = None\<rparr>"

text \<open>
  The value and the source of a key, given the flag for it and the file's value after
  defaulting.  The source of a key without a flag is the same for all keys: the file when there
  is one, also for a key the file leaves out.
\<close>

definition layered :: "'a option \<Rightarrow> 'a \<Rightarrow> bool \<Rightarrow> 'a \<times> Source option" where
  "layered fl v existed =
     (case fl of Some x \<Rightarrow> (x, Some SourceFlag) | None \<Rightarrow> (v, Some (if existed then SourceFile else SourceDefault)))"

lemma layeredI: "x = pick fl v \<Longrightarrow> src = snd (layered fl v existed) \<Longrightarrow> (x, src) = layered fl v existed"
  by (simp add: layered_def pick_def split: option.splits)

lemma Resolve_File:
  "srv_Addr (f_Server (eff_File (Resolve f existed fl g))) = pick (fo_Addr fl) (srv_Addr (f_Server (applyDefaults f)))"
  "srv_RevertInterval (f_Server (eff_File (Resolve f existed fl g))) =
     pick (fo_RevertInterval fl) (srv_RevertInterval (f_Server (applyDefaults f)))"
  "sto_Kind (f_Store (eff_File (Resolve f existed fl g))) = pick (fo_Store fl) (sto_Kind (f_Store (applyDefaults f)))"
  "sto_Path (f_Store (eff_File (Resolve f existed fl g))) = pick (fo_DBPath fl) (sto_Path (f_Store (applyDefaults f)))"
  "sto_RedisAddr (f_Store (eff_File (Resolve f existed fl g))) = pick (fo_RedisAddr fl) (sto_RedisAddr (f_Store f))"
  "ecf_SigningKey (f_Engine (eff_File (Resolve f existed fl g))) = pick (fo_SigningKey fl) (ecf_SigningKey (f_Engine (applyDefaults f)))"
  "ecf_LogFormat (f_Engine (eff_File (Resolve f existed fl g))) = pick (fo_LogFormat fl) (ecf_LogFormat (f_Engine (applyDefaults f)))"
  "ecf_Pricebook (f_Engine (eff_File (Resolve f existed fl g))) = pick (fo_Pricebook fl) (ecf_Pricebook (f_Engine f))"
  "auc_Enabled (f_Auth (eff_File (Resolve f existed fl g))) = pick (fo_Auth fl) (auc_Enabled (f_Auth f))"
  "auc_KeysEnv (f_Auth (eff_File (Resolve f existed fl g))) = pick None (auc_KeysEnv (f_Auth (applyDefaults f)))"
  "f_Rules (eff_File (Resolve f existed fl g)) = pick (map_option (\<lambda>r. [r]) (fo_Rules fl)) (f_Rules (applyDefaults f))"
  "fmc_Default (ecf_FailMode (f_Engine (eff_File (Resolve f existed fl g)))) =
     pick (if fo_FailClosed fl = Some True then Some ''closed'' else None) (fmc_Default (ecf_FailMode (f_Engine (applyDefaults f))))"
  "fmc_Notify (ecf_FailMode (f_Engine (eff_File (Resolve f existed fl g)))) = pick None (fmc_Notify (ecf_FailMode (f_Engine (applyDefaults f))))"
  by (simp_all add: Resolve_def Let_def flag_layer_def env_layer_File) (simp_all add: applyDefaults_def pick_def)

lemma Resolve_prov:
  "Effective_Source (Resolve f existed fl g) ''server.addr'' = snd (layered (fo_Addr fl) v existed)"
  "Effective_Source (Resolve f existed fl g) ''server.revert_interval'' = snd (layered (fo_RevertInterval fl) v existed)"
  "Effective_Source (Resolve f existed fl g) ''store.kind'' = snd (layered (fo_Store fl) v existed)"
  "Effective_Source (Resolve f existed fl g) ''store.path'' = snd (layered (fo_DBPath fl) v existed)"
  "Effective_Source (Resolve f existed fl g) ''store.redis_addr'' = snd (layered (fo_RedisAddr fl) v existed)"
  "Effective_Source (Resolve f existed fl g) ''engine.signing_key'' = snd (layered (fo_SigningKey fl) v existed)"
  "Effective_Source (Resolve f existed fl g) ''engine.log_format'' = snd (layered (fo_LogFormat fl) v existed)"
  "Effective_Source (Resolve f existed fl g) ''engine.pricebook'' = snd (layered (fo_Pricebook fl) v existed)"
  "Effective_Source (Resolve f existed fl g) ''engine.fail_mode.default'' =
     snd (layered (if fo_FailClosed fl = Some True then Some w else None) v existed)"
  "Effective_Source (Resolve f existed fl g) ''engine.fail_mode.notify'' = snd (layered None v existed)"
  "Effective_Source (Resolve f existed fl g) ''auth.enabled'' = snd (layered (fo_Auth fl) b existed)"
  "Effective_Source (Resolve f existed fl g) ''auth.keys_env'' = snd (layered None v existed)"
  "Effective_Source (Resolve f existed fl g) ''rules'' = snd (layered (map_option (\<lambda>r. [r]) (fo_Rules fl)) vs existed)"
  by (simp_all add: Effective_Source_def Resolve_def Let_def flag_layer_def env_layer_prov tracked_keys_def layered_def
      split: option.split)

text \<open>The one setting the environment can make: the LiteLLM gateway.\<close>

lemma Resolve_env:
  "case getenv ''SLOPPY_LITELLM_URL'' of
     [] \<Rightarrow> platforms_of (eff_File (Resolve f existed fl (Some getenv))) = platforms_of f
   | _ \<Rightarrow> (\<exists>p. map_of (platforms_of (eff_File (Resolve f existed fl (Some getenv)))) ''litellm'' = Some p
          \<and> plt_Enabled p \<and> plt_URL p = getenv ''SLOPPY_LITELLM_URL'')
        \<and> Effective_Source (Resolve f existed fl (Some getenv)) ''platforms.litellm.url'' = Some SourceEnv"
proof -
  have pl: "platforms_of (eff_File (flag_layer fl e)) = platforms_of (eff_File e)" for e by (simp add: platforms_of_def)
  have "platforms_of (applyDefaults f) = platforms_of f" by (simp add: platforms_of_def applyDefaults_def)
  then show ?thesis
    by (cases "getenv ''SLOPPY_LITELLM_URL''")
      (simp_all add: Resolve_def Let_def pl env_layer_def set_prov_def platforms_of_def Effective_Source_def flag_layer_def)
qed

lemma check_platform_secret:
  assumes "name \<notin> set knownPlatforms \<or> looksSecret (plt_URL p) \<or> looksSecret (plt_BaseURL p) \<or> looksSecret (plt_Repo p)
           \<or> looksSecret (plt_Channel p) \<or> looksSecret (plt_TokenEnv p)"
  shows "check_platform name p \<noteq> []"
  using assms by (auto simp: check_platform_def Let_def)

section \<open>Properties\<close>


text \<open>C29: which files are valid once defaulted.  A file that decodes is accepted after its defaults are
  filled in exactly when it says nothing wrong: version 1 or none, a known store, with an
  address for Redis, a revert interval that parses, known log format and fail modes or none,
  and platforms without a problem.  Defaulting never adds a problem, removes the ones that only
  complain about an empty field, and is idempotent.\<close>

theorem defaulted_file_valid_iff:
  "(Validate_file (applyDefaults f) = [] \<longleftrightarrow>
      f_Version f \<in> {0, 1}
      \<and> (sto_Kind (f_Store f) \<in> {[], ''sqlite''} \<or> sto_Kind (f_Store f) = ''redis'' \<and> sto_RedisAddr (f_Store f) \<noteq> [])
      \<and> (srv_RevertInterval (f_Server f) = [] \<or> parse_duration (srv_RevertInterval (f_Server f)) \<noteq> None)
      \<and> ecf_LogFormat (f_Engine f) \<in> {[], ''text'', ''json''}
      \<and> fmc_Default (ecf_FailMode (f_Engine f)) \<in> {[], ''open'', ''closed''}
      \<and> fmc_Notify (ecf_FailMode (f_Engine f)) \<in> {[], ''open'', ''closed''}
      \<and> list_all (\<lambda>(n, p). check_platform n p = []) (platforms_of f))
   \<and> set (Validate_file (applyDefaults f)) \<subseteq> set (Validate_file f)
   \<and> applyDefaults (applyDefaults f) = applyDefaults f"
proof -
  have p: "parse_duration ''30s'' \<noteq> None" by code_simp
  have pl: "platforms_of (applyDefaults f) = platforms_of f" by (simp add: platforms_of_def applyDefaults_def)
  have "concat (map (\<lambda>(n, p). check_platform n p) ps) = [] \<longleftrightarrow> list_all (\<lambda>(n, p). check_platform n p = []) ps" for ps
    by (induction ps) auto
  then have "Validate_file (applyDefaults f) = [] \<longleftrightarrow>
      f_Version f \<in> {0, 1}
      \<and> (sto_Kind (f_Store f) \<in> {[], ''sqlite''} \<or> sto_Kind (f_Store f) = ''redis'' \<and> sto_RedisAddr (f_Store f) \<noteq> [])
      \<and> (srv_RevertInterval (f_Server f) = [] \<or> parse_duration (srv_RevertInterval (f_Server f)) \<noteq> None)
      \<and> ecf_LogFormat (f_Engine f) \<in> {[], ''text'', ''json''}
      \<and> fmc_Default (ecf_FailMode (f_Engine f)) \<in> {[], ''open'', ''closed''}
      \<and> fmc_Notify (ecf_FailMode (f_Engine f)) \<in> {[], ''open'', ''closed''}
      \<and> list_all (\<lambda>(n, p). check_platform n p = []) (platforms_of f)"
    unfolding Validate_file_def pl append_is_Nil_conv
    using p by (intro conj_cong) (auto simp: applyDefaults_def dflt_def check_store_def check_fail_mode_def Let_def)
  moreover have "set (Validate_file (applyDefaults f)) \<subseteq> set (Validate_file f)"
    unfolding Validate_file_def pl set_append
    using p by (intro Un_mono) (auto simp: applyDefaults_def dflt_def check_store_def check_fail_mode_def Let_def)
  ultimately show ?thesis by simp
qed

theorem defaulted_file_valid_iff_witness:
  "Validate_file (applyDefaults zero_file) = []
   \<and> Validate_file (applyDefaults (zero_file\<lparr>f_Store := (f_Store zero_file)\<lparr>sto_Kind := ''redis''\<rparr>\<rparr>)) \<noteq> []"
  using defaulted_file_valid_iff [of zero_file]
    defaulted_file_valid_iff [of "zero_file\<lparr>f_Store := (f_Store zero_file)\<lparr>sto_Kind := ''redis''\<rparr>\<rparr>"]
  by (simp add: zero_file_def platforms_of_def)

text \<open>Nothing but the platforms is scanned: whatever the recipes, the rules paths, the key file and
  the price book of a file say, validation reports the same.\<close>

lemma other_fields_not_scanned:
  "Validate_file (f\<lparr>f_Recipes := rcs, f_Rules := rs, f_Engine := (f_Engine f)\<lparr>ecf_SigningKey := k, ecf_Pricebook := pb\<rparr>\<rparr>) = Validate_file f"
  by (simp add: Validate_file_def platforms_of_def)



end
