(* ===== verification/Loading.thy ===== *)
theory Loading
  imports Sqlite Redis Config Rules
begin

text \<open>
  \<^verbatim>\<open>config/load.go\<close>: opening the configured store and reading rules and signals from disk, with the
  part of \<^verbatim>\<open>path/filepath\<close> it uses.  The file system is a record of what \<^verbatim>\<open>os.Stat\<close>, \<^verbatim>\<open>os.ReadDir\<close>
  (names in order, with a flag for directories) and \<^verbatim>\<open>os.ReadFile\<close> give.  Each error is a
  constructor; its text is a function, because one caller looks into the text.

  An opened store is a Go interface value: one of the two backends, with the methods
  dispatched on which one it is.  With the SQLite backend it keeps the contract \<^verbatim>\<open>store\<close>.
\<close>

section \<open>Paths\<close>

definition push_part :: "bool \<Rightarrow> string \<Rightarrow> string list \<Rightarrow> string list" where
  "push_part rooted p st =
     (if p = [] \<or> p = ''.'' then st
      else if p = ''..'' then
        (case st of [] \<Rightarrow> if rooted then [] else [p] | q # r \<Rightarrow> if q = ''..'' then p # st else r)
      else p # st)"

definition Clean :: "string \<Rightarrow> string" where
  "Clean path =
     (if path = [] then ''.''
      else let rooted = (hd path = CHR ''/'');
               body = join_with ''/'' (rev (fold (push_part rooted) (str_split path (CHR ''/'')) []))
           in if rooted then CHR ''/'' # body else if body = [] then ''.'' else body)"

definition Join_path :: "string \<Rightarrow> string \<Rightarrow> string" where
  "Join_path a b =
     (if a \<noteq> [] then Clean (a @ ''/'' @ b) else if b \<noteq> [] then Clean b else [])"

definition Dir_path :: "string \<Rightarrow> string" where
  "Dir_path path = Clean (rev (dropWhile (\<lambda>c. c \<noteq> CHR ''/'') (rev path)))"

definition Ext_path :: "string \<Rightarrow> string" where
  "Ext_path path =
     (let base = takeWhile (\<lambda>c. c \<noteq> CHR ''/'') (rev path)
      in if CHR ''.'' \<in> set base then CHR ''.'' # rev (takeWhile (\<lambda>c. c \<noteq> CHR ''.'') base) else [])"

section \<open>Files\<close>

datatype stat_result = NoFile | StatError error | RegularFile | Directory

record files =
  fl_stat :: "string \<Rightarrow> stat_result"
  fl_dir :: "string \<Rightarrow> (string \<times> bool) list"
  fl_read :: "string \<Rightarrow> read_result"

section \<open>Opening the store\<close>

datatype 'r store_value = SqliteStore sqliteStore | RedisStore redisStore 'r

definition dispatch ::
    "(sqliteStore \<Rightarrow> 'a \<times> sqliteStore) \<Rightarrow> (redisStore \<Rightarrow> 'r \<Rightarrow> 'a \<times> 'r) \<Rightarrow> 'r store_value \<Rightarrow> 'a \<times> 'r store_value" where
  "dispatch f g v =
     (case v of
        SqliteStore s \<Rightarrow> map_prod id SqliteStore (f s)
      | RedisStore rs r \<Rightarrow> map_prod id (RedisStore rs) (g rs r))"

definition iface_ops :: "ed25519 \<Rightarrow> 'r redis \<Rightarrow> 'r store_value store_ops" where
  "iface_ops ed rd =
     (let sq = sqlite_ops ed; rs = redis_ops ed rd
      in \<lparr>ClaimIntent = (\<lambda>i. dispatch (ClaimIntent sq i) (\<lambda>c. ClaimIntent (rs c) i)),
          ReleaseIntent = (\<lambda>i. dispatch (ReleaseIntent sq i) (\<lambda>c. ReleaseIntent (rs c) i)),
          AppendAudit = (\<lambda>k d. dispatch (AppendAudit sq k d) (\<lambda>c. AppendAudit (rs c) k d)),
          Audit_entries = dispatch (Audit_entries sq) (\<lambda>c. Audit_entries (rs c)),
          VerifyAudit = dispatch (VerifyAudit sq) (\<lambda>c. VerifyAudit (rs c)),
          ScheduleRevert = (\<lambda>p. dispatch (ScheduleRevert sq p) (\<lambda>c. ScheduleRevert (rs c) p)),
          DueReverts = (\<lambda>t. dispatch (DueReverts sq t) (\<lambda>c. DueReverts (rs c) t)),
          MarkReverted = (\<lambda>i. dispatch (MarkReverted sq i) (\<lambda>c. MarkReverted (rs c) i)),
          RecordAction = (\<lambda>sha t. dispatch (RecordAction sq sha t) (\<lambda>c. RecordAction (rs c) sha t)),
          CountActions = (\<lambda>sha t. dispatch (CountActions sq sha t) (\<lambda>c. CountActions (rs c) sha t)),
          RecordOutstanding = (\<lambda>k p. dispatch (RecordOutstanding sq k p) (\<lambda>c. RecordOutstanding (rs c) k p)),
          Outstanding = (\<lambda>k. dispatch (Outstanding sq k) (\<lambda>c. Outstanding (rs c) k)),
          ClearOutstanding = (\<lambda>k. dispatch (ClearOutstanding sq k) (\<lambda>c. ClearOutstanding (rs c) k)),
          RecordUsage = (\<lambda>tn m x t. dispatch (RecordUsage sq tn m x t) (\<lambda>c. RecordUsage (rs c) tn m x t)),
          SpendSince = (\<lambda>tn t. dispatch (SpendSince sq tn t) (\<lambda>c. SpendSince (rs c) tn t)),
          PruneUsage = (\<lambda>t. dispatch (PruneUsage sq t) (\<lambda>c. PruneUsage (rs c) t))\<rparr>)"

text \<open>What the two backends find when they are opened: the database at a path, the server at an address.\<close>

record 'r backends =
  bk_sqlite :: "string \<Rightarrow> StoreOption list \<Rightarrow> error + sqliteStore"
  bk_redis :: "'r redis"
  bk_server :: "string \<Rightarrow> 'r"

definition isNotADatabase :: "error \<Rightarrow> bool" where
  "isNotADatabase e = str_contains e ''file is not a database''"

definition humanizeSQLiteOpen :: "files \<Rightarrow> string \<Rightarrow> error \<Rightarrow> error" where
  "humanizeSQLiteOpen fl path e =
     (let dir = Dir_path path
      in if dir \<noteq> [] \<and> dir \<noteq> ''.'' \<and> fl_stat fl dir = NoFile then
           ''state db '' @ path @ '': parent directory '' @ dir @ '' does not exist; create it first, then re-run''
         else if isNotADatabase e then
           ''state db '' @ path @ '': not a sloppy state database (remove or rename this file, then re-run to create a fresh one)''
         else ''state db '' @ path @ '': '' @ e)"

definition OpenStore ::
    "files \<Rightarrow> 'r backends \<Rightarrow> string \<Rightarrow> string \<Rightarrow> string \<Rightarrow> StoreOption list \<Rightarrow> 'r store_value result" where
  "OpenStore fl bk kind sqlitePath redisAddr opts =
     (if kind = [] \<or> kind = ''sqlite'' then
        (case bk_sqlite bk sqlitePath opts of
           Inl e \<Rightarrow> Inl (humanizeSQLiteOpen fl sqlitePath e)
         | Inr st \<Rightarrow> Inr (SqliteStore st))
      else if kind = ''redis'' then
        (if redisAddr = [] then Inl ''config: redis store requires a redis address''
         else case OpenRedis (bk_redis bk) opts (bk_server bk redisAddr) of
           (Inl e, r) \<Rightarrow> Inl e
         | (Inr rs, r) \<Rightarrow> Inr (RedisStore rs r))
      else Inl (''config: unknown store '' @ quoted kind @ '' (want sqlite|redis)''))"

section \<open>Rules\<close>

datatype load_error =
    RulesNotFound string
  | RulesStat string error
  | RulesFileMissing string
  | RulesFileError string error
  | RulesParse string rule_error
  | NoRules string

fun rule_message :: "rule_error \<Rightarrow> string" where
  "rule_message (BudgetForm s) = ''intent_budget '' @ quoted s @ '' must be N/window (e.g. 3/h)''"
| "rule_message (BudgetCount s) = ''intent_budget '' @ quoted s @ '': bad count''"
| "rule_message (BudgetWindow s) = ''intent_budget '' @ quoted s @ '': bad window''"
| "rule_message (CelEnv e) = e"
| "rule_message (CelCompile e) = ''rules: cel compile: '' @ e"
| "rule_message (CelProgram e) = e"
| "rule_message (UnknownAction k) = ''unknown action '' @ quoted k"
| "rule_message (Yaml e) = ''rules: yaml: '' @ e"
| "rule_message MissingOn = ''rules: missing `on:`''"
| "rule_message MissingWhen = ''rules: missing `when:`''"
| "rule_message (BadFor s) = ''rules: bad `for:` '' @ quoted s @ '': time: invalid duration '' @ quoted s"
| "rule_message NoActions = ''rules: `then:` must list at least one action''"

fun load_message :: "load_error \<Rightarrow> string" where
  "load_message (RulesNotFound p) =
     ''rules path '' @ p @ '' not found; create it and add *.yaml rule files, or point at an existing one with --rules <dir|file>''"
| "load_message (RulesStat p e) = ''rules path '' @ p @ '': '' @ e"
| "load_message (RulesFileMissing f) = ''rules file '' @ f @ '': open '' @ f @ '': no such file or directory''"
| "load_message (RulesFileError f e) = ''rules file '' @ f @ '': '' @ e"
| "load_message (RulesParse f e) = f @ '': '' @ rule_message e"
| "load_message (NoRules p) = ''no rules found in '' @ p"

definition rule_files :: "files \<Rightarrow> string \<Rightarrow> bool \<Rightarrow> string list" where
  "rule_files fl path isDir =
     (if isDir then
        map (\<lambda>(n, d). Join_path path n)
          (filter (\<lambda>(n, d). \<not> d \<and> (Ext_path n = ''.yaml'' \<or> Ext_path n = ''.yml'')) (fl_dir fl path))
      else [path])"

fun parse_files :: "(bytes \<Rightarrow> rawRule result) \<Rightarrow> files \<Rightarrow> string list \<Rightarrow> load_error + Rule list" where
  "parse_files yaml fl [] = Inr []"
| "parse_files yaml fl (f # fs) =
     (case fl_read fl f of
        NotExist \<Rightarrow> Inl (RulesFileMissing f)
      | ReadError e \<Rightarrow> Inl (RulesFileError f e)
      | Contents b \<Rightarrow>
          (case ParseRules yaml b of
             Inl e \<Rightarrow> Inl (RulesParse f e)
           | Inr rs \<Rightarrow> (case parse_files yaml fl fs of Inl e \<Rightarrow> Inl e | Inr rest \<Rightarrow> Inr (rs @ rest))))"

definition LoadRules :: "(bytes \<Rightarrow> rawRule result) \<Rightarrow> files \<Rightarrow> string \<Rightarrow> load_error + Rule list" where
  "LoadRules yaml fl path =
     (case fl_stat fl path of
        NoFile \<Rightarrow> Inl (RulesNotFound path)
      | StatError e \<Rightarrow> Inl (RulesStat path e)
      | st \<Rightarrow>
          (case parse_files yaml fl (rule_files fl path (st = Directory)) of
             Inl e \<Rightarrow> Inl e
           | Inr rs \<Rightarrow> if rs = [] then Inl (NoRules path) else Inr rs))"

section \<open>Signals\<close>

definition zero_signal :: Signal where
  "zero_signal =
     \<lparr>sig_ID = [], sig_Source = [], sig_Type = [], sig_Time = zero_time,
      sig_Subject = \<lparr>sub_Tenant = [], sub_Deployment = [], sub_Alias = []\<rparr>, sig_Severity = [],
      sig_CorrelationKey = [], sig_DedupWindow = 0, sig_Evidence = [], sig_Data = None\<rparr>"

text \<open>\<^verbatim>\<open>time.Time\<close> decodes from an RFC 3339 string.  (A string with escapes is taken unescaped.)\<close>

fun dec_time :: "time decoder" where
  "dec_time JNull cur = Some cur"
| "dec_time (JStr s) cur = parse_rfc3339 s"
| "dec_time _ cur = None"

definition dec_subject :: "Subject decoder" where
  "dec_subject =
     dec_struct
       [(''tenant'', at_field sub_Tenant (\<lambda>v. sub_Tenant_update (\<lambda>_. v)) dec_string),
        (''deployment'', at_field sub_Deployment (\<lambda>v. sub_Deployment_update (\<lambda>_. v)) dec_string),
        (''alias'', at_field sub_Alias (\<lambda>v. sub_Alias_update (\<lambda>_. v)) dec_string)]"

definition dec_evidence :: "Evidence decoder" where
  "dec_evidence =
     dec_struct
       [(''kind'', at_field ev_Kind (\<lambda>v. ev_Kind_update (\<lambda>_. v)) dec_string),
        (''ref'', at_field ev_Ref (\<lambda>v. ev_Ref_update (\<lambda>_. v)) dec_string)]"

definition dec_signal :: "Signal decoder" where
  "dec_signal =
     dec_struct
       [(''id'', at_field sig_ID (\<lambda>v. sig_ID_update (\<lambda>_. v)) dec_string),
        (''source'', at_field sig_Source (\<lambda>v. sig_Source_update (\<lambda>_. v)) dec_string),
        (''type'', at_field sig_Type (\<lambda>v. sig_Type_update (\<lambda>_. v)) dec_string),
        (''time'', at_field sig_Time (\<lambda>v. sig_Time_update (\<lambda>_. v)) dec_time),
        (''subject'', at_field sig_Subject (\<lambda>v. sig_Subject_update (\<lambda>_. v)) dec_subject),
        (''severity'', at_field sig_Severity (\<lambda>v. sig_Severity_update (\<lambda>_. v)) dec_string),
        (''correlation_key'', at_field sig_CorrelationKey (\<lambda>v. sig_CorrelationKey_update (\<lambda>_. v)) dec_string),
        (''dedup_window'', at_field sig_DedupWindow (\<lambda>v. sig_DedupWindow_update (\<lambda>_. v)) dec_int),
        (''evidence'', at_field sig_Evidence (\<lambda>v. sig_Evidence_update (\<lambda>_. v))
            (dec_slice dec_evidence \<lparr>ev_Kind = [], ev_Ref = []\<rparr>)),
        (''data'', at_field sig_Data (\<lambda>v. sig_Data_update (\<lambda>_. v)) dec_map)]"

datatype signal_error =
    SignalNotFound string
  | SignalFile string error
  | SignalMalformed string
  | SignalLineMalformed string int
  | NoSignals string

definition LoadSignal :: "files \<Rightarrow> string \<Rightarrow> signal_error + Signal" where
  "LoadSignal fl path =
     (case fl_read fl path of
        NotExist \<Rightarrow> Inl (SignalNotFound path)
      | ReadError e \<Rightarrow> Inl (SignalFile path e)
      | Contents b \<Rightarrow>
          (case unmarshal_into dec_signal zero_signal b of None \<Rightarrow> Inl (SignalMalformed path) | Some s \<Rightarrow> Inr s))"

fun parse_lines :: "string \<Rightarrow> int \<Rightarrow> string list \<Rightarrow> signal_error + Signal list" where
  "parse_lines path i [] = Inr []"
| "parse_lines path i (l # ls) =
     (let line = trim_space l
      in if line = [] then parse_lines path (i + 1) ls
         else case unmarshal_into dec_signal zero_signal line of
           None \<Rightarrow> Inl (SignalLineMalformed path (i + 1))
         | Some s \<Rightarrow> (case parse_lines path (i + 1) ls of Inl e \<Rightarrow> Inl e | Inr ss \<Rightarrow> Inr (s # ss)))"

definition LoadSignalsJSONL :: "files \<Rightarrow> string \<Rightarrow> signal_error + Signal list" where
  "LoadSignalsJSONL fl path =
     (case fl_read fl path of
        NotExist \<Rightarrow> Inl (SignalNotFound path)
      | ReadError e \<Rightarrow> Inl (SignalFile path e)
      | Contents b \<Rightarrow>
          (case parse_lines path 0 (str_split b (CHR 0x0A)) of
             Inl e \<Rightarrow> Inl e
           | Inr ss \<Rightarrow> if ss = [] then Inl (NoSignals path) else Inr ss))"

section \<open>The opened store keeps the contract\<close>

definition iface_view :: "'r store_value \<Rightarrow> view" where
  "iface_view v =
     (case v of
        SqliteStore s \<Rightarrow> sqlite_view s
      | RedisStore _ _ \<Rightarrow> \<lparr>v_claimed = {}, v_reverts = Map.empty, v_outstanding = (\<lambda>_. Map.empty), v_log = []\<rparr>)"

definition iface_inv :: "'r store_value \<Rightarrow> bool" where
  "iface_inv v = (case v of SqliteStore s \<Rightarrow> sqlite_inv s | RedisStore _ _ \<Rightarrow> False)"

definition iface_healthy :: "'r store_value \<Rightarrow> bool" where
  "iface_healthy v = (case v of SqliteStore s \<Rightarrow> sqlite_healthy s | RedisStore _ _ \<Rightarrow> False)"

text \<open>Dispatch on the SQLite backend is the backend, so the laws carry over one by one.\<close>

lemma iface_sqlite [simp]:
  "iface_view (SqliteStore s) = sqlite_view s" "iface_inv (SqliteStore s) = sqlite_inv s"
  "iface_healthy (SqliteStore s) = sqlite_healthy s"
  "dispatch f g (SqliteStore s) = (fst (f s), SqliteStore (snd (f s)))"
  by (simp_all add: iface_view_def iface_inv_def iface_healthy_def dispatch_def prod_eq_iff)

lemma iface_step:
  "step_ok sqlite_inv sqlite_healthy s b t \<Longrightarrow> step_ok iface_inv iface_healthy (SqliteStore s) b (SqliteStore t)"
  by (simp add: step_ok_def)

lemma iface_write:
  "write_ok sqlite_view sqlite_inv sqlite_healthy eff s (f s) \<Longrightarrow>
   write_ok iface_view iface_inv iface_healthy eff (SqliteStore s) (dispatch f g (SqliteStore s))"
  by (simp add: write_ok_def iface_step)

lemma iface_read:
  "read_ok sqlite_view sqlite_inv sqlite_healthy P s (f s) \<Longrightarrow>
   read_ok iface_view iface_inv iface_healthy P (SqliteStore s) (dispatch f g (SqliteStore s))"
  by (simp add: read_ok_def iface_step split: sum.splits)

lemma iface_rows:
  "rows_ok sqlite_view sqlite_inv sqlite_healthy P s (f s) \<Longrightarrow>
   rows_ok iface_view iface_inv iface_healthy P (SqliteStore s) (dispatch f g (SqliteStore s))"
  by (simp add: rows_ok_def iface_step)

lemma iface_claim:
  "claim_ok sqlite_view sqlite_inv sqlite_healthy i s (f s) \<Longrightarrow>
   claim_ok iface_view iface_inv iface_healthy i (SqliteStore s) (dispatch f g (SqliteStore s))"
  by (simp add: claim_ok_def iface_step split: sum.splits bool.splits)

lemma iface_append:
  "append_ok sqlite_view sqlite_inv sqlite_healthy k d s (f s) \<Longrightarrow>
   append_ok iface_view iface_inv iface_healthy k d (SqliteStore s) (dispatch f g (SqliteStore s))"
  by (simp add: append_ok_def iface_step split: sum.splits)

lemma iface_inv_cases:
  assumes "iface_inv v"
  obtains s where "v = SqliteStore s" "sqlite_inv s"
  using assms by (cases v) (auto simp: iface_inv_def)

lemma iface_verify:
  "sqlite_view (snd (f s)) = sqlite_view s \<and> step_ok sqlite_inv sqlite_healthy s True (snd (f s)) \<Longrightarrow>
   iface_view (snd (dispatch f g (SqliteStore s))) = iface_view (SqliteStore s)
     \<and> step_ok iface_inv iface_healthy (SqliteStore s) True (snd (dispatch f g (SqliteStore s)))"
  by (simp add: iface_step)

lemmas iface_rules = iface_write iface_read iface_rows iface_claim iface_append iface_verify

lemmas sqlite_laws =
  sqlite.claim_law sqlite.release_law sqlite.append_law sqlite.audit_law sqlite.verify_law sqlite.schedule_law
  sqlite.due_law sqlite.mark_law sqlite.record_action_law sqlite.count_law sqlite.record_outstanding_law
  sqlite.outstanding_law sqlite.clear_law sqlite.usage_law sqlite.spend_law sqlite.prune_law

interpretation opened: store "iface_ops ed rd" iface_view iface_inv iface_healthy
  by (unfold_locales;
      erule iface_inv_cases, simp only: iface_ops_def Let_def store_ops.simps, intro iface_rules sqlite_laws)

end
