(* ===== verification/Access.thy ===== *)
theory Access
  imports Rules Signing
begin

text \<open>
  Packages \<^verbatim>\<open>ee\<close> (API keys and scopes), \<^verbatim>\<open>secrets\<close> (the token broker) and \<^verbatim>\<open>replay\<close> (rules evaluated
  without effects).  The environment is a function from names to values, an unset variable
  being the empty string as \<^verbatim>\<open>os.Getenv\<close> has it.  A request is its path and its headers.

  The lemmas: a route that is not mapped is reachable by no key and the public one by all; a
  printed key table is read back; the broker gives tokens only for allowed capabilities;
  replay reports what the reconciler decides.
\<close>

section \<open>Scopes and keys\<close>

definition ScopeIngestWrite :: string where "ScopeIngestWrite = ''ingest:write''"
definition ScopeStatusRead :: string where "ScopeStatusRead = ''status:read''"
definition ScopePublic :: string where "ScopePublic = ''''"
definition ScopeDeny :: string where "ScopeDeny = ''deny:all''"

lemmas scope_defs = ScopeIngestWrite_def ScopeStatusRead_def ScopePublic_def ScopeDeny_def

type_synonym env = "string \<Rightarrow> string"

record Authorizer =
  auth_keys :: "bool dict dict"

definition NewAuthorizer :: "string list dict \<Rightarrow> Authorizer" where
  "NewAuthorizer keys =
     \<lparr>auth_keys =
        fold (\<lambda>(k, scopes) m. AList.update k (fold (\<lambda>s m. AList.update s True m) scopes []) m) keys []\<rparr>"

definition parse_scopes :: "string \<Rightarrow> string list" where
  "parse_scopes scopes = filter (\<lambda>s. s \<noteq> []) (map trim_space (str_split scopes (CHR '','')))"

definition parse_entry :: "string \<Rightarrow> string list dict \<Rightarrow> string list dict" where
  "parse_entry e keys =
     (let entry = trim_space e
      in if entry = [] then keys
         else case str_cut entry (CHR ''='') of
           None \<Rightarrow> keys
         | Some (k, scopes) \<Rightarrow> AList.update (trim_space k) (parse_scopes scopes) keys)"

definition LoadFromEnv :: "env \<Rightarrow> Authorizer" where
  "LoadFromEnv getenv =
     NewAuthorizer (fold parse_entry (str_split (getenv ''SLOPPY_API_KEYS'') (CHR '';'')) [])"

definition ScopeForPath :: "string \<Rightarrow> string" where
  "ScopeForPath path =
     (if path = ''/healthz'' then ScopePublic
      else if path = ''/status'' then ScopeStatusRead
      else if path = ''/v1/signals'' \<or> path = ''/v1/usage'' \<or> path = ''/v1/otlp/metrics'' then ScopeIngestWrite
      else ScopeDeny)"

definition KeyCount :: "Authorizer option \<Rightarrow> int" where
  "KeyCount a = (case a of None \<Rightarrow> 0 | Some x \<Rightarrow> int (length (auth_keys x)))"

definition HasScope :: "Authorizer \<Rightarrow> string \<Rightarrow> string \<Rightarrow> bool" where
  "HasScope a apiKey scope =
     (if scope = ScopeDeny then False
      else if scope = ScopePublic then True
      else case map_of (auth_keys a) apiKey of
        None \<Rightarrow> False
      | Some ss \<Rightarrow> (case map_of ss scope of None \<Rightarrow> False | Some b \<Rightarrow> b))"

text \<open>
  A request; \<open>hr_broken\<close> says that reading its body ends in an error after the bytes of the body and
  not at the end of the input.
\<close>

record http_request =
  hr_method :: string
  hr_path :: string
  hr_header :: "string \<Rightarrow> string"
  hr_body :: bytes
  hr_broken :: bool

definition apiKeyFrom :: "http_request \<Rightarrow> string" where
  "apiKeyFrom r =
     (let k = hr_header r ''X-API-Key'' in
      if k \<noteq> [] then k
      else let a = hr_header r ''Authorization'' in
        if has_prefix a ''Bearer '' then trim_prefix a ''Bearer '' else [])"

record http_response =
  hp_status :: int
  hp_body :: string

definition text_error :: "string \<Rightarrow> int \<Rightarrow> http_response" where
  "text_error msg status = \<lparr>hp_status = status, hp_body = msg @ [CHR 0x0A]\<rparr>"

text \<open>A handler maps a request and its state to a response and the state after it.\<close>

type_synonym 's handler = "http_request \<Rightarrow> 's \<Rightarrow> http_response \<times> 's"

definition Middleware :: "Authorizer \<Rightarrow> 's handler \<Rightarrow> 's handler" where
  "Middleware a h r s =
     (let scope = ScopeForPath (hr_path r)
      in if \<not> HasScope a (apiKeyFrom r) scope then
           (if scope = ScopeDeny then (text_error ''forbidden: route not authorized'' 403, s)
            else (text_error (''forbidden: requires scope '' @ scope) 403, s))
         else h r s)"

section \<open>The token broker\<close>

type_synonym broker = "bool dict"

definition NewEnvBroker :: "string list \<Rightarrow> broker" where
  "NewEnvBroker allowed = fold (\<lambda>a m. AList.update a True m) allowed []"

datatype secret_error = NotAllowed string | ReadFailed string | EmptyFile string | NoToken string

text \<open>The files are a map from path to contents; a path without one cannot be read.\<close>

definition Broker_Get :: "broker \<Rightarrow> env \<Rightarrow> (string \<Rightarrow> bytes option) \<Rightarrow> string \<Rightarrow> secret_error + string" where
  "Broker_Get b getenv files capability =
     (if map_of b capability \<noteq> Some True then Inl (NotAllowed capability)
      else let key = ''SLOPPY_TOKEN_'' @ to_upper capability; path = getenv (key @ ''_FILE'')
           in if path \<noteq> [] then
                (case files path of
                   None \<Rightarrow> Inl (ReadFailed (key @ ''_FILE''))
                 | Some data \<Rightarrow> (let v = trim_space data in if v = [] then Inl (EmptyFile (key @ ''_FILE'')) else Inr v))
              else (let v = getenv key in if v = [] then Inl (NoToken capability) else Inr v))"

fun secret_message :: "secret_error \<Rightarrow> error" where
  "secret_message (NotAllowed c) = ''secrets: capability '' @ [dquote] @ c @ [dquote] @ '' not allowed (default-deny)''"
| "secret_message (ReadFailed k) = ''secrets: read '' @ k"
| "secret_message (EmptyFile k) = ''secrets: '' @ k @ '' is empty''"
| "secret_message (NoToken c) = ''secrets: no token for '' @ [dquote] @ c @ [dquote]"

section \<open>Replay\<close>

record Fired =
  fd_Rule :: string
  fd_Kind :: string
  fd_Target :: string

record replay_Result =
  rr_SignalID :: string
  rr_Matched :: bool
  rr_Intents :: "Fired list"

definition replay_label :: "Signal \<Rightarrow> string" where
  "replay_label s = (if sig_ID s \<noteq> [] then sig_ID s else sig_Type s)"

fun replay_matches :: "Match list \<Rightarrow> replay_Result \<Rightarrow> replay_Result" where
  "replay_matches [] r = r"
| "replay_matches (mt # mts) r =
     replay_matches mts
       (r\<lparr>rr_Matched := True,
          rr_Intents := rr_Intents r @
            map (\<lambda>i. \<lparr>fd_Rule = rule_SHA (m_Rule mt), fd_Kind = ri_Kind i, fd_Target = ri_Target i\<rparr>) (m_Intents mt)\<rparr>)"

definition replay_one :: "Reconciler \<Rightarrow> Signal \<Rightarrow> replay_Result" where
  "replay_one rc sig =
     replay_matches (EvaluateMatches rc sig None) \<lparr>rr_SignalID = replay_label sig, rr_Matched = False, rr_Intents = []\<rparr>"

definition Replay_Run :: "Reconciler \<Rightarrow> Signal list \<Rightarrow> replay_Result list" where
  "Replay_Run rc signals = map (replay_one rc) signals"

section \<open>Lemmas\<close>

lemma map_of_fold_set: "map_of (fold (\<lambda>s m. AList.update s True m) ss m) x = (if x \<in> set ss then Some True else map_of m x)"
  by (induction ss arbitrary: m) auto

lemma map_of_fold_keys:
  "distinct_keys keys \<Longrightarrow>
   map_of (fold (\<lambda>(k, scopes) m. AList.update k (f scopes) m) keys m) k =
     (case map_of keys k of None \<Rightarrow> map_of m k | Some ss \<Rightarrow> Some (f ss))"
proof (induction keys arbitrary: m)
  case (Cons p keys)
  then have "map_of keys (fst p) = None" by (simp add: map_of_eq_None_iff)
  with Cons show ?case by (cases p) (auto split: option.splits)
qed simp

text \<open>What an authorizer made from a key table grants.\<close>

lemma HasScope_New:
  assumes "distinct_keys keys"
  shows "HasScope (NewAuthorizer keys) k scope \<longleftrightarrow>
           scope \<noteq> ScopeDeny \<and> (scope = ScopePublic \<or> (\<exists>ss. map_of keys k = Some ss \<and> scope \<in> set ss))"
proof -
  have "map_of (auth_keys (NewAuthorizer keys)) k = map_option (\<lambda>ss. fold (\<lambda>s m. AList.update s True m) ss []) (map_of keys k)"
    using map_of_fold_keys [OF assms, of "\<lambda>ss. fold (\<lambda>s m. AList.update s True m) ss []" "[]" k]
    by (simp add: NewAuthorizer_def split: option.splits)
  then show ?thesis by (auto simp: HasScope_def map_of_fold_set split: option.splits if_splits)
qed

lemma distinct_parse_entries: "distinct_keys keys \<Longrightarrow> distinct_keys (fold parse_entry es keys)"
  by (induction es arbitrary: keys) (auto simp: parse_entry_def Let_def split: option.splits)

lemma LoadFromEnv_grants:
  "HasScope (LoadFromEnv getenv) k scope \<longleftrightarrow>
     scope \<noteq> ScopeDeny \<and> (scope = ScopePublic \<or>
       (\<exists>ss. map_of (fold parse_entry (str_split (getenv ''SLOPPY_API_KEYS'') (CHR '';'')) []) k = Some ss \<and> scope \<in> set ss))"
  by (simp add: LoadFromEnv_def HasScope_New distinct_parse_entries)

text \<open>The text of a key table, as the variable is documented.\<close>

definition scopes_text :: "string list \<Rightarrow> string" where
  "scopes_text ss = join_with '','' ss"

definition keys_text :: "string list dict \<Rightarrow> string" where
  "keys_text keys = join_with '';'' (map (\<lambda>(k, ss). k @ ''='' @ scopes_text ss) keys)"

text \<open>A word that the parser takes as it stands.\<close>

definition plain_word :: "string \<Rightarrow> bool" where
  "plain_word w \<longleftrightarrow> w \<noteq> [] \<and> list_all plain_char w \<and> CHR '','' \<notin> set w \<and> CHR '';'' \<notin> set w \<and> CHR ''='' \<notin> set w"

lemma str_split_join:
  "\<forall>w\<in>set ws. b \<notin> set w \<Longrightarrow> ws \<noteq> [] \<Longrightarrow> str_split (join_with [b] ws) b = ws"
proof (induction ws)
  case (Cons w ws)
  then show ?case by (cases ws) (simp_all add: str_split_single str_split_append)
qed simp

lemma join_with_set: "set (join_with sep ws) \<subseteq> \<Union> (set ` set ws) \<union> set sep"
  by (induction sep ws rule: join_with.induct) auto

lemma trim_plain_word: "plain_word w \<Longrightarrow> trim_space w = w"
  by (auto simp: plain_word_def list_all_iff intro!: trim_space_plain)

lemma parse_scopes_text: "list_all plain_word ss \<Longrightarrow> ss \<noteq> [] \<Longrightarrow> parse_scopes (scopes_text ss) = ss"
proof -
  assume ss: "list_all plain_word ss" "ss \<noteq> []"
  then have "str_split (scopes_text ss) (CHR '','') = ss"
    unfolding scopes_text_def by (intro str_split_join) (auto simp: list_all_iff plain_word_def)
  moreover have "map trim_space ss = ss" using ss(1) by (intro map_idI) (auto simp: list_all_iff trim_plain_word)
  moreover have "filter (\<lambda>s. s \<noteq> []) ss = ss" using ss(1) by (intro filter_True) (auto simp: list_all_iff plain_word_def)
  ultimately show ?thesis by (simp add: parse_scopes_def)
qed

definition plain_entry :: "string \<times> string list \<Rightarrow> bool" where
  "plain_entry e \<longleftrightarrow> plain_word (fst e) \<and> list_all plain_word (snd e) \<and> snd e \<noteq> []"

abbreviation entry_text :: "string \<times> string list \<Rightarrow> string" where
  "entry_text \<equiv> \<lambda>(k, ss). k @ ''='' @ scopes_text ss"

lemma scopes_text_chars:
  assumes "list_all plain_word ss" "ss \<noteq> []"
  shows "scopes_text ss \<noteq> []" "list_all plain_char (scopes_text ss)" "CHR '';'' \<notin> set (scopes_text ss)"
proof -
  have "plain_char (CHR '','')" by (simp add: plain_char_def)
  then show "list_all plain_char (scopes_text ss)"
    using assms(1) join_with_set [of "'',''" ss] by (fastforce simp: scopes_text_def list_all_iff plain_word_def)
  show "CHR '';'' \<notin> set (scopes_text ss)"
    using assms(1) join_with_set [of "'',''" ss] by (auto simp: scopes_text_def list_all_iff plain_word_def)
  show "scopes_text ss \<noteq> []"
    using assms by (cases ss rule: list.exhaust; cases "tl ss") (auto simp: scopes_text_def plain_word_def)
qed

lemma trim_plain_text: "list_all plain_char t \<Longrightarrow> t \<noteq> [] \<Longrightarrow> trim_space t = t"
  by (rule trim_space_plain) (auto simp: list_all_iff)

lemma parse_entry_text:
  assumes "plain_entry (k, ss)"
  shows "parse_entry (entry_text (k, ss)) keys = AList.update k ss keys"
proof -
  have w: "plain_word k" "list_all plain_word ss" "ss \<noteq> []" using assms by (auto simp: plain_entry_def)
  note sc = scopes_text_chars [OF w(2,3)]
  have "list_all plain_char (k @ ''='' @ scopes_text ss)"
    using w(1) sc(2) by (simp add: plain_word_def) (simp add: plain_char_def)
  then have "trim_space (k @ ''='' @ scopes_text ss) = k @ ''='' @ scopes_text ss" by (rule trim_plain_text) simp
  moreover have "str_cut (k @ CHR ''='' # scopes_text ss) (CHR ''='') = Some (k, scopes_text ss)"
    using w(1) by (intro str_cut_append) (simp add: plain_word_def)
  ultimately show ?thesis
    using w by (simp add: parse_entry_def Let_def parse_scopes_text trim_plain_word)
qed

lemma parse_table_text:
  assumes "list_all plain_entry keys" "keys \<noteq> []" "distinct_keys keys"
  shows "map_of (fold parse_entry (str_split (keys_text keys) (CHR '';'')) []) = map_of keys"
proof -
  have "CHR '';'' \<notin> set (entry_text e)" if "e \<in> set keys" for e
    using that assms(1) scopes_text_chars(3) by (cases e) (auto simp: list_all_iff plain_entry_def plain_word_def)
  then have sp: "str_split (keys_text keys) (CHR '';'') = map entry_text keys"
    unfolding keys_text_def using assms(2) by (intro str_split_join) auto
  have "fold parse_entry (map entry_text keys) m = fold (\<lambda>(k, ss) m. AList.update k ss m) keys m" for m
    using assms(1) by (induction keys arbitrary: m) (auto simp: parse_entry_text [simplified])
  then show ?thesis using map_of_fold_update [OF assms(3), of "[]"] by (auto simp: sp fun_eq_iff split: option.splits)
qed

lemma replay_matches_append:
  "replay_matches mts r =
     r\<lparr>rr_Matched := rr_Matched r \<or> mts \<noteq> [],
       rr_Intents := rr_Intents r @
         concat (map (\<lambda>mt. map (\<lambda>i. \<lparr>fd_Rule = rule_SHA (m_Rule mt), fd_Kind = ri_Kind i, fd_Target = ri_Target i\<rparr>) (m_Intents mt)) mts)\<rparr>"
  by (induction mts arbitrary: r) simp_all

section \<open>Properties\<close>

text \<open>C26: the documented key table is what is enforced.  For the text of a key table (in the documented
  form, keys and scopes being printable words without separators), a key has exactly the scopes
  listed for it, besides the public scope; the deny sentinel is granted to nobody.\<close>

theorem api_keys_round_trip:
  assumes "list_all plain_entry keys" "keys \<noteq> []" "distinct_keys keys"
    and "getenv ''SLOPPY_API_KEYS'' = keys_text keys"
  shows "HasScope (LoadFromEnv getenv) k scope \<longleftrightarrow>
           scope \<noteq> ScopeDeny \<and> (scope = ScopePublic \<or> (\<exists>ss. map_of keys k = Some ss \<and> scope \<in> set ss))"
  by (simp add: LoadFromEnv_grants assms(4) parse_table_text [OF assms(1-3)])

theorem api_keys_round_trip_witness:
  "HasScope (LoadFromEnv (\<lambda>_. ''k1=ingest:write,status:read;k2=status:read'')) ''k2'' ScopeIngestWrite = False"
  using api_keys_round_trip [of "[(''k1'', [''ingest:write'', ''status:read'']), (''k2'', [''status:read''])]"
      "\<lambda>_. ''k1=ingest:write,status:read;k2=status:read''" "''k2''" ScopeIngestWrite]
  by (simp add: plain_entry_def plain_word_def plain_char_def keys_text_def scopes_text_def scope_defs)

text \<open>The middleware is a gate.  Whatever handler is behind it, a request reaches the handler only if
  its path is the public one or its API key has the scope of its path; every other request is
  answered 403 and changes nothing.  A path that is not one of the five routes reaches the
  handler under no key.\<close>

theorem middleware_is_a_gate:
  "(if hr_path r = ''/healthz'' \<or> (\<exists>ss. map_of (auth_keys a) (apiKeyFrom r) = Some ss \<and> map_of ss (ScopeForPath (hr_path r)) = Some True)
       \<and> hr_path r \<in> {''/status'', ''/v1/signals'', ''/v1/usage'', ''/v1/otlp/metrics''}
    then Middleware a h r s = h r s
    else hp_status (fst (Middleware a h r s)) = 403 \<and> snd (Middleware a h r s) = s)"
  by (auto simp: Middleware_def HasScope_def ScopeForPath_def scope_defs text_error_def Let_def split: option.splits if_splits)

text \<open>C39: an entry without a key opens the API.  An entry of the key table whose key is empty, as left by
  an unset variable in front of the equals sign, is not skipped: its scopes are granted to
  requests that carry no API key at all.\<close>

theorem empty_key_opens_api:
  assumes "list_all plain_word ss" "scope \<in> set ss" "scope \<noteq> ScopeDeny"
    and "getenv ''SLOPPY_API_KEYS'' = ''='' @ scopes_text ss"
    and "hr_header r ''X-API-Key'' = []" "hr_header r ''Authorization'' = []" "ScopeForPath (hr_path r) = scope"
  shows "Middleware (LoadFromEnv getenv) h r s = h r s"
proof -
  have ne: "ss \<noteq> []" using assms(2) by auto
  note sc = scopes_text_chars [OF assms(1) ne]
  have "list_all plain_char (''='' @ scopes_text ss)" using sc(2) by (simp add: plain_char_def)
  then have t: "trim_space (CHR ''='' # scopes_text ss) = CHR ''='' # scopes_text ss" using trim_plain_text by fastforce
  have "str_split (''='' @ scopes_text ss) (CHR '';'') = [''='' @ scopes_text ss]"
    using sc(3) by (intro str_split_single) auto
  then have "HasScope (LoadFromEnv getenv) [] scope"
    using assms(2,3) parse_scopes_text [OF assms(1) ne] by (simp add: LoadFromEnv_grants assms(4) parse_entry_def Let_def t)
  then show ?thesis using assms(5-7) by (simp add: Middleware_def Let_def apiKeyFrom_def has_prefix_def)
qed

theorem empty_key_opens_api_witness:
  "\<forall>h (s :: nat). Middleware (LoadFromEnv (\<lambda>_. ''=ingest:write'')) h
     \<lparr>hr_method = ''POST'', hr_path = ''/v1/signals'', hr_header = (\<lambda>_. []), hr_body = [], hr_broken = False\<rparr> s =
   h \<lparr>hr_method = ''POST'', hr_path = ''/v1/signals'', hr_header = (\<lambda>_. []), hr_body = [], hr_broken = False\<rparr> s"
  by (intro allI, rule empty_key_opens_api [of "[''ingest:write'']" "''ingest:write''"])
     (simp_all add: plain_word_def plain_char_def scopes_text_def scope_defs ScopeForPath_def)

text \<open>The deny sentinel parses as a scope like any other; only \<^verbatim>\<open>HasScope\<close> refuses it.\<close>

lemma deny_sentinel_parses: "parse_entry ''k=deny:all'' [] = [(''k'', [ScopeDeny])]"
  using parse_entry_text [of "''k''" "[''deny:all'']" "[]"]
  by (simp add: plain_entry_def plain_word_def plain_char_def scopes_text_def ScopeDeny_def)

text \<open>C27: the token broker denies by default.  A token is given only for a capability on the allow list;
  it is then the trimmed contents of the file named by the \<^verbatim>\<open>_FILE\<close> variable if that is set, and
  the plain variable otherwise, and it is never empty.\<close>

theorem broker_default_deny:
  assumes "Broker_Get (NewEnvBroker allowed) getenv files cap = Inr tok"
  shows "cap \<in> set allowed \<and> tok \<noteq> [] \<and>
         (let key = ''SLOPPY_TOKEN_'' @ to_upper cap
          in if getenv (key @ ''_FILE'') \<noteq> [] then map_option trim_space (files (getenv (key @ ''_FILE''))) = Some tok
             else getenv key = tok)"
  using assms by (auto simp: Broker_Get_def NewEnvBroker_def map_of_fold_set Let_def split: if_splits option.splits)

theorem broker_default_deny_witness:
  "Broker_Get (NewEnvBroker [''slack'']) (\<lambda>n. if n = ''SLOPPY_TOKEN_SLACK'' then ''xyz'' else []) (\<lambda>_. None) ''slack'' = Inr ''xyz''
   \<and> ''slack'' \<in> set [''slack'']"
proof
  show b: "Broker_Get (NewEnvBroker [''slack'']) (\<lambda>n. if n = ''SLOPPY_TOKEN_SLACK'' then ''xyz'' else []) (\<lambda>_. None) ''slack'' = Inr ''xyz''"
    by code_simp
  show "''slack'' \<in> set [''slack'']" using broker_default_deny [OF b] by blast
qed

text \<open>Replay reports what the reconciler decides.  There is one result per signal, in order; a signal
  is reported as matched exactly when a rule fires on it without state, and the intents listed
  are the reconciler's, in its order.\<close>

theorem replay_agrees:
  fixes rc :: Reconciler
  assumes "n < length signals"
  defines "r \<equiv> Replay_Run rc signals ! n" and "sig \<equiv> signals ! n"
  shows "length (Replay_Run rc signals) = length signals
         \<and> (rr_Matched r \<longleftrightarrow> EvaluateMatches rc sig None \<noteq> [])
         \<and> map (\<lambda>f. (fd_Kind f, fd_Target f)) (rr_Intents r) = map (\<lambda>i. (ri_Kind i, ri_Target i)) (Reconcile rc sig None)"
  using assms(1)
  by (simp add: r_def sig_def Replay_Run_def replay_one_def replay_matches_append Reconcile_def map_concat comp_def)

theorem replay_agrees_witness:
  "length (Replay_Run demo_reconciler [demo_signal]) = 1"
  using replay_agrees [of 0 "[demo_signal]" demo_reconciler] by simp

end
