(* ===== verification/Bootstrap.thy ===== *)
theory Bootstrap
  imports Handlers Recipe Loading Access
begin

text \<open>
  Package \<^verbatim>\<open>bootstrap\<close>: the actuator registry and the engine from the effective configuration.  What
  the process finds around it (environment, files, key file system, backends, third-party
  libraries, the outside world of the actuators) is one record.  The platforms are an
  association list in the order the map is iterated in, which Go does not fix.

  The lemmas: when wiring fails, which kinds a built registry supports, what it does with a
  kind that no platform handles, which settings it ignores, that the rules of the recipes do
  not depend on the order of a map, and what the built engine consists of.
\<close>

section \<open>The registry\<close>

record ('r, 'ast) process =
  pc_env :: env
  pc_secret_files :: "string \<Rightarrow> bytes option"
  pc_files :: files
  pc_fs :: FS
  pc_cel :: "'ast cel"
  pc_yaml :: yaml_lib
  pc_prices :: "bytes \<Rightarrow> PriceBook option result"
  pc_ed :: ed25519
  pc_generate :: "(bytes \<times> bytes) result"
  pc_backends :: "'r backends"
  pc_world :: World

definition githubBase :: "Platform \<Rightarrow> string" where
  "githubBase p = (if plt_BaseURL p \<noteq> [] then plt_BaseURL p else ''https://api.github.com'')"

definition broker_token :: "broker \<Rightarrow> env \<Rightarrow> (string \<Rightarrow> bytes option) \<Rightarrow> string \<Rightarrow> TokenFunc" where
  "broker_token b getenv files name =
     (\<lambda>_. case Broker_Get b getenv files name of Inl e \<Rightarrow> Inl (secret_message e) | Inr v \<Rightarrow> Inr v)"

definition enabled_names :: "Platform dict \<Rightarrow> string list" where
  "enabled_names ps = map fst (filter (\<lambda>(n, p). plt_Enabled p) ps)"

definition platform_actuator :: "string \<Rightarrow> Platform \<Rightarrow> (string \<Rightarrow> TokenFunc) \<Rightarrow> World actuator option" where
  "platform_actuator name p tok =
     (if name = ''litellm'' then Some (NewLiteLLM (plt_URL p) (tok ''litellm''))
      else if name = ''bifrost'' then Some (NewBifrost (plt_URL p) (tok ''bifrost''))
      else if name = ''envoy'' then Some (NewEnvoy (plt_URL p) (tok ''envoy''))
      else if name = ''webhook'' then Some (NewWebhook (plt_URL p) (tok ''webhook''))
      else if name = ''cloudflare'' then Some (NewCloudflare (plt_URL p) (tok ''cloudflare''))
      else if name = ''github'' then Some (NewGitHub (githubBase p) (tok ''github''))
      else if name = ''slack'' then Some (NewSlack (tok ''slack''))
      else None)"

fun wire :: "(string \<Rightarrow> TokenFunc) \<Rightarrow> Platform dict \<Rightarrow> World ActRegistry \<Rightarrow> World ActRegistry result" where
  "wire tok [] reg = Inr reg"
| "wire tok ((name, p) # ps) reg =
     (if \<not> plt_Enabled p then wire tok ps reg
      else case platform_actuator name p tok of
        None \<Rightarrow> Inl (''bootstrap: unknown platform '' @ quoted name)
      | Some a \<Rightarrow> wire tok ps (Register reg a))"

definition BuildRegistry :: "env \<Rightarrow> (string \<Rightarrow> bytes option) \<Rightarrow> Effective \<Rightarrow> World ActRegistry result" where
  "BuildRegistry getenv files eff =
     (let ps = platforms_of (eff_File eff);
          tok = broker_token (NewEnvBroker (enabled_names ps)) getenv files
      in wire tok ps (Register NewRegistry Log))"

section \<open>Rules\<close>

datatype boot_error =
    BootStat error
  | BootRules load_error
  | BootRecipe recipe_error
  | BootNoRules "string list"
  | BootReconciler rule_error
  | BootKey key_error
  | BootStore error
  | BootPricebook error
  | BootPlatform error

text \<open>A missing path and a path whose error text says that no rules were found are passed over.\<close>

fun loadRulesLenient :: "(bytes \<Rightarrow> rawRule result) \<Rightarrow> files \<Rightarrow> string list \<Rightarrow> boot_error + Rule list" where
  "loadRulesLenient yaml fl [] = Inr []"
| "loadRulesLenient yaml fl (p # ps) =
     (case fl_stat fl p of
        NoFile \<Rightarrow> loadRulesLenient yaml fl ps
      | StatError e \<Rightarrow> Inl (BootStat e)
      | _ \<Rightarrow>
          (case LoadRules yaml fl p of
             Inl e \<Rightarrow>
               (if str_contains (load_message e) ''no rules found'' then loadRulesLenient yaml fl ps
                else Inl (BootRules e))
           | Inr rs \<Rightarrow>
               (case loadRulesLenient yaml fl ps of Inl e \<Rightarrow> Inl e | Inr rest \<Rightarrow> Inr (rs @ rest))))"

definition recipes_of :: "File \<Rightarrow> RecipeConfig dict" where
  "recipes_of f = (case f_Recipes f of None \<Rightarrow> [] | Some d \<Rightarrow> d)"

definition recipePlatforms :: "Effective \<Rightarrow> Platforms" where
  "recipePlatforms eff =
     \<lparr>pl_Github = (case map_of (platforms_of (eff_File eff)) ''github'' of
                     None \<Rightarrow> zero_target
                   | Some g \<Rightarrow> \<lparr>tg_Enabled = plt_Enabled g, tg_Repo = plt_Repo g, tg_Channel = []\<rparr>),
      pl_Slack = (case map_of (platforms_of (eff_File eff)) ''slack'' of
                    None \<Rightarrow> zero_target
                  | Some s \<Rightarrow> \<lparr>tg_Enabled = plt_Enabled s, tg_Repo = [], tg_Channel = plt_Channel s\<rparr>)\<rparr>"

fun render_names :: "yaml_lib \<Rightarrow> RecipeConfig dict \<Rightarrow> Platforms \<Rightarrow> string list \<Rightarrow> recipe_error + Rule list" where
  "render_names yl rcs plat [] = Inr []"
| "render_names yl rcs plat (n # ns) =
     (case map_of rcs n of
        None \<Rightarrow> render_names yl rcs plat ns
      | Some rc \<Rightarrow>
          (if \<not> rcc_Enabled rc then render_names yl rcs plat ns
           else case Render yl n (rcc_Params rc) plat of
             Inl e \<Rightarrow> Inl e
           | Inr (_, rs) \<Rightarrow>
               (case render_names yl rcs plat ns of Inl e \<Rightarrow> Inl e | Inr rest \<Rightarrow> Inr (rs @ rest))))"

definition RenderRecipes :: "yaml_lib \<Rightarrow> Effective \<Rightarrow> recipe_error + Rule list" where
  "RenderRecipes yl eff =
     (let rcs = recipes_of (eff_File eff)
      in render_names yl rcs (recipePlatforms eff) (sort (map fst rcs)))"

definition RenderRecipeText :: "yaml_lib \<Rightarrow> Effective \<Rightarrow> string \<Rightarrow> recipe_error + string \<times> string" where
  "RenderRecipeText yl eff name =
     (let raw = (case map_of (recipes_of (eff_File eff)) name of None \<Rightarrow> None | Some rc \<Rightarrow> rcc_Params rc)
      in case Render yl name raw (recipePlatforms eff) of
           Inl e \<Rightarrow> Inl e
         | Inr (t, rs) \<Rightarrow> Inr (t, case rs of [] \<Rightarrow> [] | r # _ \<Rightarrow> rule_SHA r))"

section \<open>The engine\<close>

record 'r built =
  bt_engine :: "('r store_value, World) Engine"
  bt_ledger :: CostLedger
  bt_metrics :: registry_ptr

definition fail_mode :: "string \<Rightarrow> FailMode" where
  "fail_mode s = (if s = ''closed'' then FailClosed else FailOpen)"

definition load_prices :: "('r, 'ast) process \<Rightarrow> string \<Rightarrow> PriceBook option result" where
  "load_prices pc path =
     (if path = [] then Inr None
      else case fl_read (pc_files pc) path of
        NotExist \<Rightarrow> Inl (''open '' @ path @ '': no such file or directory'')
      | ReadError e \<Rightarrow> Inl e
      | Contents b \<Rightarrow> LoadPriceBook (pc_prices pc) b)"

definition boot_rules :: "('r, 'ast) process \<Rightarrow> Effective \<Rightarrow> boot_error + Reconciler" where
  "boot_rules pc eff =
     (case loadRulesLenient (yl_Rule (pc_yaml pc)) (pc_files pc) (f_Rules (eff_File eff)) of
        Inl e \<Rightarrow> Inl e
      | Inr rs \<Rightarrow>
          (case RenderRecipes (pc_yaml pc) eff of
             Inl e \<Rightarrow> Inl (BootRecipe e)
           | Inr recs \<Rightarrow>
               (if rs @ recs = [] then Inl (BootNoRules (f_Rules (eff_File eff)))
                else case NewReconciler (pc_cel pc) (rs @ recs) of
                  Inl e \<Rightarrow> Inl (BootReconciler e)
                | Inr rc \<Rightarrow> Inr rc)))"

text \<open>What follows the opening of the store; the store is closed again on an error.\<close>

definition boot_engine :: "('r, 'ast) process \<Rightarrow> Effective \<Rightarrow> Reconciler \<Rightarrow> Signer \<Rightarrow> 'r store_value \<Rightarrow> boot_error + 'r built" where
  "boot_engine pc eff rc signer st =
     (case load_prices pc (ecf_Pricebook (f_Engine (eff_File eff))) of
        Inl e \<Rightarrow> Inl (BootPricebook e)
      | Inr pb \<Rightarrow>
          (let l = New_ledger pb; m = New_metrics; fm = ecf_FailMode (f_Engine (eff_File eff))
           in case BuildRegistry (pc_env pc) (pc_secret_files pc) eff of
                Inl e \<Rightarrow> Inl (BootPlatform e)
              | Inr reg \<Rightarrow>
                  Inr \<lparr>bt_engine =
                         New_engine w_now rc reg (iface_ops (pc_ed pc) (bk_redis (pc_backends pc))) st (pc_world pc) signer
                           [WithLedger (Some l), WithMetrics m, WithFailMode (fail_mode (fmc_Default fm)),
                            WithFailModeNotify (fail_mode (fmc_Notify fm))],
                       bt_ledger = l, bt_metrics = m\<rparr>))"

definition BuildEngine :: "('r, 'ast) process \<Rightarrow> Effective \<Rightarrow> FS \<times> (boot_error + 'r built)" where
  "BuildEngine pc eff =
     (case boot_rules pc eff of
        Inl e \<Rightarrow> (pc_fs pc, Inl e)
      | Inr rc \<Rightarrow>
          (case LoadOrCreateSigner (pc_ed pc) (pc_fs pc) (ecf_SigningKey (f_Engine (eff_File eff))) (pc_generate pc) of
             (fs, Inl e) \<Rightarrow> (fs, Inl (BootKey e))
           | (fs, Inr signer) \<Rightarrow>
               (let sc = f_Store (eff_File eff)
                in case OpenStore (pc_files pc) (pc_backends pc) (sto_Kind sc) (sto_Path sc) (sto_RedisAddr sc)
                          [WithCheckpointSigner (Some signer)] of
                     Inl e \<Rightarrow> (fs, Inl (BootStore e))
                   | Inr st \<Rightarrow> (fs, boot_engine pc eff rc signer st))))"

section \<open>Wiring\<close>

lemma platform_actuator_known: "platform_actuator name p tok = None \<longleftrightarrow> name \<notin> set knownPlatforms"
  by (simp add: platform_actuator_def knownPlatforms_def)

lemma check_platform_known: "check_platform n p = [] \<Longrightarrow> n \<in> set knownPlatforms"
  by (rule ccontr) (simp add: check_platform_def Let_def)

lemma valid_platform_known:
  assumes "Validate_file f = []" and "(n, p) \<in> set (platforms_of f)"
  shows "n \<in> set knownPlatforms"
proof -
  from assms(1) have "concat (map (\<lambda>(name, p). check_platform name p) (platforms_of f)) = []"
    by (simp only: Validate_file_def append_is_Nil_conv)
  with assms(2) have "check_platform n p = []" by fastforce
  then show ?thesis by (rule check_platform_known)
qed

lemma wire_ok_iff:
  "(\<exists>reg'. wire tok ps reg = Inr reg') \<longleftrightarrow> (\<forall>(n, p) \<in> set ps. plt_Enabled p \<longrightarrow> n \<in> set knownPlatforms)"
proof (induction ps arbitrary: reg)
  case (Cons x ps)
  obtain n p where "x = (n, p)" by (cases x)
  with Cons show ?case using platform_actuator_known [of n p tok] by (auto split: option.splits)
qed simp

lemma Supports_Register: "Supports reg k \<Longrightarrow> Supports (Register reg a) k"
  by (simp add: Supports_def map_of_Register)

lemma wire_supports: "wire tok ps reg = Inr reg' \<Longrightarrow> Supports reg k \<Longrightarrow> Supports reg' k"
proof (induction ps arbitrary: reg)
  case (Cons x ps)
  obtain n p where "x = (n, p)" by (cases x)
  with Cons Supports_Register show ?case by (auto split: option.splits if_splits)
qed simp

lemma Log_supports: "k \<in> set KnownActionKinds \<Longrightarrow> map_of (Register NewRegistry Log) k = Some Log"
  by (auto simp: map_of_Register Log_def KnownActionKinds_def)

text \<open>A kind that no enabled platform handles stays with the log actuator.\<close>

definition handled_by :: "Platform dict \<Rightarrow> ActionKind \<Rightarrow> bool" where
  "handled_by ps k \<longleftrightarrow>
     (\<exists>(n, p) \<in> set ps. plt_Enabled p \<and> (\<exists>a. platform_actuator n p (\<lambda>_ _. Inr []) = Some a \<and> k \<in> set (Capabilities a)))"

lemma platform_capabilities:
  "platform_actuator n p tok = Some a \<Longrightarrow> \<exists>a'. platform_actuator n p tok' = Some a' \<and> Capabilities a' = Capabilities a"
  by (auto simp: platform_actuator_def NewLiteLLM_def NewBifrost_def NewEnvoy_def NewWebhook_def NewCloudflare_def
      NewGitHub_def NewSlack_def newHTTPRoute_def Let_def split: if_splits)

lemma wire_unhandled:
  "wire tok ps reg = Inr reg' \<Longrightarrow> \<not> handled_by ps k \<Longrightarrow> map_of reg' k = map_of reg k"
proof (induction ps arbitrary: reg)
  case (Cons x ps)
  obtain n p where x: "x = (n, p)" by (cases x)
  from Cons.prems(2) have u: "\<not> handled_by ps k" by (auto simp: handled_by_def)
  show ?case
  proof (cases "plt_Enabled p")
    case False
    with Cons u x show ?thesis by simp
  next
    case True
    with Cons.prems(1) x obtain a where a: "platform_actuator n p tok = Some a" "wire tok ps (Register reg a) = Inr reg'"
      by (auto split: option.splits)
    from platform_capabilities [OF a(1)] Cons.prems(2) True x have "k \<notin> set (Capabilities a)"
      by (force simp: handled_by_def)
    with Cons.IH [OF a(2) u] show ?thesis by (simp add: map_of_Register)
  qed
qed simp

lemma http_Apply_name [simp]: "rc_Actuator (fst (fst (http_Apply a i w))) = hr_name a"
  by (simp add: http_Apply_def failed_receipt_def applied_receipt_def split: prod.splits option.splits)

definition demo_eff :: "Platform dict \<Rightarrow> Effective" where
  "demo_eff ps = \<lparr>eff_File = Defaults\<lparr>f_Platforms := Some ps\<rparr>, eff_prov = []\<rparr>"

definition on_platform :: "string \<Rightarrow> Platform" where
  "on_platform url = zero_platform\<lparr>plt_Enabled := True, plt_URL := url\<rparr>"

lemma two_platforms:
  "BuildRegistry getenv files (demo_eff [(''bifrost'', on_platform []), (''litellm'', on_platform [])]) =
     Inr (let tok = broker_token (NewEnvBroker [''bifrost'', ''litellm'']) getenv files
          in Register (Register (Register NewRegistry Log) (NewBifrost [] (tok ''bifrost''))) (NewLiteLLM [] (tok ''litellm'')))"
  "BuildRegistry getenv files (demo_eff [(''litellm'', on_platform []), (''bifrost'', on_platform [])]) =
     Inr (let tok = broker_token (NewEnvBroker [''litellm'', ''bifrost'']) getenv files
          in Register (Register (Register NewRegistry Log) (NewLiteLLM [] (tok ''litellm''))) (NewBifrost [] (tok ''bifrost'')))"
  by (simp_all add: BuildRegistry_def demo_eff_def on_platform_def platforms_of_def platform_actuator_def enabled_names_def Let_def)

section \<open>The built engine\<close>

lemma New_engine_built [simp]:
  "eng_failMode (New_engine wall rc reg ops st w sg [WithLedger l, WithMetrics m, WithFailMode a, WithFailModeNotify b]) = a"
  "eng_failModeNotify (New_engine wall rc reg ops st w sg [WithLedger l, WithMetrics m, WithFailMode a, WithFailModeNotify b]) = b"
  "eng_store (New_engine wall rc reg ops st w sg [WithLedger l, WithMetrics m, WithFailMode a, WithFailModeNotify b]) = ops"
  "eng_signer (New_engine wall rc reg ops st w sg [WithLedger l, WithMetrics m, WithFailMode a, WithFailModeNotify b]) = sg"
  "m_store (eng_mem (New_engine wall rc reg ops st w sg [WithLedger l, WithMetrics m, WithFailMode a, WithFailModeNotify b])) = st"
  by (simp_all add: New_engine_def WithLedger_def WithMetrics_def WithFailMode_def WithFailModeNotify_def)

text \<open>The parts of the configuration that the engine is built from.\<close>

lemma BuildEngine_cong:
  assumes "f_Rules (eff_File e) = f_Rules (eff_File e')" "f_Recipes (eff_File e) = f_Recipes (eff_File e')"
    "f_Platforms (eff_File e) = f_Platforms (eff_File e')" "f_Engine (eff_File e) = f_Engine (eff_File e')"
    "f_Store (eff_File e) = f_Store (eff_File e')"
  shows "BuildEngine pc e = BuildEngine pc e'"
  unfolding BuildEngine_def boot_rules_def boot_engine_def RenderRecipes_def recipes_of_def recipePlatforms_def
    platforms_of_def BuildRegistry_def assms by (rule refl)

lemma OpenSQLite_fields:
  assumes "OpenSQLite db faults clock summation rows opts = Inr s"
  shows "st_db s = db \<and> st_signer s = cfg_checkpointSigner (applyStoreOptions opts)"
  using assms by (auto simp: OpenSQLite_def exec_def next_tick_def set_db_def Let_def split: option.splits fault.splits prod.splits)

lemma BuildEngine_fields:
  assumes "BuildEngine pc eff = (fs, Inr b)" and "sto_Kind (f_Store (eff_File eff)) = ''sqlite''"
  obtains s where "bk_sqlite (pc_backends pc) (sto_Path (f_Store (eff_File eff)))
      [WithCheckpointSigner (Some (eng_signer (bt_engine b)))] = Inr s"
    "m_store (eng_mem (bt_engine b)) = SqliteStore s"
    "eng_store (bt_engine b) = iface_ops (pc_ed pc) (bk_redis (pc_backends pc))"
    "eng_failMode (bt_engine b) = fail_mode (fmc_Default (ecf_FailMode (f_Engine (eff_File eff))))"
    "eng_failModeNotify (bt_engine b) = fail_mode (fmc_Notify (ecf_FailMode (f_Engine (eff_File eff))))"
  using assms
  by (auto simp: BuildEngine_def boot_engine_def OpenStore_def Let_def split: sum.splits prod.splits)

lemma BuildEngine_signer:
  assumes "BuildEngine pc eff = (fs, Inr b)"
  shows "LoadOrCreateSigner (pc_ed pc) (pc_fs pc) (ecf_SigningKey (f_Engine (eff_File eff))) (pc_generate pc) =
    (fs, Inr (eng_signer (bt_engine b)))"
  using assms
  by (auto simp: BuildEngine_def boot_engine_def Let_def split: sum.splits prod.splits)

section \<open>Properties\<close>

text \<open>C31: Wiring the platforms succeeds exactly when every enabled platform is a known one, validated
  or not; and whatever registry it gives has an actuator for every action kind.
\<close>

theorem registry_wiring:
  "((\<exists>reg. BuildRegistry getenv files eff = Inr reg) \<longleftrightarrow>
      list_all (\<lambda>(n, p). plt_Enabled p \<longrightarrow> n \<in> set knownPlatforms) (platforms_of (eff_File eff)))
   \<and> (\<forall>reg. BuildRegistry getenv files eff = Inr reg \<longrightarrow> list_all (Supports reg) KnownActionKinds)"
proof (intro conjI allI impI)
  show "(\<exists>reg. BuildRegistry getenv files eff = Inr reg) \<longleftrightarrow>
      list_all (\<lambda>(n, p). plt_Enabled p \<longrightarrow> n \<in> set knownPlatforms) (platforms_of (eff_File eff))"
    unfolding BuildRegistry_def Let_def by (simp add: wire_ok_iff list_all_iff)
  fix reg
  assume r: "BuildRegistry getenv files eff = Inr reg"
  have "Supports (Register NewRegistry Log) k" if "k \<in> set KnownActionKinds" for k
    using Log_supports [OF that] by (simp add: Supports_def)
  with r wire_supports show "list_all (Supports reg) KnownActionKinds"
    unfolding BuildRegistry_def Let_def by (fastforce simp: list_all_iff)
qed

theorem registry_wiring_witness:
  "(\<exists>reg. BuildRegistry (\<lambda>_. []) (\<lambda>_. None) (demo_eff [(''slack'', on_platform ''https://x'')]) = Inr reg \<and> list_all (Supports reg) KnownActionKinds)
   \<and> (\<nexists>reg. BuildRegistry (\<lambda>_. []) (\<lambda>_. None) (demo_eff [(''teams'', on_platform ''https://x'')]) = Inr reg)"
  using registry_wiring [of "\<lambda>_. []" "\<lambda>_. None" "demo_eff [(''slack'', on_platform ''https://x'')]"]
    registry_wiring [of "\<lambda>_. []" "\<lambda>_. None" "demo_eff [(''teams'', on_platform ''https://x'')]"]
  by (auto simp: demo_eff_def on_platform_def platforms_of_def knownPlatforms_def)

text \<open>In a registry built from a configuration an intent of a known kind that no enabled
  platform handles is reported as applied by the log actuator.  It sends no request, neither
  for the action nor for an issue or a page.
\<close>

theorem unhandled_kind_is_logged:
  assumes "BuildRegistry getenv files eff = Inr reg" and "ri_Kind i \<in> set KnownActionKinds"
    and "\<not> handled_by (platforms_of (eff_File eff)) (ri_Kind i)"
  shows "snd (fst (Registry_Apply reg i w)) = None \<and> rc_Outcome (fst (fst (Registry_Apply reg i w))) = OutcomeApplied
    \<and> rc_Actuator (fst (fst (Registry_Apply reg i w))) = ''log'' \<and> w_sent (snd (Registry_Apply reg i w)) = w_sent w"
proof -
  from assms(1) wire_unhandled [OF _ assms(3)] have "map_of reg (ri_Kind i) = map_of (Register NewRegistry Log) (ri_Kind i)"
    unfolding BuildRegistry_def Let_def by blast
  with Log_supports [OF assms(2)] have "map_of reg (ri_Kind i) = Some Log" by simp
  then show ?thesis
    by (simp add: Registry_Apply_def Log_def log_Apply_def applied_receipt_def Let_def)
qed

theorem unhandled_kind_is_logged_witness:
  "\<exists>reg. BuildRegistry (\<lambda>_. []) (\<lambda>_. None) (demo_eff [(''slack'', on_platform [])]) = Inr reg
     \<and> rc_Actuator (fst (fst (Registry_Apply reg (zero_intent\<lparr>ri_Kind := ActionThrottleTenant\<rparr>) demo_world))) = ''log''"
proof -
  let ?eff = "demo_eff [(''slack'', on_platform [])]"
  obtain reg where r: "BuildRegistry (\<lambda>_. []) (\<lambda>_. None) ?eff = Inr reg"
    by (simp add: BuildRegistry_def demo_eff_def on_platform_def platforms_of_def platform_actuator_def Let_def)
  have h: "\<not> handled_by (platforms_of (eff_File ?eff)) (ri_Kind (zero_intent\<lparr>ri_Kind := ActionThrottleTenant\<rparr>))"
    by (simp add: handled_by_def demo_eff_def platforms_of_def platform_actuator_def NewSlack_def ActionThrottleTenant_def ActionPage_def)
  have k: "ri_Kind (zero_intent\<lparr>ri_Kind := ActionThrottleTenant\<rparr>) \<in> set KnownActionKinds" by (simp add: KnownActionKinds_def)
  from unhandled_kind_is_logged [OF r k h] r show ?thesis by blast
qed

text \<open>The setting \<^verbatim>\<open>token_env\<close> of a platform has no effect on the registry: whatever environment variable
  it names, the token comes from the variable that the name of the platform gives.
\<close>

theorem token_env_ignored:
  "BuildRegistry getenv files (eff\<lparr>eff_File := (eff_File eff)\<lparr>f_Platforms :=
      map_option (map (\<lambda>(n, p). (n, p\<lparr>plt_TokenEnv := v n\<rparr>))) (f_Platforms (eff_File eff))\<rparr>\<rparr>) =
   BuildRegistry getenv files eff"
proof -
  have n: "enabled_names (map (\<lambda>(n, p). (n, p\<lparr>plt_TokenEnv := v n\<rparr>)) ps) = enabled_names ps" for ps
    by (induction ps) (auto simp: enabled_names_def)
  have p: "platform_actuator m (p\<lparr>plt_TokenEnv := u\<rparr>) tok = platform_actuator m p tok" for m p u tok
    by (simp add: platform_actuator_def githubBase_def)
  have "wire tok (map (\<lambda>(n, p). (n, p\<lparr>plt_TokenEnv := v n\<rparr>)) ps) reg = wire tok ps reg" for tok ps reg
    by (induction ps arbitrary: reg) (auto simp: p split: option.splits)
  with n show ?thesis
    by (cases "f_Platforms (eff_File eff)") (simp_all add: BuildRegistry_def platforms_of_def Let_def)
qed

text \<open>With two gateways enabled that both handle an action, which of them is called depends on
  the order in which the map of platforms is iterated: the two orders of one map give
  registries that route the same intent to different gateways.
\<close>

theorem registry_depends_on_map_order:
  "\<exists>ps qs reg reg'. mset ps = mset qs \<and> distinct (map fst ps)
     \<and> BuildRegistry getenv files (demo_eff ps) = Inr reg \<and> BuildRegistry getenv files (demo_eff qs) = Inr reg'
     \<and> rc_Actuator (fst (fst (Registry_Apply reg (zero_intent\<lparr>ri_Kind := ActionRouteOverride\<rparr>) w))) = ''litellm''
     \<and> rc_Actuator (fst (fst (Registry_Apply reg' (zero_intent\<lparr>ri_Kind := ActionRouteOverride\<rparr>) w))) = ''bifrost''"
proof -
  let ?b = "(''bifrost'', on_platform [])" and ?l = "(''litellm'', on_platform [])"
  let ?i = "zero_intent\<lparr>ri_Kind := ActionRouteOverride\<rparr>"
  obtain reg where r: "BuildRegistry getenv files (demo_eff [?b, ?l]) = Inr reg"
    and n: "rc_Actuator (fst (fst (Registry_Apply reg ?i w))) = ''litellm''"
    by (simp add: two_platforms Registry_Apply_def map_of_Register NewLiteLLM_def newHTTPRoute_def Let_def)
  obtain reg' where r': "BuildRegistry getenv files (demo_eff [?l, ?b]) = Inr reg'"
    and n': "rc_Actuator (fst (fst (Registry_Apply reg' ?i w))) = ''bifrost''"
    by (simp add: two_platforms Registry_Apply_def map_of_Register NewBifrost_def newHTTPRoute_def Let_def)
  from r n r' n' show ?thesis by (intro exI [of _ "[?b, ?l]"] exI [of _ "[?l, ?b]"]) simp
qed

text \<open>C37: The rules that come from recipes do not depend on the order of the map of recipes: any
  two lists of the same entries, with each name once, render the same rules in the same
  order or the same error.
\<close>

theorem recipes_order_irrelevant:
  assumes "mset ps = mset qs" and "distinct (map fst ps)"
  shows "RenderRecipes yl (eff\<lparr>eff_File := (eff_File eff)\<lparr>f_Recipes := Some ps\<rparr>\<rparr>) =
         RenderRecipes yl (eff\<lparr>eff_File := (eff_File eff)\<lparr>f_Recipes := Some qs\<rparr>\<rparr>)"
proof -
  have names: "sort (map fst ps) = sort (map fst qs)"
    using assms(1) by (intro sort_mset_cong) (metis mset_map)
  have look: "map_of ps = map_of qs" by (rule map_of_mset_cong [OF assms])
  have "render_names yl ps plat ns = render_names yl qs plat ns" for plat ns
    by (induction ns) (simp_all only: render_names.simps look)
  with names show ?thesis by (simp add: RenderRecipes_def recipes_of_def recipePlatforms_def platforms_of_def Let_def)
qed

definition demo_recipes :: "RecipeConfig dict" where
  "demo_recipes =
     [(''latency-guard'', \<lparr>rcc_Enabled = True, rcc_Params = None\<rparr>), (''cost-guard'', \<lparr>rcc_Enabled = False, rcc_Params = None\<rparr>)]"

theorem recipes_order_irrelevant_witness:
  "RenderRecipes demo_yaml ((demo_eff [])\<lparr>eff_File := (eff_File (demo_eff []))\<lparr>f_Recipes := Some demo_recipes\<rparr>\<rparr>) =
   RenderRecipes demo_yaml ((demo_eff [])\<lparr>eff_File := (eff_File (demo_eff []))\<lparr>f_Recipes := Some (rev demo_recipes)\<rparr>\<rparr>)"
  by (rule recipes_order_irrelevant) (simp_all add: demo_recipes_def)

text \<open>A rules path that exists and has a rule that does not parse is passed over without an error
  when the text of the error happens to contain the words that mark an empty path, for
  instance because the rule's \<^verbatim>\<open>for:\<close> value contains them.
\<close>

theorem lenient_load_hides_parse_error:
  assumes "fl_stat fl p = RegularFile" and "fl_read fl p = Contents b"
    and "yaml b = Inr raw" and "raw_On raw \<noteq> []" and "raw_When raw \<noteq> []"
    and "parse_duration (raw_For raw) = None" and "str_contains (raw_For raw) ''no rules found''"
  shows "LoadRules yaml fl p = Inl (RulesParse p (BadFor (raw_For raw))) \<and> loadRulesLenient yaml fl [p] = Inr []"
proof -
  have "raw_For raw \<noteq> []" using assms(7) by (auto simp: str_contains_def)
  then have l: "LoadRules yaml fl p = Inl (RulesParse p (BadFor (raw_For raw)))"
    using assms by (simp add: LoadRules_def rule_files_def ParseRules_def)
  have "load_message (RulesParse p (BadFor (raw_For raw))) =
      (p @ '': rules: bad `for:` '' @ [dquote]) @ raw_For raw @ ([dquote] @ '': time: invalid duration '' @ quoted (raw_For raw))"
    by (simp add: quoted_def)
  then have "sublist (raw_For raw) (load_message (RulesParse p (BadFor (raw_For raw))))"
    unfolding sublist_def by blast
  then have "str_contains (load_message (RulesParse p (BadFor (raw_For raw)))) ''no rules found''"
    using assms(7) unfolding str_contains_iff by (rule sublist_order.order_trans [rotated])
  with l assms(1) show ?thesis by simp
qed

theorem lenient_load_hides_parse_error_witness:
  "loadRulesLenient (\<lambda>b. Inr \<lparr>raw_On = ''cost'', raw_When = ''true'', raw_For = ''no rules found'', raw_Then = [],
        raw_With = \<lparr>with_DryRun = False, with_IntentBudget = [], with_Rollback = []\<rparr>\<rparr>)
     \<lparr>fl_stat = (\<lambda>_. RegularFile), fl_dir = (\<lambda>_. []), fl_read = (\<lambda>_. Contents [])\<rparr> [''r.yaml''] = Inr []"
proof -
  have "parse_duration ''no rules found'' = None" "str_contains ''no rules found'' ''no rules found''"
    by code_simp+
  then show ?thesis
    by (intro lenient_load_hides_parse_error [THEN conjunct2]) (simp_all; fail)+
qed

text \<open>C5: The engine that is built from a configuration with the SQLite store and the fail mode
  closed applies a gateway action at most once: its handlers run under any schedule, with any
  driver failures, and at most one handler of an id holds the right to actuate or has
  actuated.  The store signs its checkpoints with the key that signs the intents.
\<close>

theorem built_engine_applies_at_most_once:
  assumes "BuildEngine pc eff = (fs, Inr b)" and "sto_Kind (f_Store (eff_File eff)) = ''sqlite''"
    and "bk_sqlite (pc_backends pc) = (\<lambda>path. OpenSQLite (dbs path) faults clock summation rows)"
    and "db_inv (dbs (sto_Path (f_Store (eff_File eff))))"
    and "fmc_Default (ecf_FailMode (f_Engine (eff_File eff))) = ''closed''"
    and "list_all (\<lambda>t. th_pc t = Start \<and> ri_Kind (th_intent t) \<notin> {ActionOpenIssue, ActionPage}) ts"
  shows "holders i (fst (interleave (bt_engine b) sched ts (eng_mem (bt_engine b)))) \<le> 1
    \<and> (\<exists>s. m_store (eng_mem (bt_engine b)) = SqliteStore s \<and> st_signer s = Some (eng_signer (bt_engine b)))"
proof -
  from assms(1,2) obtain s where s: "bk_sqlite (pc_backends pc) (sto_Path (f_Store (eff_File eff)))
      [WithCheckpointSigner (Some (eng_signer (bt_engine b)))] = Inr s"
    and m: "m_store (eng_mem (bt_engine b)) = SqliteStore s"
    and o: "eng_store (bt_engine b) = iface_ops (pc_ed pc) (bk_redis (pc_backends pc))"
    and f: "eng_failMode (bt_engine b) = fail_mode (fmc_Default (ecf_FailMode (f_Engine (eff_File eff))))"
    by (rule BuildEngine_fields)
  from s assms(3) OpenSQLite_fields have q: "st_db s = dbs (sto_Path (f_Store (eff_File eff)))"
      "st_signer s = Some (eng_signer (bt_engine b))"
    by (fastforce simp: applyStoreOptions_def WithCheckpointSigner_def)+
  have i: "iface_inv (m_store (eng_mem (bt_engine b)))"
    using m q(1) assms(4) by (simp add: sqlite_inv_def)
  have "holders i ts = 0"
    using assms(6) by (auto simp: holders_def holder_def filter_empty_conv list_all_iff)
  moreover have "\<And>t. t \<in> set ts \<Longrightarrow> ri_ID (th_intent t) = i \<Longrightarrow> failModeFor (bt_engine b) (ri_Kind (th_intent t)) = FailClosed"
    using assms(5,6) f by (auto simp: failModeFor_def fail_mode_def list_all_iff)
  ultimately have "holders i (fst (interleave (bt_engine b) sched ts (eng_mem (bt_engine b)))) \<le> 1"
    using store.interleave_gate [OF opened.store_axioms o i, of ts i sched "fst (interleave (bt_engine b) sched ts (eng_mem (bt_engine b)))"
        "snd (interleave (bt_engine b) sched ts (eng_mem (bt_engine b)))"] by simp
  with m q(2) show ?thesis by blast
qed

definition demo_files :: files where
  "demo_files = \<lparr>fl_stat = (\<lambda>_. NoFile), fl_dir = (\<lambda>_. []),
     fl_read = (\<lambda>p. if p = ''sloppy.yaml'' then Contents [] else NotExist)\<rparr>"

definition demo_process :: "(memory, string) process" where
  "demo_process =
     \<lparr>pc_env = (\<lambda>_. []), pc_secret_files = (\<lambda>_. None), pc_files = demo_files, pc_fs = demo_fs, pc_cel = demo_cel,
      pc_yaml = demo_yaml, pc_prices = (\<lambda>_. Inr None), pc_ed = demo_ed, pc_generate = Inr (take 32 demo_priv, demo_priv),
      pc_backends = \<lparr>bk_sqlite = (\<lambda>path. OpenSQLite empty_db (\<lambda>_. None) (\<lambda>_. 0) (\<lambda>_. F64 0) (\<lambda>_. 0)),
                     bk_redis = demo_redis, bk_server = (\<lambda>_. demo_memory)\<rparr>,
      pc_world = demo_world\<rparr>"

definition demo_config :: Effective where
  "demo_config = (demo_eff [])\<lparr>eff_File := (eff_File (demo_eff []))\<lparr>f_Recipes :=
     Some [(''fallback-storm'', \<lparr>rcc_Enabled = True, rcc_Params = None\<rparr>)]\<rparr>\<rparr>"

lemma demo_built: "\<exists>fs b. BuildEngine demo_process demo_config = (fs, Inr b)"
proof -
  have r: "\<exists>t r. Render demo_yaml ''fallback-storm'' None p = Inr (t, [r]) \<and> rule_When r = ''true''" for p
    by (simp add: Render_def recipe_registry_def decode_params_def dict_of_def fallbackStormDefaults_def
        fallbackStormValidate_def ParseRules_def demo_yaml_def raw_actions_def Let_def)
  obtain rc where rc: "boot_rules demo_process demo_config = Inr rc"
    using r [of "recipePlatforms demo_config"]
    by (auto simp: boot_rules_def RenderRecipes_def recipes_of_def demo_config_def demo_eff_def demo_process_def Defaults_def
        applyDefaults_def zero_file_def demo_files_def NewReconciler_def CompileCondition_def demo_cel_def Let_def)
  obtain fs where fs: "LoadOrCreateSigner demo_ed demo_fs ''sloppy.key'' (Inr (take 32 demo_priv, demo_priv)) =
      (fs, Inr (signerFromPrivate demo_ed demo_priv))"
    by (simp add: LoadOrCreateSigner_def demo_fs_def ReadFile_def WriteFile_def exportPublicKey_def Let_def)
  obtain s where s: "OpenSQLite empty_db (\<lambda>_. None) (\<lambda>_. 0) (\<lambda>_. F64 0) (\<lambda>_. 0)
      [WithCheckpointSigner (Some (signerFromPrivate demo_ed demo_priv))] = Inr s"
    by (simp add: OpenSQLite_def exec_def fault_now_def Let_def next_tick_def set_db_def)
  have p: "pc_ed demo_process = demo_ed" "pc_fs demo_process = demo_fs" "pc_generate demo_process = Inr (take 32 demo_priv, demo_priv)"
      "bk_sqlite (pc_backends demo_process) = (\<lambda>path. OpenSQLite empty_db (\<lambda>_. None) (\<lambda>_. 0) (\<lambda>_. F64 0) (\<lambda>_. 0))"
    by (simp_all add: demo_process_def)
  have c: "ecf_SigningKey (f_Engine (eff_File demo_config)) = ''sloppy.key''" "ecf_Pricebook (f_Engine (eff_File demo_config)) = []"
      "sto_Kind (f_Store (eff_File demo_config)) = ''sqlite''" "platforms_of (eff_File demo_config) = []"
    by (simp_all add: demo_config_def demo_eff_def Defaults_def applyDefaults_def zero_file_def dflt_def platforms_of_def)
  show ?thesis
    by (simp add: BuildEngine_def boot_engine_def OpenStore_def load_prices_def BuildRegistry_def rc fs s p c Let_def)
qed

theorem built_engine_applies_at_most_once_witness:
  "\<exists>fs b. BuildEngine demo_process demo_config = (fs, Inr b)
     \<and> holders ''r1'' (fst (interleave (bt_engine b) [0, 1, 1, 0] [start demo_route 0, start demo_route 5] (eng_mem (bt_engine b)))) \<le> 1"
proof -
  obtain fs b where b: "BuildEngine demo_process demo_config = (fs, Inr b)" using demo_built by blast
  have c: "sto_Kind (f_Store (eff_File demo_config)) = ''sqlite''"
      "fmc_Default (ecf_FailMode (f_Engine (eff_File demo_config))) = ''closed''"
    by (simp_all add: demo_config_def demo_eff_def Defaults_def applyDefaults_def zero_file_def dflt_def)
  have k: "bk_sqlite (pc_backends demo_process) = (\<lambda>path. OpenSQLite ((\<lambda>_. empty_db) path) (\<lambda>_. None) (\<lambda>_. 0) (\<lambda>_. F64 0) (\<lambda>_. 0))"
    by (simp add: demo_process_def)
  have t: "list_all (\<lambda>t. th_pc t = Start \<and> ri_Kind (th_intent t) \<notin> {ActionOpenIssue, ActionPage})
      [start demo_route 0, start demo_route 5]"
    by (simp add: start_def demo_route_def action_kind_defs)
  from built_engine_applies_at_most_once [OF b c(1) k db_inv_empty c(2) t] b show ?thesis by blast
qed

end
