(* ===== verification/Doctor.thy ===== *)
theory Doctor
  imports Bootstrap
begin

text \<open>
  Package \<^verbatim>\<open>doctor\<close>: the diagnostics of \<^verbatim>\<open>sloppy doctor\<close>.  Each check is a function of what it reads: the files,
  the environment, the opening of the store, the answer of the probed endpoint.

  The lemmas compare the diagnostics with what the daemon does at start: where they agree, and
  two cases in which a check passes although the daemon fails.
\<close>

record Check =
  ck_Name :: string
  ck_OK :: bool
  ck_Detail :: string

definition check :: "string \<Rightarrow> bool \<Rightarrow> string \<Rightarrow> Check" where
  "check name ok detail = \<lparr>ck_Name = name, ck_OK = ok, ck_Detail = detail\<rparr>"

text \<open>\<^verbatim>\<open>errors.Is(err, os.ErrNotExist)\<close>: only the error of a rule file wraps its cause.\<close>

fun is_not_exist :: "load_error \<Rightarrow> bool" where
  "is_not_exist (RulesFileMissing f) = True"
| "is_not_exist _ = False"

definition CheckRules :: "(bytes \<Rightarrow> rawRule result) \<Rightarrow> files \<Rightarrow> string \<Rightarrow> Check" where
  "CheckRules yaml fl path =
     (case LoadRules yaml fl path of
        Inl e \<Rightarrow>
          (if is_not_exist e then
             check ''rules'' False (''rules path '' @ path @
               '' not found; create it and add *.yaml rule files, or point at an existing one with --rules <dir|file>'')
           else if fl_stat fl path = Directory then
             check ''rules'' True (path @ '' exists but has no rule files yet (add *.yaml rules, or rely on recipes)'')
           else check ''rules'' False (load_message e))
      | Inr rs \<Rightarrow> check ''rules'' True (int_to_dec (int (length rs)) @ '' rule(s) loaded''))"

definition CheckDB :: "(string \<Rightarrow> StoreOption list \<Rightarrow> error + sqliteStore) \<Rightarrow> string \<Rightarrow> Check" where
  "CheckDB opener path =
     (case opener path [] of
        Inl e \<Rightarrow> check ''state-db'' False e
      | Inr st \<Rightarrow> check ''state-db'' True ''opens + migrates ok'')"

definition CheckLedger :: "(string \<Rightarrow> StoreOption list \<Rightarrow> error + sqliteStore) \<Rightarrow> time \<Rightarrow> string \<Rightarrow> Check" where
  "CheckLedger opener now path =
     (case opener path [] of
        Inl e \<Rightarrow> check ''ledger'' False e
      | Inr st \<Rightarrow>
          (case sqlite_SpendSince ''_doctor'' (time_add now (- hour)) st of
             (Inl e, _) \<Rightarrow> check ''ledger'' False e
           | (Inr _, _) \<Rightarrow> check ''ledger'' True ''usage store queryable''))"

definition CheckActuators :: "ActionKind list \<Rightarrow> Check" where
  "CheckActuators kinds =
     (if kinds = [] then check ''actuators'' False ''no actuators registered''
      else check ''actuators'' True (int_to_dec (int (length kinds)) @ '' kind(s): '' @ join_with '', '' kinds))"

definition token_missing :: "env \<Rightarrow> Platform \<Rightarrow> bool" where
  "token_missing getenv p \<longleftrightarrow>
     plt_TokenEnv p \<noteq> [] \<and> getenv (plt_TokenEnv p) = [] \<and> getenv (plt_TokenEnv p @ ''_FILE'') = []"

definition CheckPlatforms :: "env \<Rightarrow> Effective \<Rightarrow> Check" where
  "CheckPlatforms getenv eff =
     (let on = filter (\<lambda>(n, p). plt_Enabled p) (platforms_of (eff_File eff));
          enabled = sort (map fst on); missing = sort (map fst (filter (\<lambda>(n, p). token_missing getenv p) on))
      in if enabled = [] then check ''platforms'' True ''none enabled (Log only)''
         else if missing \<noteq> [] then
           check ''platforms'' False (''enabled: '' @ join_with '', '' enabled @ ''; missing token: '' @ join_with '', '' missing)
         else check ''platforms'' True (''enabled: '' @ join_with '', '' enabled @ '' (tokens present)''))"

text \<open>\<^verbatim>\<open>get\<close> is the HTTP probe: a transport error or the status code.\<close>

definition CheckLiteLLM :: "(string \<Rightarrow> int result) \<Rightarrow> bool \<Rightarrow> string \<Rightarrow> Check" where
  "CheckLiteLLM get enabled url =
     (if \<not> enabled then check ''litellm'' True ''disabled (probe skipped)''
      else if url = [] then check ''litellm'' True ''not configured (skipped)''
      else case get (url @ ''/health'') of
        Inl e \<Rightarrow> check ''litellm'' False (''unreachable: '' @ e)
      | Inr status \<Rightarrow>
          (if 500 \<le> status then check ''litellm'' False (''status '' @ int_to_dec status)
           else check ''litellm'' True (''reachable (status '' @ int_to_dec status @ '')'')))"

section \<open>Properties\<close>

lemma check_simps [simp]: "ck_Name (check n b d) = n" "ck_OK (check n b d) = b" "ck_Detail (check n b d) = d"
  by (simp_all add: check_def)

text \<open>The rules check says nothing about a directory whose rule files do not parse: it passes for
  every path that is a directory, unless a listed file vanished, also when loading the rules
  fails and so the daemon refuses to start.
\<close>

theorem doctor_passes_broken_rules:
  assumes "fl_stat fl path = Directory" and "LoadRules yaml fl path = Inl (RulesParse f e)"
    and "\<not> str_contains (load_message (RulesParse f e)) ''no rules found''"
  shows "ck_OK (CheckRules yaml fl path) \<and> loadRulesLenient yaml fl (path # rest) = Inl (BootRules (RulesParse f e))"
  using assms by (simp add: CheckRules_def)

theorem doctor_passes_broken_rules_witness:
  "ck_OK (CheckRules (\<lambda>_. Inl ''bad indentation'')
     \<lparr>fl_stat = (\<lambda>_. Directory), fl_dir = (\<lambda>_. [(''a.yaml'', False)]), fl_read = (\<lambda>_. Contents [])\<rparr> ''rules'')"
proof -
  let ?fl = "\<lparr>fl_stat = (\<lambda>_. Directory), fl_dir = (\<lambda>_. [(''a.yaml'', False)]), fl_read = (\<lambda>_. Contents [])\<rparr>"
  have f: "rule_files ?fl ''rules'' True = [''rules/a.yaml'']" by code_simp
  have "\<not> str_contains (load_message (RulesParse ''rules/a.yaml'' (Yaml ''bad indentation''))) ''no rules found''"
    by code_simp
  then show ?thesis
    by (intro doctor_passes_broken_rules [THEN conjunct1, of _ _ _ "''rules/a.yaml''" "Yaml ''bad indentation''"])
       (simp_all add: LoadRules_def f ParseRules_def)
qed

text \<open>The platforms check and the token broker look at different variables: there is a
  configuration that validation accepts, with an environment in which the check reports the
  token of an enabled platform as present and the broker has none for it.
\<close>

theorem doctor_token_check_disagrees:
  "\<exists>eff getenv. Validate_file (eff_File eff) = [] \<and> enabled_names (platforms_of (eff_File eff)) = [''litellm'']
     \<and> ck_OK (CheckPlatforms getenv eff)
     \<and> Broker_Get (NewEnvBroker [''litellm'']) getenv files ''litellm'' = Inl (NoToken ''litellm'')"
proof -
  let ?p = "(on_platform ''http://gw'')\<lparr>plt_TokenEnv := ''SLOPPY_TOKEN_GATEWAY''\<rparr>"
  let ?env = "\<lambda>v. if v = ''SLOPPY_TOKEN_GATEWAY'' then ''t'' else []"
  have v: "Validate_file (eff_File (demo_eff [(''litellm'', ?p)])) = []"
    by (simp add: demo_eff_def Defaults_def) code_simp
  have t: "to_upper ''litellm'' = ''LITELLM''" by code_simp
  have c: "ck_OK (CheckPlatforms ?env (demo_eff [(''litellm'', ?p)]))"
    by (simp add: CheckPlatforms_def demo_eff_def platforms_of_def token_missing_def on_platform_def Let_def)
  have n: "enabled_names (platforms_of (eff_File (demo_eff [(''litellm'', ?p)]))) = [''litellm'']"
    by (simp add: demo_eff_def platforms_of_def enabled_names_def on_platform_def)
  have b: "Broker_Get (NewEnvBroker [''litellm'']) ?env files ''litellm'' = Inl (NoToken ''litellm'')"
    by (simp add: Broker_Get_def NewEnvBroker_def t Let_def)
  from v n c b show ?thesis by blast
qed

end
