(* ===== verification/Ingest.thy ===== *)
theory Ingest
  imports Bootstrap
begin

text \<open>
  Package \<^verbatim>\<open>ingest\<close>: the HTTP surface.  A server is its engine, an optional ledger on the engine's store
  and optionally the engine's metrics registry; what a request may change is the engine's
  state and the buffer of the status handler.  The body limits, the decoding of a signal, a
  usage event and an OTLP batch, the limit on the events of a batch and the status codes are
  as in the code.  The text of a JSON error is a parameter; headers of responses are left out,
  and so is the body of a redirect.

  The lemmas: the batch parser against its specification, what the status of a batch says,
  and which requests can change anything.
\<close>

section \<open>The server\<close>

definition metricUsageRecordFailed :: string where "metricUsageRecordFailed = ''usage_record_failed''"
definition maxSignalBytes :: nat where "maxSignalBytes = 1048576"
definition maxUsageBytes :: nat where "maxUsageBytes = 1048576"
definition maxOTLPBytes :: nat where "maxOTLPBytes = 16777216"

definition Routes :: "string list" where
  "Routes = [''/healthz'', ''/v1/signals'', ''/v1/usage'', ''/v1/otlp/metrics'', ''/status'']"

record ('s, 'w) Server =
  sv_engine :: "('s, 'w) Engine"
  sv_ledger :: "CostLedger option"
  sv_metrics :: bool
  sv_wall :: "'w \<Rightarrow> time"
  sv_json_error :: "http_request \<Rightarrow> error"

record ('s, 'w) server_state =
  ss_mem :: "('s, 'w) mem"
  ss_statusBuf :: "int dict option"

type_synonym ('s, 'w) server_option = "('s, 'w) Server \<Rightarrow> ('s, 'w) Server"

definition WithLedger_server :: "CostLedger option \<Rightarrow> ('s, 'w) server_option" where
  "WithLedger_server l = (\<lambda>s. s\<lparr>sv_ledger := l\<rparr>)"

definition WithMetrics_server :: "('s, 'w) server_option" where
  "WithMetrics_server = (\<lambda>s. s\<lparr>sv_metrics := True\<rparr>)"

definition NewServer :: "('w \<Rightarrow> time) \<Rightarrow> (http_request \<Rightarrow> error) \<Rightarrow> ('s, 'w) Engine \<Rightarrow> ('s, 'w) server_option list \<Rightarrow> ('s, 'w) Server" where
  "NewServer wall jerr e opts =
     fold (\<lambda>opt s. opt s) opts
       \<lparr>sv_engine = e, sv_ledger = None, sv_metrics = False, sv_wall = wall, sv_json_error = jerr\<rparr>"

definition respond :: "int \<Rightarrow> string \<Rightarrow> http_response" where
  "respond status body = \<lparr>hp_status = status, hp_body = body\<rparr>"

definition nl_end :: "string \<Rightarrow> string" where "nl_end t = t @ [CHR 0x0A]"

definition server_inc :: "('s, 'w) Server \<Rightarrow> string \<Rightarrow> ('s, 'w) mem \<Rightarrow> ('s, 'w) mem" where
  "server_inc sv name m = (if sv_metrics sv then inc name m else m)"

section \<open>Status\<close>

definition handleStatus :: "('s, 'w) Server \<Rightarrow> ('s, 'w) server_state handler" where
  "handleStatus sv r s =
     (let buf = SnapshotInto (if sv_metrics sv then m_met (ss_mem s) else None) (ss_statusBuf s)
      in (respond 200 (nl_end (case json_marshal (AMap (map (\<lambda>(k, v). (k, AInt v)) buf)) of None \<Rightarrow> [] | Some t \<Rightarrow> t)),
          s\<lparr>ss_statusBuf := Some buf\<rparr>))"

section \<open>Signals\<close>

definition summary_json :: "Result \<Rightarrow> string" where
  "summary_json res =
     json_object
       [(''outcome'', json_string (res_Outcome res)), (''kind'', json_string (ri_Kind (res_Intent res))),
        (''target'', json_string (ri_Target (res_Intent res)))]"

definition signal_response :: "Result list \<Rightarrow> string" where
  "signal_response results =
     json_object
       [(''applied'', int_to_dec (int (length (filter (\<lambda>res. res_Outcome res = OutApplied) results)))),
        (''results'', if results = [] then ''null'' else ''['' @ join_with '','' (map summary_json results) @ '']'')]"

text \<open>The engine's \<^verbatim>\<open>Handle\<close> reports no error, so the branch for one is not there.\<close>

definition handleSignal :: "('s, 'w) Server \<Rightarrow> ('s, 'w) server_state handler" where
  "handleSignal sv r s =
     (if hr_method r \<noteq> ''POST'' then (text_error ''POST only'' 405, s)
      else case decode_body maxSignalBytes dec_signal zero_signal (hr_broken r) (hr_body r) of
        BodyTooLarge \<Rightarrow> (text_error ''request body too large'' 413, s)
      | BadJson \<Rightarrow> (text_error (''bad signal json: '' @ sv_json_error sv r) 400, s)
      | Decoded_body sig \<Rightarrow>
          (let (results, m) = Handle (sv_engine sv) sig (ss_mem s)
           in (respond 200 (nl_end (signal_response results)), s\<lparr>ss_mem := m\<rparr>)))"

section \<open>Usage\<close>

record usageReq =
  ur_Tenant :: string
  ur_Model :: string
  ur_InputTokens :: int
  ur_OutputTokens :: int
  ur_At :: string

definition zero_usageReq :: usageReq where
  "zero_usageReq = \<lparr>ur_Tenant = [], ur_Model = [], ur_InputTokens = 0, ur_OutputTokens = 0, ur_At = []\<rparr>"

definition dec_usageReq :: "usageReq decoder" where
  "dec_usageReq =
     dec_struct
       [(''tenant'', at_field ur_Tenant (\<lambda>v. ur_Tenant_update (\<lambda>_. v)) dec_string),
        (''model'', at_field ur_Model (\<lambda>v. ur_Model_update (\<lambda>_. v)) dec_string),
        (''input_tokens'', at_field ur_InputTokens (\<lambda>v. ur_InputTokens_update (\<lambda>_. v)) dec_int),
        (''output_tokens'', at_field ur_OutputTokens (\<lambda>v. ur_OutputTokens_update (\<lambda>_. v)) dec_int),
        (''at'', at_field ur_At (\<lambda>v. ur_At_update (\<lambda>_. v)) dec_string)]"

text \<open>
  \<^verbatim>\<open>time.Parse(time.RFC3339, s)\<close>: what the strict parser refuses is tried with the layout, which also
  accepts an hour of one digit, a comma before the fraction and zone offsets up to 24:60.
\<close>

definition loose_zone :: "string \<Rightarrow> int option" where
  "loose_zone s =
     (if s = ''Z'' then Some 0
      else if length s = 6 \<and> (s ! 0 = CHR ''+'' \<or> s ! 0 = CHR ''-'') \<and> s ! 3 = CHR '':'' then
        (case (parse_uint (take 2 (drop 1 s)) 0 24, parse_uint (drop 4 s) 0 60) of
           (Some h, Some m) \<Rightarrow> Some ((if s ! 0 = CHR ''-'' then - 1 else 1) * (h * 60 + m) * 60)
         | _ \<Rightarrow> None)
      else None)"

definition loose_frac :: "string \<Rightarrow> string" where
  "loose_frac s = (case s of c # r \<Rightarrow> if c = CHR '','' then CHR ''.'' # r else s | [] \<Rightarrow> s)"

definition parse_loose :: "string \<Rightarrow> time option" where
  "parse_loose s =
     (let t = (if 13 < length s \<and> s ! 12 = CHR '':'' then take 11 s @ ''0'' @ drop 11 s else s);
          body = take 19 t; (ns, z) = parse_frac (loose_frac (drop 19 t))
      in case (parse_rfc3339 (body @ ''Z''), loose_zone z) of
           (Some base, Some off) \<Rightarrow> Some (base - off * second + ns)
         | _ \<Rightarrow> None)"

definition time_Parse_RFC3339 :: "string \<Rightarrow> time option" where
  "time_Parse_RFC3339 s = (case parse_rfc3339 s of Some t \<Rightarrow> Some t | None \<Rightarrow> parse_loose s)"

definition usage_time :: "('s, 'w) Server \<Rightarrow> string \<Rightarrow> ('s, 'w) mem \<Rightarrow> time" where
  "usage_time sv t m =
     (let now = sv_wall sv (m_world m)
      in if t = [] then now else case time_Parse_RFC3339 t of None \<Rightarrow> now | Some parsed \<Rightarrow> parsed)"

definition record_usage ::
    "('s, 'w) Server \<Rightarrow> CostLedger \<Rightarrow> string \<Rightarrow> string \<Rightarrow> int \<Rightarrow> int \<Rightarrow> time \<Rightarrow> ('s, 'w) mem \<Rightarrow> error option \<times> ('s, 'w) mem" where
  "record_usage sv l tenant model inTok outTok t m =
     on_store (Record_usage (eng_store (sv_engine sv)) l tenant model inTok outTok t) m"

definition handleUsage :: "('s, 'w) Server \<Rightarrow> ('s, 'w) server_state handler" where
  "handleUsage sv r s =
     (if hr_method r \<noteq> ''POST'' then (text_error ''POST only'' 405, s)
      else case sv_ledger sv of
        None \<Rightarrow> (text_error ''ledger disabled'' 503, s)
      | Some l \<Rightarrow>
          (case decode_body maxUsageBytes dec_usageReq zero_usageReq (hr_broken r) (hr_body r) of
             BodyTooLarge \<Rightarrow> (text_error ''request body too large'' 413, s)
           | BadJson \<Rightarrow> (text_error (''bad usage json: '' @ sv_json_error sv r) 400, s)
           | Decoded_body u \<Rightarrow>
               (case record_usage sv l (ur_Tenant u) (ur_Model u) (ur_InputTokens u) (ur_OutputTokens u)
                       (usage_time sv (ur_At u) (ss_mem s)) (ss_mem s) of
                  (Some e, m) \<Rightarrow>
                    (text_error (''record error: '' @ e) 500, s\<lparr>ss_mem := server_inc sv metricUsageRecordFailed m\<rparr>)
                | (None, m) \<Rightarrow> (respond 202 [], s\<lparr>ss_mem := m\<rparr>))))"

section \<open>OTLP metrics\<close>

definition maxOTLPEvents :: nat where "maxOTLPEvents = 65536"

record otlpKV =
  kv_Key :: string
  kv_StringValue :: string

record otlpDataPoint =
  dp_AsInt :: string
  dp_AsDouble :: f64
  dp_Attributes :: "otlpKV list"

record otlpDataSet =
  ds_DataPoints :: "otlpDataPoint list"

record otlpMetric =
  om_Name :: string
  om_Sum :: "otlpDataSet option"
  om_Gauge :: "otlpDataSet option"

text \<open>The two outer levels are anonymous structs with one slice each, so a document is a list of lists.\<close>

type_synonym otlpMetricsDoc = "otlpMetric list list list"

definition zero_kv :: otlpKV where "zero_kv = \<lparr>kv_Key = [], kv_StringValue = []\<rparr>"
definition zero_dp :: otlpDataPoint where "zero_dp = \<lparr>dp_AsInt = [], dp_AsDouble = F64 0, dp_Attributes = []\<rparr>"
definition zero_ds :: otlpDataSet where "zero_ds = \<lparr>ds_DataPoints = []\<rparr>"
definition zero_metric :: otlpMetric where "zero_metric = \<lparr>om_Name = [], om_Sum = None, om_Gauge = None\<rparr>"

definition dec_kv :: "otlpKV decoder" where
  "dec_kv =
     dec_struct
       [(''key'', at_field kv_Key (\<lambda>v. kv_Key_update (\<lambda>_. v)) dec_string),
        (''value'', dec_struct [(''stringValue'', at_field kv_StringValue (\<lambda>v. kv_StringValue_update (\<lambda>_. v)) dec_string)])]"

definition dec_dp :: "otlpDataPoint decoder" where
  "dec_dp =
     dec_struct
       [(''asInt'', at_field dp_AsInt (\<lambda>v. dp_AsInt_update (\<lambda>_. v)) dec_string),
        (''asDouble'', at_field dp_AsDouble (\<lambda>v. dp_AsDouble_update (\<lambda>_. v)) dec_float),
        (''attributes'', at_field dp_Attributes (\<lambda>v. dp_Attributes_update (\<lambda>_. v)) (dec_slice dec_kv zero_kv))]"

definition dec_ds :: "otlpDataSet decoder" where
  "dec_ds =
     dec_struct [(''dataPoints'', at_field ds_DataPoints (\<lambda>v. ds_DataPoints_update (\<lambda>_. v)) (dec_slice dec_dp zero_dp))]"

definition dec_metric :: "otlpMetric decoder" where
  "dec_metric =
     dec_struct
       [(''name'', at_field om_Name (\<lambda>v. om_Name_update (\<lambda>_. v)) dec_string),
        (''sum'', at_field om_Sum (\<lambda>v. om_Sum_update (\<lambda>_. v)) (dec_pointer dec_ds zero_ds)),
        (''gauge'', at_field om_Gauge (\<lambda>v. om_Gauge_update (\<lambda>_. v)) (dec_pointer dec_ds zero_ds))]"

definition dec_doc :: "otlpMetricsDoc decoder" where
  "dec_doc =
     dec_struct
       [(''resourceMetrics'',
         dec_slice (dec_struct [(''scopeMetrics'', dec_slice (dec_struct [(''metrics'', dec_slice dec_metric zero_metric)]) [])]) [])]"

record usageEvent =
  ue_tenant :: string
  ue_model :: string
  ue_input :: int
  ue_output :: int

definition dpValue :: "otlpDataPoint \<Rightarrow> int" where
  "dpValue dp =
     (case (if dp_AsInt dp \<noteq> [] then atoi (dp_AsInt dp) else None) of
        Some n \<Rightarrow> n
      | None \<Rightarrow> f64_to_int (dp_AsDouble dp))"

definition firstNonEmpty :: "string \<Rightarrow> string \<Rightarrow> string" where
  "firstNonEmpty a b = (if a \<noteq> [] then a else b)"

text \<open>The last of the attributes with a key counts; a key that is not there reads as empty.\<close>

definition attr :: "otlpDataPoint \<Rightarrow> string \<Rightarrow> string" where
  "attr dp k =
     (case map_of (fold (\<lambda>kv m. AList.update (kv_Key kv) (kv_StringValue kv) m) (dp_Attributes dp) []) k of
        None \<Rightarrow> [] | Some v \<Rightarrow> v)"

definition event_of :: "otlpDataPoint \<Rightarrow> usageEvent" where
  "event_of dp =
     (let out = (attr dp ''gen_ai.token.type'' = ''output'' \<or> attr dp ''gen_ai.token.type'' = ''completion'')
      in \<lparr>ue_tenant = attr dp ''tenant'',
          ue_model = firstNonEmpty (attr dp ''gen_ai.request.model'') (attr dp ''model''),
          ue_input = (if out then 0 else dpValue dp), ue_output = (if out then dpValue dp else 0)\<rparr>)"

text \<open>The loops, from the inside out; \<^const>\<open>None\<close> is the event limit.\<close>

fun add_points :: "otlpDataPoint list \<Rightarrow> usageEvent list \<Rightarrow> usageEvent list option" where
  "add_points [] events = Some events"
| "add_points (dp # dps) events =
     (if maxOTLPEvents \<le> length events then None else add_points dps (events @ [event_of dp]))"

fun add_sets :: "otlpDataSet option list \<Rightarrow> usageEvent list \<Rightarrow> usageEvent list option" where
  "add_sets [] events = Some events"
| "add_sets (None # dss) events = add_sets dss events"
| "add_sets (Some ds # dss) events = Option.bind (add_points (ds_DataPoints ds) events) (add_sets dss)"

fun add_metrics :: "otlpMetric list \<Rightarrow> usageEvent list \<Rightarrow> usageEvent list option" where
  "add_metrics [] events = Some events"
| "add_metrics (m # ms) events =
     (if \<not> str_contains (om_Name m) ''token'' then add_metrics ms events
      else Option.bind (add_sets [om_Sum m, om_Gauge m] events) (add_metrics ms))"

fun add_scopes :: "otlpMetric list list \<Rightarrow> usageEvent list \<Rightarrow> usageEvent list option" where
  "add_scopes [] events = Some events"
| "add_scopes (sm # sms) events = Option.bind (add_metrics sm events) (add_scopes sms)"

fun add_resources :: "otlpMetricsDoc \<Rightarrow> usageEvent list \<Rightarrow> usageEvent list option" where
  "add_resources [] events = Some events"
| "add_resources (rm # rms) events = Option.bind (add_scopes rm events) (add_resources rms)"

datatype otlp_error = OtlpJson | OtlpEventCap

definition parseOTLPUsage :: "bytes \<Rightarrow> otlp_error + usageEvent list" where
  "parseOTLPUsage body =
     (case unmarshal_into dec_doc [] body of
        None \<Rightarrow> Inl OtlpJson
      | Some doc \<Rightarrow> (case add_resources doc [] of None \<Rightarrow> Inl OtlpEventCap | Some events \<Rightarrow> Inr events))"

fun record_events ::
    "('s, 'w) Server \<Rightarrow> CostLedger \<Rightarrow> time \<Rightarrow> usageEvent list \<Rightarrow> int \<times> int \<times> ('s, 'w) mem \<Rightarrow> int \<times> int \<times> ('s, 'w) mem" where
  "record_events sv l now [] acc = acc"
| "record_events sv l now (ev # evs) (recorded, failed, m) =
     (case record_usage sv l (ue_tenant ev) (ue_model ev) (ue_input ev) (ue_output ev) now m of
        (Some e, m') \<Rightarrow> record_events sv l now evs (recorded, failed + 1, server_inc sv metricUsageRecordFailed m')
      | (None, m') \<Rightarrow> record_events sv l now evs (recorded + 1, failed, m'))"

definition batch_status :: "int \<Rightarrow> int \<Rightarrow> int" where
  "batch_status recorded failed =
     (if failed > 0 \<and> recorded > 0 then 207 else if failed > 0 then 500 else 202)"

definition handleOTLP :: "('s, 'w) Server \<Rightarrow> ('s, 'w) server_state handler" where
  "handleOTLP sv r s =
     (if hr_method r \<noteq> ''POST'' then (text_error ''POST only'' 405, s)
      else case sv_ledger sv of
        None \<Rightarrow> (text_error ''ledger disabled'' 503, s)
      | Some l \<Rightarrow>
          (if maxOTLPBytes < length (hr_body r) then (text_error ''request body too large'' 413, s)
           else if hr_broken r then (text_error ''read error'' 400, s)
           else case parseOTLPUsage (hr_body r) of
             Inl OtlpEventCap \<Rightarrow> (text_error ''otlp batch too large'' 413, s)
           | Inl OtlpJson \<Rightarrow> (text_error (''bad otlp json: '' @ sv_json_error sv r) 400, s)
           | Inr events \<Rightarrow>
               (let (recorded, failed, m) = record_events sv l (sv_wall sv (m_world (ss_mem s))) events (0, 0, ss_mem s)
                in (respond (batch_status recorded failed)
                      (nl_end (json_object [(''failed'', int_to_dec failed), (''recorded'', int_to_dec recorded)])),
                    s\<lparr>ss_mem := m\<rparr>))))"

section \<open>The mux\<close>

text \<open>
  \<^verbatim>\<open>http.ServeMux\<close> with exact patterns: a path that is not in canonical form is redirected, any other
  path that is not registered is not found.
\<close>

definition mux_clean :: "string \<Rightarrow> string" where
  "mux_clean p =
     (if p = [] then ''/''
      else let q = (if hd p = CHR ''/'' then p else CHR ''/'' # p); c = Clean q
           in if last q = CHR ''/'' \<and> c \<noteq> ''/'' then c @ ''/'' else c)"

definition Handler :: "('s, 'w) Server \<Rightarrow> ('s, 'w) server_state handler" where
  "Handler sv r s =
     (if hr_method r \<noteq> ''CONNECT'' \<and> mux_clean (hr_path r) \<noteq> hr_path r then (respond 301 [], s)
      else if hr_path r = ''/healthz'' then (respond 200 ''ok'', s)
      else if hr_path r = ''/v1/signals'' then handleSignal sv r s
      else if hr_path r = ''/v1/usage'' then handleUsage sv r s
      else if hr_path r = ''/v1/otlp/metrics'' then handleOTLP sv r s
      else if hr_path r = ''/status'' then handleStatus sv r s
      else (text_error ''404 page not found'' 404, s))"

section \<open>The batch parser against its specification\<close>

text \<open>The data points of a batch that count, in order.\<close>

definition set_points :: "otlpDataSet option \<Rightarrow> otlpDataPoint list" where
  "set_points ds = (case ds of None \<Rightarrow> [] | Some d \<Rightarrow> ds_DataPoints d)"

definition token_points :: "otlpMetricsDoc \<Rightarrow> otlpDataPoint list" where
  "token_points doc =
     concat (map (\<lambda>m. if str_contains (om_Name m) ''token'' then set_points (om_Sum m) @ set_points (om_Gauge m) else [])
       (concat (concat doc)))"

text \<open>A loop that appends the events of some points, or stops at the limit.\<close>

definition appends :: "otlpDataPoint list \<Rightarrow> (usageEvent list \<Rightarrow> usageEvent list option) \<Rightarrow> bool" where
  "appends pts f \<longleftrightarrow>
     (\<forall>events. length events \<le> maxOTLPEvents \<longrightarrow>
        f events = (if length events + length pts \<le> maxOTLPEvents then Some (events @ map event_of pts) else None))"

lemma appends_bind: "appends p f \<Longrightarrow> appends q g \<Longrightarrow> appends (p @ q) (\<lambda>e. Option.bind (f e) g)"
  by (auto simp: appends_def)

lemma appends_Nil [simp]: "appends [] Some"
  by (simp add: appends_def)

lemma appends_points: "appends dps (add_points dps)"
proof (induction dps)
  case (Cons dp dps)
  then show ?case by (auto simp: appends_def)
qed (simp add: appends_def)

lemma appends_sets: "appends (concat (map set_points dss)) (add_sets dss)"
proof (induction dss)
  case (Cons ds dss)
  then show ?case
    using appends_bind [OF appends_points Cons, of "set_points ds"]
    by (cases ds) (auto simp: set_points_def appends_def)
qed (simp add: appends_def)

lemma appends_metrics:
  "appends (concat (map (\<lambda>m. if str_contains (om_Name m) ''token'' then set_points (om_Sum m) @ set_points (om_Gauge m) else []) ms))
     (add_metrics ms)"
proof (induction ms)
  case (Cons m ms)
  then show ?case
    using appends_bind [OF appends_sets Cons, of "[om_Sum m, om_Gauge m]"]
    by (cases "str_contains (om_Name m) ''token''") (simp_all add: appends_def)
qed (simp add: appends_def)

abbreviation metric_points :: "otlpMetric \<Rightarrow> otlpDataPoint list" where
  "metric_points m \<equiv> if str_contains (om_Name m) ''token'' then set_points (om_Sum m) @ set_points (om_Gauge m) else []"

lemma appends_scopes: "appends (concat (map metric_points (concat sms))) (add_scopes sms)"
proof (induction sms)
  case (Cons sm sms)
  then show ?case using appends_bind [OF appends_metrics Cons, of sm] by (simp add: appends_def)
qed (simp add: appends_def)

lemma appends_resources: "appends (token_points doc) (add_resources doc)"
proof (induction doc)
  case (Cons rm rms)
  then show ?case using appends_bind [OF appends_scopes Cons, of rm] by (simp add: appends_def token_points_def)
qed (simp add: appends_def token_points_def)

section \<open>Recording a batch\<close>

lemma on_store_met [simp]: "m_met (snd (on_store f m)) = m_met m"
  by (simp add: on_store_def split: prod.splits)

lemma record_usage_met:
  "record_usage sv l a b c d t m = (e, m') \<Longrightarrow> m_met m' = m_met m"
  using on_store_met [of "Record_usage (eng_store (sv_engine sv)) l a b c d t" m] by (simp add: record_usage_def)

lemma server_inc_Get:
  "wrap64 (Get (m_met (server_inc sv metricUsageRecordFailed m)) metricUsageRecordFailed) =
     wrap64 (Get (m_met m) metricUsageRecordFailed + (if sv_metrics sv \<and> m_met m \<noteq> None then 1 else 0))"
  "m_met (server_inc sv n m) = None \<longleftrightarrow> m_met m = None"
  using wrap64_add_left [of "Get (m_met m) metricUsageRecordFailed + 1" 0]
  by (simp_all add: server_inc_def inc_def Get_Inc Inc_def [of "m_met m" n])

lemma record_events_counts:
  "record_events sv l now evs (r0, f0, m0) = (r, f, m) \<Longrightarrow>
   r + f = r0 + f0 + int (length evs) \<and> r0 \<le> r \<and> f0 \<le> f
   \<and> wrap64 (Get (m_met m) metricUsageRecordFailed) =
       wrap64 (Get (m_met m0) metricUsageRecordFailed + (if sv_metrics sv \<and> m_met m0 \<noteq> None then f - f0 else 0))"
proof (induction evs arbitrary: r0 f0 m0)
  case Nil
  then show ?case by simp
next
  case (Cons ev evs)
  obtain e m1 where u: "record_usage sv l (ue_tenant ev) (ue_model ev) (ue_input ev) (ue_output ev) now m0 = (e, m1)"
    by fastforce
  note met = record_usage_met [OF u]
  show ?case
  proof (cases e)
    case None
    with Cons.prems u have "record_events sv l now evs (r0 + 1, f0, m1) = (r, f, m)" by simp
    from Cons.IH [OF this] met show ?thesis by auto
  next
    case (Some x)
    let ?m2 = "server_inc sv metricUsageRecordFailed m1"
    from Some Cons.prems u have "record_events sv l now evs (r0, f0 + 1, ?m2) = (r, f, m)" by simp
    note ih = Cons.IH [OF this]
    let ?g = "Get (m_met ?m2) metricUsageRecordFailed" and ?c = "if sv_metrics sv \<and> m_met m0 \<noteq> None then f - (f0 + 1) else 0"
    have "wrap64 (?g + ?c) = wrap64 (wrap64 ?g + ?c)" by (simp only: wrap64_add_left)
    also have "\<dots> = wrap64 (Get (m_met m0) metricUsageRecordFailed + (if sv_metrics sv \<and> m_met m0 \<noteq> None then 1 else 0) + ?c)"
      by (simp only: server_inc_Get met wrap64_add_left)
    finally show ?thesis using ih met server_inc_Get(2) [of sv metricUsageRecordFailed m1] by (auto simp: algebra_simps)
  qed
qed

section \<open>A server for the witnesses\<close>

definition demo_server :: "(sqliteStore, Fake) Server" where
  "demo_server =
     NewServer (\<lambda>_. 0) (\<lambda>_. ''unexpected end of JSON input'') demo_engine [WithLedger_server (Some (New_ledger None)), WithMetrics_server]"

definition demo_server_state :: "(sqliteStore, Fake) server_state" where
  "demo_server_state = \<lparr>ss_mem = demo_mem, ss_statusBuf = None\<rparr>"

definition demo_post :: "string \<Rightarrow> http_request" where
  "demo_post path =
     \<lparr>hr_method = ''POST'', hr_path = path, hr_header = (\<lambda>h. if h = ''X-API-Key'' then ''k'' else []), hr_body = ''{}'', hr_broken = False\<rparr>"

lemma json_value_empty_object: "json_value ''{}'' = Some (JObj [], [])"
  by (simp add: json_value.simps)

lemma demo_decodes:
  "decode_body maxUsageBytes dec_usageReq zero_usageReq False ''{}'' = Decoded_body zero_usageReq"
  "parseOTLPUsage ''{}'' = Inr []"
  by (simp_all add: decode_body_def read_first_value_def maxUsageBytes_def json_value_empty_object dec_usageReq_def
      parseOTLPUsage_def unmarshal_into_def json_parse_def dec_doc_def)

section \<open>Properties\<close>

lemma mem_unchanged:
  "hr_path r \<notin> {''/v1/signals'', ''/v1/usage'', ''/v1/otlp/metrics''} \<or> hr_method r \<noteq> ''POST'' \<Longrightarrow>
   ss_mem (snd (Handler sv r s)) = ss_mem s"
  by (auto simp: Handler_def handleSignal_def handleUsage_def handleOTLP_def handleStatus_def Let_def)

text \<open>C6: Behind the authorizer, a request that changes anything of the engine (the store, the windows,
  the counters, the outside world) is a POST to one of the three ingest routes with a key that
  has the ingest scope.
\<close>

theorem writes_need_ingest_scope:
  assumes "ss_mem (snd (Middleware a (Handler sv) r s)) \<noteq> ss_mem s"
  shows "hr_method r = ''POST'' \<and> hr_path r \<in> {''/v1/signals'', ''/v1/usage'', ''/v1/otlp/metrics''}
    \<and> HasScope a (apiKeyFrom r) ScopeIngestWrite"
proof -
  have p: "HasScope a (apiKeyFrom r) (ScopeForPath (hr_path r))" and c: "ss_mem (snd (Handler sv r s)) \<noteq> ss_mem s"
    using assms by (auto simp: Middleware_def Let_def split: if_splits)
  from c mem_unchanged [of r sv s] have "hr_path r \<in> {''/v1/signals'', ''/v1/usage'', ''/v1/otlp/metrics''} \<and> hr_method r = ''POST''"
    by blast
  with p show ?thesis by (auto simp: ScopeForPath_def)
qed

theorem writes_need_ingest_scope_witness:
  "ss_mem (snd (Middleware (NewAuthorizer [(''k'', [ScopeIngestWrite])]) (Handler demo_server) (demo_post ''/v1/usage'') demo_server_state))
     \<noteq> ss_mem demo_server_state
   \<and> HasScope (NewAuthorizer [(''k'', [ScopeIngestWrite])]) ''k'' ScopeIngestWrite"
proof -
  let ?a = "NewAuthorizer [(''k'', [ScopeIngestWrite])]" and ?r = "demo_post ''/v1/usage''"
  have k: "apiKeyFrom ?r = ''k''" "hr_path ?r = ''/v1/usage''" "hr_method ?r = ''POST''" "hr_body ?r = ''{}''" "\<not> hr_broken ?r"
    by (simp_all add: apiKeyFrom_def demo_post_def)
  have sc: "HasScope ?a ''k'' (ScopeForPath ''/v1/usage'')"
    by (simp add: HasScope_def NewAuthorizer_def ScopeForPath_def scope_defs)
  have mx: "mux_clean ''/v1/usage'' = ''/v1/usage''" by code_simp
  have "st_tick (m_store (ss_mem (snd (Handler demo_server ?r demo_server_state)))) \<noteq> st_tick (m_store (ss_mem demo_server_state))"
    by (simp add: Handler_def k mx handleUsage_def demo_decodes demo_server_def NewServer_def WithLedger_server_def WithMetrics_server_def
        record_usage_def on_store_def Record_usage_def sqlite_ops_def sqlite_RecordUsage_def exec_def fault_now_def demo_server_state_def
        demo_mem_def demo_store_def next_tick_def set_db_def Let_def)
  then have c: "ss_mem (snd (Middleware ?a (Handler demo_server) ?r demo_server_state)) \<noteq> ss_mem demo_server_state"
    using sc k by (auto simp: Middleware_def Let_def)
  from writes_need_ingest_scope [OF c] c k show ?thesis by simp
qed

text \<open>The statuses a handler can answer with.\<close>

lemma handler_status:
  "hp_status (fst (handleSignal sv r s)) \<in> {200, 400, 405, 413}"
  "hp_status (fst (handleUsage sv r s)) \<in> {202, 400, 405, 413, 500, 503}"
  "hp_status (fst (handleOTLP sv r s)) \<in> {202, 207, 400, 405, 413, 500, 503}"
  "hp_status (fst (handleStatus sv r s)) \<in> {200}"
proof -
  show "hp_status (fst (handleSignal sv r s)) \<in> {200, 400, 405, 413}"
    by (simp add: handleSignal_def text_error_def respond_def case_prod_beta Let_def split: body_result.split)
  show "hp_status (fst (handleUsage sv r s)) \<in> {202, 400, 405, 413, 500, 503}"
    by (simp add: handleUsage_def text_error_def respond_def split: body_result.split option.split prod.split)
  show "hp_status (fst (handleOTLP sv r s)) \<in> {202, 207, 400, 405, 413, 500, 503}"
    by (simp add: handleOTLP_def text_error_def respond_def batch_status_def case_prod_beta Let_def
        split: option.split sum.split otlp_error.split)
  show "hp_status (fst (handleStatus sv r s)) \<in> {200}"
    by (simp add: handleStatus_def respond_def Let_def)
qed

text \<open>The routes of the mux are the ones with a scope: every registered route is served and is
  mapped to a scope that a key can have, and every other path is refused by the authorizer
  before the mux sees it.
\<close>

theorem routes_are_guarded:
  "(if hr_path r \<in> set Routes
    then ScopeForPath (hr_path r) \<noteq> ScopeDeny \<and> hp_status (fst (Handler sv r s)) \<notin> {301, 404}
    else hp_status (fst (Middleware a (Handler sv) r s)) = 403 \<and> snd (Middleware a (Handler sv) r s) = s)"
proof (cases "hr_path r \<in> set Routes")
  case True
  have "list_all (\<lambda>p. mux_clean p = p \<and> ScopeForPath p \<noteq> ScopeDeny) Routes"
    by (simp add: Routes_def) code_simp
  with True have p: "mux_clean (hr_path r) = hr_path r" "ScopeForPath (hr_path r) \<noteq> ScopeDeny"
    by (auto simp: list_all_iff)
  have served: "hp_status (fst (h sv r s)) \<notin> {301, 404}" if "h \<in> {handleSignal, handleUsage, handleOTLP, handleStatus}" for h
    using that handler_status [of sv r s] by (elim insertE) simp_all
  from p have "hp_status (fst (Handler sv r s)) \<notin> {301, 404}"
    using True served by (simp add: Handler_def Routes_def respond_def) blast
  with p True show ?thesis by simp
next
  case False
  then show ?thesis by (auto simp: Routes_def Middleware_def ScopeForPath_def HasScope_def text_error_def Let_def)
qed

text \<open>C16: The batch parser is its specification: the data points of the token metrics in their
  order, one event each, or the error of the event limit when there are more than it allows.
\<close>

theorem otlp_parse_meets_spec:
  "parseOTLPUsage body =
     (case unmarshal_into dec_doc [] body of
        None \<Rightarrow> Inl OtlpJson
      | Some doc \<Rightarrow>
          if length (token_points doc) \<le> maxOTLPEvents then Inr (map event_of (token_points doc)) else Inl OtlpEventCap)"
proof (cases "unmarshal_into dec_doc [] body")
  case None
  then show ?thesis by (simp add: parseOTLPUsage_def)
next
  case (Some doc)
  from appends_resources [of doc] have
    "add_resources doc [] = (if length (token_points doc) \<le> maxOTLPEvents then Some (map event_of (token_points doc)) else None)"
    unfolding appends_def by (metis (no_types, lifting) add_0 append_Nil list.size(3) zero_le)
  with Some show ?thesis by (simp add: parseOTLPUsage_def)
qed

text \<open>
  The loss of an event, said of the ledger alone: the events before it are recorded in order,
  each failure counted in the metrics, and then recording it fails.
\<close>

definition recorded_after :: "('s, 'w) Server \<Rightarrow> CostLedger \<Rightarrow> time \<Rightarrow> usageEvent list \<Rightarrow> ('s, 'w) mem \<Rightarrow> ('s, 'w) mem" where
  "recorded_after sv l now evs m =
     fold (\<lambda>ev m. case record_usage sv l (ue_tenant ev) (ue_model ev) (ue_input ev) (ue_output ev) now m of
             (None, m') \<Rightarrow> m' | (Some _, m') \<Rightarrow> server_inc sv metricUsageRecordFailed m') evs m"

definition event_lost :: "('s, 'w) Server \<Rightarrow> CostLedger \<Rightarrow> time \<Rightarrow> usageEvent list \<Rightarrow> ('s, 'w) mem \<Rightarrow> nat \<Rightarrow> bool" where
  "event_lost sv l now evs m k \<longleftrightarrow>
     (let ev = evs ! k
      in fst (record_usage sv l (ue_tenant ev) (ue_model ev) (ue_input ev) (ue_output ev) now
                (recorded_after sv l now (take k evs) m)) \<noteq> None)"

lemma lost_Cons:
  "{k. k < length (ev # evs) \<and> event_lost sv l now (ev # evs) m k} =
     (if event_lost sv l now (ev # evs) m 0 then {0} else {})
     \<union> Suc ` {k. k < length evs \<and> event_lost sv l now evs (recorded_after sv l now [ev] m) k}"
proof (rule set_eqI)
  fix k
  show "k \<in> {k. k < length (ev # evs) \<and> event_lost sv l now (ev # evs) m k} \<longleftrightarrow>
      k \<in> (if event_lost sv l now (ev # evs) m 0 then {0} else {})
        \<union> Suc ` {k. k < length evs \<and> event_lost sv l now evs (recorded_after sv l now [ev] m) k}"
    by (cases k) (auto simp: event_lost_def recorded_after_def)
qed

lemma card_lost_Cons:
  "card {k. k < length (ev # evs) \<and> event_lost sv l now (ev # evs) m k} =
     (if event_lost sv l now (ev # evs) m 0 then 1 else 0)
     + card {k. k < length evs \<and> event_lost sv l now evs (recorded_after sv l now [ev] m) k}"
proof -
  let ?B = "{k. k < length evs \<and> event_lost sv l now evs (recorded_after sv l now [ev] m) k}"
  have "finite ?B" by simp
  moreover have "card (Suc ` ?B) = card ?B" by (rule card_image) simp
  moreover have "0 \<notin> Suc ` ?B" by blast
  ultimately show ?thesis unfolding lost_Cons by simp
qed

lemma record_events_lost:
  "record_events sv l now evs (r, f, m) =
     (r + int (length evs) - int (card {k. k < length evs \<and> event_lost sv l now evs m k}),
      f + int (card {k. k < length evs \<and> event_lost sv l now evs m k}), recorded_after sv l now evs m)"
proof (induction evs arbitrary: r f m)
  case Nil
  then show ?case by (simp add: recorded_after_def)
next
  case (Cons ev evs)
  obtain e m1 where u: "record_usage sv l (ue_tenant ev) (ue_model ev) (ue_input ev) (ue_output ev) now m = (e, m1)"
    by fastforce
  have z: "event_lost sv l now (ev # evs) m 0 \<longleftrightarrow> e \<noteq> None" by (simp add: event_lost_def recorded_after_def u)
  have a: "recorded_after sv l now (ev # evs) m = recorded_after sv l now evs (recorded_after sv l now [ev] m)"
    by (simp add: recorded_after_def)
  have h: "recorded_after sv l now [ev] m = (if e = None then m1 else server_inc sv metricUsageRecordFailed m1)"
    by (cases e) (simp_all add: recorded_after_def u)
  show ?case unfolding card_lost_Cons a using Cons.IH u z h by (cases e) simp_all
qed

text \<open>C17: the answer to a batch tells what was lost.  With the number of events whose recording in the
  ledger fails, each tried in order on the state the ones before it left, the status is 202 when
  it is zero, 500 when it is the whole batch and 207 otherwise; the body has this number and the
  rest; the metrics counter grows by it; and the server is left as after recording the batch.
  (A partial loss is answered with a success status, 207.)\<close>

theorem otlp_status_tells_loss:
  fixes sv l events s
  defines "now \<equiv> sv_wall sv (m_world (ss_mem s))"
  defines "lost \<equiv> int (card {k. k < length events \<and> event_lost sv l now events (ss_mem s) k})"
  assumes "hr_method r = ''POST''" and "sv_ledger sv = Some l" and "length (hr_body r) \<le> maxOTLPBytes" and "\<not> hr_broken r"
    and "parseOTLPUsage (hr_body r) = Inr events" and "handleOTLP sv r s = (resp, s')"
  shows "hp_status resp = (if lost = 0 then 202 else if lost = int (length events) then 500 else 207)
    \<and> hp_body resp = nl_end (json_object [(''failed'', int_to_dec lost), (''recorded'', int_to_dec (int (length events) - lost))])
    \<and> s' = s\<lparr>ss_mem := recorded_after sv l now events (ss_mem s)\<rparr>
    \<and> wrap64 (Get (m_met (ss_mem s')) metricUsageRecordFailed) =
        wrap64 (Get (m_met (ss_mem s)) metricUsageRecordFailed + (if sv_metrics sv \<and> m_met (ss_mem s) \<noteq> None then lost else 0))"
proof -
  let ?L = "{k. k < length events \<and> event_lost sv l now events (ss_mem s) k}"
  have "card ?L \<le> card {..<length events}" by (rule card_mono) auto
  then have b: "0 \<le> lost" "lost \<le> int (length events)" by (simp_all add: lost_def)
  have e: "record_events sv l now events (0, 0, ss_mem s) =
      (int (length events) - lost, lost, recorded_after sv l now events (ss_mem s))"
    by (simp add: record_events_lost lost_def)
  with assms(3-) have r: "resp = respond (batch_status (int (length events) - lost) lost)
      (nl_end (json_object [(''failed'', int_to_dec lost), (''recorded'', int_to_dec (int (length events) - lost))]))"
    "s' = s\<lparr>ss_mem := recorded_after sv l now events (ss_mem s)\<rparr>"
    by (simp_all add: handleOTLP_def now_def)
  have "wrap64 (Get (m_met (recorded_after sv l now events (ss_mem s))) metricUsageRecordFailed) =
      wrap64 (Get (m_met (ss_mem s)) metricUsageRecordFailed + (if sv_metrics sv \<and> m_met (ss_mem s) \<noteq> None then lost - 0 else 0))"
    using record_events_counts [OF e] by blast
  with b r show ?thesis by (auto simp: respond_def batch_status_def)
qed

text \<open>A batch of two data points, and a database that fails on the first statement only.\<close>

definition demo_batch :: http_request where
  "demo_batch = (demo_post ''/v1/otlp/metrics'')\<lparr>hr_body :=
     (let q = (\<lambda>s. [dquote] @ s @ [dquote])
      in ''{'' @ q ''resourceMetrics'' @ '':[{'' @ q ''scopeMetrics'' @ '':[{'' @ q ''metrics'' @ '':[{'' @ q ''name'' @ '':'' @ q ''tokens'' @
         '','' @ q ''sum'' @ '':{'' @ q ''dataPoints'' @ '':[{},{}]}}]}]}]}'')\<rparr>"

definition demo_flaky :: "(sqliteStore, Fake) server_state" where
  "demo_flaky = demo_server_state\<lparr>ss_mem := demo_mem\<lparr>m_store := demo_store\<lparr>st_fault :=
     (\<lambda>n. if n = 0 then Some (FailBefore ''disk I/O error'') else None)\<rparr>\<rparr>\<rparr>"

lemma demo_batch_json:
  "json_parse (hr_body demo_batch) =
     Some (JObj [(''resourceMetrics'', JArr [JObj [(''scopeMetrics'', JArr [JObj [(''metrics'',
       JArr [JObj [(''name'', JStr ''tokens''), (''sum'', JObj [(''dataPoints'', JArr [JObj [], JObj []])])]])]])]])])"
  by code_simp

lemma demo_batch_events: "parseOTLPUsage (hr_body demo_batch) = Inr [event_of zero_dp, event_of zero_dp]"
proof -
  have t: "str_contains ''tokens'' ''token''" by code_simp
  have "unmarshal_into dec_doc [] (hr_body demo_batch) =
      Some [[[zero_metric\<lparr>om_Name := ''tokens'', om_Sum := Some \<lparr>ds_DataPoints = [zero_dp, zero_dp]\<rparr>\<rparr>]]]"
    by (simp add: unmarshal_into_def demo_batch_json dec_doc_def dec_metric_def dec_ds_def dec_dp_def field_for_def at_field_def
        zero_metric_def zero_ds_def)
  then show ?thesis by (simp add: parseOTLPUsage_def zero_metric_def t maxOTLPEvents_def)
qed

lemma demo_flaky_lost:
  "{k. k < length [ev, ev] \<and> event_lost demo_server (New_ledger None) t [ev, ev] (ss_mem demo_flaky) k} = {0}"
proof (rule set_eqI)
  fix k
  show "k \<in> {k. k < length [ev, ev] \<and> event_lost demo_server (New_ledger None) t [ev, ev] (ss_mem demo_flaky) k} \<longleftrightarrow> k \<in> {0}"
    by (cases k; cases "k - 1")
      (simp_all add: event_lost_def recorded_after_def record_usage_def on_store_def Record_usage_def sqlite_ops_def
        sqlite_RecordUsage_def exec_def fault_now_def demo_flaky_def demo_server_def NewServer_def WithLedger_server_def
        WithMetrics_server_def demo_mem_def demo_store_def next_tick_def set_db_def server_inc_def Let_def)
qed

theorem otlp_status_tells_loss_witness:
  "hp_status (fst (handleOTLP demo_server demo_batch demo_flaky)) = 207"
proof -
  obtain resp s' where h: "handleOTLP demo_server demo_batch demo_flaky = (resp, s')" by fastforce
  have len: "length (hr_body demo_batch) \<le> maxOTLPBytes"
    by (simp add: demo_batch_def maxOTLPBytes_def dquote_def Let_def)
  have p: "hr_method demo_batch = ''POST''" "sv_ledger demo_server = Some (New_ledger None)" "\<not> hr_broken demo_batch"
    by (simp_all add: demo_batch_def demo_post_def demo_server_def NewServer_def WithLedger_server_def WithMetrics_server_def)
  from otlp_status_tells_loss [OF p(1,2) len p(3) demo_batch_events h] h show ?thesis
    unfolding demo_flaky_lost by simp
qed

end
