(* ===== verification/Daemon.thy ===== *)
theory Daemon
  imports Ingest
begin

text \<open>
  Command \<^verbatim>\<open>sloppyd\<close>: the bind guard, the revert scan, and what \<^verbatim>\<open>main\<close> does before and while it serves.
  Modelled of package \<^verbatim>\<open>net\<close> are splitting an address, parsing an IP address and the loopback test;
  the resolver is a parameter.  The listener and the delivery of requests and ticks are not
  modelled: serving is the sequence of requests and ticks.

  The lemmas: which addresses the guard lets through without authentication, what a scan does,
  what stops the daemon from starting, and that a run of the daemon keeps its guarantees.
\<close>

section \<open>Addresses\<close>

text \<open>\<^verbatim>\<open>net.SplitHostPort\<close>; \<^const>\<open>None\<close> is an error.\<close>

definition last_colon :: "string \<Rightarrow> nat option" where
  "last_colon s =
     (let t = takeWhile (\<lambda>c. c \<noteq> CHR '':'') (rev s) in if length t = length s then None else Some (length s - length t - 1))"

definition SplitHostPort :: "string \<Rightarrow> (string \<times> string) option" where
  "SplitHostPort hp =
     (case last_colon hp of
        None \<Rightarrow> None
      | Some i \<Rightarrow>
          (if take 1 hp = ''['' then
             (case index_byte hp (CHR '']'') of
                None \<Rightarrow> None
              | Some e \<Rightarrow>
                  (if e + 1 = length hp \<or> e + 1 \<noteq> i then None
                   else let host = take (e - 1) (drop 1 hp)
                        in if CHR ''['' \<in> set (drop 1 hp) \<or> CHR '']'' \<in> set (drop (e + 1) hp) then None
                           else Some (host, drop (i + 1) hp)))
           else let host = take i hp
                in if CHR '':'' \<in> set host then None
                   else if CHR ''['' \<in> set hp \<or> CHR '']'' \<in> set hp then None
                   else Some (host, drop (i + 1) hp)))"

text \<open>An IP address is its eight groups of 16 bits; an IPv4 address is mapped.\<close>

type_synonym ip = "int list"

definition octet :: "string \<Rightarrow> int option" where
  "octet s =
     (if s = [] \<or> \<not> list_all is_digit s \<or> (1 < length s \<and> hd s = CHR ''0'') \<or> 255 < digits_val s then None
      else Some (digits_val s))"

definition parse_ipv4 :: "string \<Rightarrow> (int \<times> int \<times> int \<times> int) option" where
  "parse_ipv4 s =
     (case map octet (str_split s (CHR ''.'')) of
        [Some a, Some b, Some c, Some d] \<Rightarrow> Some (a, b, c, d)
      | _ \<Rightarrow> None)"

definition mapped :: "int \<times> int \<times> int \<times> int \<Rightarrow> ip" where
  "mapped q = (case q of (a, b, c, d) \<Rightarrow> [0, 0, 0, 0, 0, 0xFFFF, a * 256 + b, c * 256 + d])"

definition hex_word :: "string \<Rightarrow> int" where
  "hex_word s = fold (\<lambda>c n. n * 16 + (case hex_val c of Some v \<Rightarrow> int v | None \<Rightarrow> 0)) s 0"

text \<open>
  The groups of an IPv6 text after an optional leading \<^verbatim>\<open>::\<close>: what was read so far, and where the
  ellipsis is.  The last two groups may be an IPv4 address.
\<close>

function ipv6_groups :: "string \<Rightarrow> ip \<Rightarrow> nat option \<Rightarrow> (ip \<times> nat option) option" where
  "ipv6_groups s gs ell =
     (if 8 \<le> length gs then (if s = [] then Some (gs, ell) else None)
      else let h = takeWhile (\<lambda>c. hex_val c \<noteq> None) s; r = drop (length h) s
           in if h = [] \<or> 4 < length h then None
              else if take 1 r = ''.'' then
                (if (ell = None \<and> length gs \<noteq> 6) \<or> 6 < length gs then None
                 else case parse_ipv4 s of
                   None \<Rightarrow> None
                 | Some (a, b, c, d) \<Rightarrow> Some (gs @ [a * 256 + b, c * 256 + d], ell))
              else let gs' = gs @ [hex_word h]
                   in if r = [] then Some (gs', ell)
                      else if take 1 r \<noteq> '':'' \<or> length r = 1 then None
                      else let t = drop 1 r
                           in if take 1 t = '':'' then
                                (if ell \<noteq> None then None
                                 else if drop 1 t = [] then Some (gs', Some (length gs'))
                                 else ipv6_groups (drop 1 t) gs' (Some (length gs')))
                              else ipv6_groups t gs' ell)"
  by pat_completeness auto
termination
  by (relation "measure (\<lambda>(s, gs, ell). 8 - length gs)") auto

declare ipv6_groups.simps [simp del]

definition parse_ipv6 :: "string \<Rightarrow> ip option" where
  "parse_ipv6 s =
     (let ell0 = (take 2 s = ''::''); t = (if ell0 then drop 2 s else s)
      in if ell0 \<and> t = [] then Some (replicate 8 0)
         else case ipv6_groups t [] (if ell0 then Some 0 else None) of
           None \<Rightarrow> None
         | Some (gs, ell) \<Rightarrow>
             (if length gs < 8 then
                (case ell of
                   None \<Rightarrow> None
                 | Some k \<Rightarrow> Some (take k gs @ replicate (8 - length gs) 0 @ drop k gs))
              else if ell \<noteq> None then None else Some gs))"

text \<open>\<^verbatim>\<open>net.ParseIP\<close>: the first dot, colon or percent sign decides; an address with a zone is refused.\<close>

definition ParseIP :: "string \<Rightarrow> ip option" where
  "ParseIP s =
     (case dropWhile (\<lambda>c. c \<notin> {CHR ''.'', CHR '':'', CHR ''%''}) s of
        [] \<Rightarrow> None
      | c # _ \<Rightarrow>
          if c = CHR ''.'' then map_option mapped (parse_ipv4 s)
          else if c = CHR ''%'' then None
          else if CHR ''%'' \<in> set s then None else parse_ipv6 s)"

definition IsLoopback :: "ip \<Rightarrow> bool" where
  "IsLoopback g =
     (if take 6 g = [0, 0, 0, 0, 0, 0xFFFF] then g ! 6 div 256 = 127 else g = [0, 0, 0, 0, 0, 0, 0, 1])"

section \<open>The bind guard\<close>

definition addrIsLoopback :: "(string \<Rightarrow> ip list result) \<Rightarrow> string \<Rightarrow> bool" where
  "addrIsLoopback lookup addr =
     (let host = (case SplitHostPort addr of None \<Rightarrow> addr | Some (h, _) \<Rightarrow> h)
      in if host = [] then False
         else case ParseIP host of
           Some g \<Rightarrow> IsLoopback g
         | None \<Rightarrow>
             (case lookup host of
                Inl _ \<Rightarrow> False
              | Inr ips \<Rightarrow> ips \<noteq> [] \<and> list_all IsLoopback ips))"

definition checkBindAuth :: "(string \<Rightarrow> ip list result) \<Rightarrow> string \<Rightarrow> bool \<Rightarrow> error option" where
  "checkBindAuth lookup addr authEnabled =
     (if authEnabled then None
      else if addrIsLoopback lookup addr then None
      else Some (''refusing to bind '' @ quoted addr @ '' without --auth: that address is reachable from the network and the API would be UNAUTHENTICATED. Enable --auth (with SLOPPY_API_KEYS), or bind a loopback address (127.0.0.1 / [::1])''))"

datatype auth_log = WarnDisabled | WarnNoKeys | InfoEnabled int

definition logAuthState :: "bool \<Rightarrow> int \<Rightarrow> auth_log" where
  "logAuthState authEnabled keyCount =
     (if \<not> authEnabled then WarnDisabled else if keyCount = 0 then WarnNoKeys else InfoEnabled keyCount)"

section \<open>The revert scan\<close>

definition runRevertScan :: "('s, 'w) Engine \<Rightarrow> time \<Rightarrow> ('s, 'w) mem \<Rightarrow> ('s, 'w) mem" where
  "runRevertScan e now m =
     (let m1 = (case ProcessDueReverts e now m of
                  (Inl _, m') \<Rightarrow> inc ''revert_scan_failed'' m'
                | (Inr _, m') \<Rightarrow> m')
      in case Engine_PruneUsage e (time_add now (- (48 * hour))) m1 of
           (Some _, m2) \<Rightarrow> inc ''revert_scan_failed'' m2
         | (None, m2) \<Rightarrow> m2)"

section \<open>Serving\<close>

definition serve_handler :: "('s, 'w) Server \<Rightarrow> Authorizer option \<Rightarrow> ('s, 'w) server_state handler" where
  "serve_handler sv authz = (case authz of None \<Rightarrow> Handler sv | Some a \<Rightarrow> Middleware a (Handler sv))"

datatype serve_event = Request http_request | Ticker time

fun serve_step :: "('s, 'w) Server \<Rightarrow> Authorizer option \<Rightarrow> serve_event \<Rightarrow> ('s, 'w) server_state \<Rightarrow> ('s, 'w) server_state" where
  "serve_step sv authz (Request r) s = snd (serve_handler sv authz r s)"
| "serve_step sv authz (Ticker now) s = s\<lparr>ss_mem := runRevertScan (sv_engine sv) now (ss_mem s)\<rparr>"

definition serve_run ::
    "('s, 'w) Server \<Rightarrow> Authorizer option \<Rightarrow> serve_event list \<Rightarrow> ('s, 'w) server_state \<Rightarrow> ('s, 'w) server_state" where
  "serve_run sv authz evs s = fold (serve_step sv authz) evs s"

section \<open>Main\<close>

record flag_values =
  fv_addr :: string
  fv_rules :: string
  fv_db :: string
  fv_pricebook :: string
  fv_key :: string
  fv_store :: string
  fv_redis_addr :: string
  fv_log_format :: string
  fv_revert_interval :: string
  fv_fail_closed :: bool
  fv_auth :: bool

definition if_set :: "string set \<Rightarrow> string \<Rightarrow> 'a \<Rightarrow> 'a option" where
  "if_set given name v = (if name \<in> given then Some v else None)"

definition flag_overrides :: "string set \<Rightarrow> flag_values \<Rightarrow> FlagOverrides" where
  "flag_overrides given v =
     \<lparr>fo_Addr = if_set given ''addr'' (fv_addr v), fo_Store = if_set given ''store'' (fv_store v),
      fo_DBPath = if_set given ''db'' (fv_db v), fo_RedisAddr = if_set given ''redis-addr'' (fv_redis_addr v),
      fo_Rules = if_set given ''rules'' (fv_rules v), fo_SigningKey = if_set given ''key'' (fv_key v),
      fo_LogFormat = if_set given ''log-format'' (fv_log_format v), fo_Pricebook = if_set given ''pricebook'' (fv_pricebook v),
      fo_RevertInterval = if_set given ''revert-interval'' (fv_revert_interval v),
      fo_Auth = if_set given ''auth'' (fv_auth v), fo_FailClosed = if_set given ''fail-closed'' (fv_fail_closed v)\<rparr>"

text \<open>
  How far \<^verbatim>\<open>main\<close> gets.  A ticker with an interval that is not positive panics in its goroutine, which
  ends the process.
\<close>

datatype ('r) startup =
    ExitConfig error
  | ExitBind error
  | ExitBoot boot_error
  | ExitListen error
  | TickerPanic
  | Serving "('r store_value, World) Server" "Authorizer option" duration

definition effective_config ::
    "('r, 'ast) process \<Rightarrow> (bytes \<Rightarrow> yaml_result) \<Rightarrow> string \<Rightarrow> string set \<Rightarrow> flag_values \<Rightarrow> Effective result" where
  "effective_config pc yaml cfgPath given fv =
     (case LoadFile yaml (fl_read (pc_files pc)) cfgPath of
        Inl e \<Rightarrow> Inl e
      | Inr (f, existed) \<Rightarrow> Inr (Resolve f existed (flag_overrides given fv) (Some (pc_env pc))))"

definition main ::
    "('r, 'ast) process \<Rightarrow> (bytes \<Rightarrow> yaml_result) \<Rightarrow> (string \<Rightarrow> ip list result) \<Rightarrow> (string \<Rightarrow> error option) \<Rightarrow> (http_request \<Rightarrow> error) \<Rightarrow>
     string \<Rightarrow> string set \<Rightarrow> flag_values \<Rightarrow> 'r startup" where
  "main pc yaml lookup listen jerr cfgPath given fv =
     (case effective_config pc yaml cfgPath given fv of
        Inl e \<Rightarrow> ExitConfig e
      | Inr eff \<Rightarrow>
          (let auth = auc_Enabled (f_Auth (eff_File eff)); addr = srv_Addr (f_Server (eff_File eff));
               authz = (if auth then Some (LoadFromEnv (pc_env pc)) else None)
           in case checkBindAuth lookup addr auth of
                Some e \<Rightarrow> ExitBind e
              | None \<Rightarrow>
                  (case snd (BuildEngine pc eff) of
                     Inl e \<Rightarrow> ExitBoot e
                   | Inr b \<Rightarrow>
                       (let every = (case RevertInterval eff of None \<Rightarrow> 30 * second | Some d \<Rightarrow> d)
                        in case listen addr of
                             Some e \<Rightarrow> ExitListen e
                           | None \<Rightarrow>
                               (if every \<le> 0 then TickerPanic
                                else Serving
                                  (NewServer w_now jerr (bt_engine b) [WithLedger_server (Some (bt_ledger b)), WithMetrics_server])
                                  authz every)))))"

section \<open>Dotted addresses\<close>

lemma hd_dec_digits: "0 < n \<Longrightarrow> hd (dec_digits n) \<noteq> CHR ''0''"
proof (induction n rule: dec_digits.induct)
  case (1 n)
  show ?case
  proof (cases "n < 10")
    case True
    have "digit_val (CHR ''0'') = 0" by (simp add: digit_val_def)
    moreover have "digit_val (digit_char n) = n" using True 1(2) by simp
    ultimately have "digit_char n \<noteq> CHR ''0''" using 1(2) by auto
    with True show ?thesis by (subst dec_digits.simps) simp
  next
    case False
    with 1 show ?thesis by (subst dec_digits.simps) (simp add: hd_append)
  qed
qed

lemma octet_dec: "0 \<le> a \<Longrightarrow> a \<le> 255 \<Longrightarrow> octet (dec_digits a) = Some a"
  using hd_dec_digits [of a] dec_digits_are_digits [of a] digits_val_dec_digits [of a]
  by (cases "a = 0") (auto simp: octet_def dec_digits.simps [of 0])

definition dotted :: "int \<Rightarrow> int \<Rightarrow> int \<Rightarrow> int \<Rightarrow> string" where
  "dotted a b c d = dec_digits a @ ''.'' @ dec_digits b @ ''.'' @ dec_digits c @ ''.'' @ dec_digits d"

lemma digits_no: "0 \<le> n \<Longrightarrow> \<not> is_digit c \<Longrightarrow> c \<notin> set (dec_digits n)"
  using dec_digits_are_digits [of n] by (auto simp: list_all_iff)

lemma parse_dotted:
  assumes "0 \<le> a" "a \<le> 255" "0 \<le> b" "b \<le> 255" "0 \<le> c" "c \<le> 255" "0 \<le> d" "d \<le> 255"
  shows "ParseIP (dotted a b c d) = Some (mapped (a, b, c, d))"
proof -
  have dot: "CHR ''.'' \<notin> set (dec_digits n)" if "0 \<le> n" for n
    using that by (rule digits_no) (simp add: is_digit_def)
  have "str_split (dotted a b c d) (CHR ''.'') = [dec_digits a, dec_digits b, dec_digits c, dec_digits d]"
    using assms dot by (simp add: dotted_def str_split_append str_split_single)
  then have v4: "parse_ipv4 (dotted a b c d) = Some (a, b, c, d)"
    using assms by (simp add: parse_ipv4_def octet_dec)
  have "dropWhile (\<lambda>c. c \<notin> {CHR ''.'', CHR '':'', CHR ''%''}) (dec_digits a @ CHR ''.'' # r) = CHR ''.'' # r" for r
  proof -
    have "\<forall>c \<in> set (dec_digits a). c \<notin> {CHR ''.'', CHR '':'', CHR ''%''}"
      using dec_digits_are_digits [OF assms(1)] by (auto simp: list_all_iff is_digit_def)
    then show ?thesis by (simp add: dropWhile_append2)
  qed
  with v4 show ?thesis by (simp add: ParseIP_def dotted_def)
qed

lemma split_dotted:
  assumes "0 \<le> a" "0 \<le> b" "0 \<le> c" "0 \<le> d" and "list_all is_digit port"
  shows "SplitHostPort (dotted a b c d @ '':'' @ port) = Some (dotted a b c d, port)"
proof -
  have ch: "x \<in> set (dotted a b c d) \<Longrightarrow> is_digit x \<or> x = CHR ''.''" for x
    using assms(1-4) dec_digits_are_digits by (auto simp: dotted_def list_all_iff)
  have no: "x \<notin> set (dotted a b c d)" if "x \<in> {CHR '':'', CHR ''['', CHR '']''}" for x
    using that ch [of x] by (auto simp: is_digit_def)
  have po: "x \<notin> set port" if "x \<in> {CHR '':'', CHR ''['', CHR '']''}" for x
    using that assms(5) by (auto simp: list_all_iff is_digit_def)
  have t: "takeWhile (\<lambda>c. c \<noteq> CHR '':'') (rev port @ CHR '':'' # rev (dotted a b c d)) = rev port"
    using po by (subst takeWhile_append2) auto
  have lc: "last_colon (dotted a b c d @ '':'' @ port) = Some (length (dotted a b c d))"
    using t by (simp add: last_colon_def)
  have ne: "take 1 (dotted a b c d @ '':'' @ port) \<noteq> ''[''"
    using no [of "CHR ''[''"] by (cases "dotted a b c d") auto
  show ?thesis using no po lc ne by (simp add: SplitHostPort_def)
qed

section \<open>Runs of the daemon as store calls\<close>

lemma record_usage_steps:
  "steps_by (eng_store (sv_engine sv)) any_call (m_store m) (m_store (snd (record_usage sv l a b c d t m)))"
  using steps_invoke [of any_call "Usage a b (usage_cost (price_of l b) c d) t" "eng_store (sv_engine sv)" "m_store m"]
  by (simp add: record_usage_def Record_usage_def invoke.simps)

lemma server_inc_store [simp]: "m_store (server_inc sv n m) = m_store m"
  by (simp add: server_inc_def)

lemma record_events_steps:
  "steps_by (eng_store (sv_engine sv)) any_call (m_store m) (m_store (snd (snd (record_events sv l now evs (r, f, m)))))"
proof (induction evs arbitrary: r f m)
  case (Cons ev evs)
  obtain e m1 where u: "record_usage sv l (ue_tenant ev) (ue_model ev) (ue_input ev) (ue_output ev) now m = (e, m1)"
    by fastforce
  have "steps_by (eng_store (sv_engine sv)) any_call (m_store m) (m_store m1)"
    using record_usage_steps [of sv m l "ue_tenant ev" "ue_model ev" "ue_input ev" "ue_output ev" now] by (simp add: u)
  with Cons.IH [of m1] Cons.IH [of "server_inc sv metricUsageRecordFailed m1"] u show ?case
    by (cases e) (auto intro: steps_trans)
qed simp

lemma Handler_steps:
  "steps_by (eng_store (sv_engine sv)) any_call (m_store (ss_mem s)) (m_store (ss_mem (snd (Handler sv r s))))"
proof -
  have sig: "steps_by (eng_store (sv_engine sv)) any_call (m_store (ss_mem s)) (m_store (ss_mem (snd (handleSignal sv r s))))"
    using Handle_steps [of "sv_engine sv" "ss_mem s"]
    by (auto simp: handleSignal_def case_prod_beta split: body_result.splits)
  have us: "steps_by (eng_store (sv_engine sv)) any_call (m_store (ss_mem s)) (m_store (ss_mem (snd (handleUsage sv r s))))"
    using record_usage_steps [of sv "ss_mem s"]
    by (auto simp: handleUsage_def case_prod_beta split: body_result.splits option.splits)
  have ot: "steps_by (eng_store (sv_engine sv)) any_call (m_store (ss_mem s)) (m_store (ss_mem (snd (handleOTLP sv r s))))"
    using record_events_steps [of sv "ss_mem s"]
    by (auto simp: handleOTLP_def case_prod_beta split: option.splits sum.splits otlp_error.splits)
  from sig us ot show ?thesis by (simp add: Handler_def handleStatus_def Let_def)
qed

lemma runRevertScan_steps: "steps_by (eng_store e) any_call (m_store m) (m_store (runRevertScan e now m))"
proof -
  obtain x m1 where p: "ProcessDueReverts e now m = (x, m1)" by fastforce
  have 1: "steps_by (eng_store e) any_call (m_store m) (m_store m1)"
    using steps_any [OF ProcessDueReverts_steps [of e m now]] by (simp add: p)
  have 2: "steps_by (eng_store e) any_call (m_store m') (m_store (snd (Engine_PruneUsage e t m')))" for t m'
    by (auto simp: Engine_PruneUsage_def intro: call_steps)
  show ?thesis
    using 1 2 [of m1] 2 [of "inc ''revert_scan_failed'' m1"] steps_trans
    by (fastforce simp: runRevertScan_def p Let_def case_prod_beta split: sum.splits option.splits)
qed

lemma serve_step_steps:
  "steps_by (eng_store (sv_engine sv)) any_call (m_store (ss_mem s)) (m_store (ss_mem (serve_step sv authz ev s)))"
proof (cases ev)
  case (Request r)
  then show ?thesis
    using Handler_steps [of sv s r] by (auto simp: serve_handler_def Middleware_def Let_def split: option.splits)
next
  case (Ticker now)
  then show ?thesis using runRevertScan_steps by simp
qed

lemma serve_run_steps:
  "steps_by (eng_store (sv_engine sv)) any_call (m_store (ss_mem s)) (m_store (ss_mem (serve_run sv authz evs s)))"
  unfolding serve_run_def by (rule steps_fold) (rule serve_step_steps)

lemma invoke_iface: "invoke (iface_ops ed rd) c (SqliteStore s) =
    (fst (invoke (sqlite_ops ed) c s), SqliteStore (snd (invoke (sqlite_ops ed) c s)))"
  by (cases c) (simp_all add: iface_ops_def Let_def invoke.simps)

lemma run_calls_iface:
  "run_calls (iface_ops ed rd) cs (SqliteStore s) = SqliteStore (run_calls (sqlite_ops ed) cs s)"
  by (induction cs arbitrary: s) (simp_all add: invoke_iface)

section \<open>Properties\<close>

lemma main_Serving:
  assumes "main pc yaml lookup listen jerr cfgPath given fv = Serving sv authz every"
  obtains eff fs b where "effective_config pc yaml cfgPath given fv = Inr eff" "BuildEngine pc eff = (fs, Inr b)"
    "checkBindAuth lookup (srv_Addr (f_Server (eff_File eff))) (auc_Enabled (f_Auth (eff_File eff))) = None"
    "authz = (if auc_Enabled (f_Auth (eff_File eff)) then Some (LoadFromEnv (pc_env pc)) else None)"
    "every = (case RevertInterval eff of None \<Rightarrow> 30 * second | Some d \<Rightarrow> d)" "0 < every" "sv_engine sv = bt_engine b"
proof -
  from assms obtain eff where e: "effective_config pc yaml cfgPath given fv = Inr eff"
    by (auto simp: main_def split: sum.splits)
  obtain fs x where b: "BuildEngine pc eff = (fs, x)" by fastforce
  from assms e b obtain y where y: "x = Inr y"
    by (auto simp: main_def Let_def split: sum.splits option.splits)
  show thesis
    by (rule that [OF e b [unfolded y]]) (use assms e b y in
      \<open>auto simp: main_def Let_def NewServer_def WithLedger_server_def WithMetrics_server_def split: option.splits if_splits\<close>)
qed

text \<open>C25: Without authentication the bind guard accepts an IPv4 address with a port exactly when the
  address is a loopback address, and it never accepts an address without a host; with
  authentication it accepts every address.
\<close>

theorem bind_guard_ipv4:
  assumes "list_all (\<lambda>n. 0 \<le> n \<and> n \<le> 255) [a, b, c, d]" and "list_all is_digit port"
  shows "(checkBindAuth lookup (dotted a b c d @ '':'' @ port) False = None \<longleftrightarrow> a = 127)
    \<and> checkBindAuth lookup ('':'' @ port) False \<noteq> None \<and> checkBindAuth lookup addr True = None"
proof -
  have o: "0 \<le> a" "a \<le> 255" "0 \<le> b" "b \<le> 255" "0 \<le> c" "c \<le> 255" "0 \<le> d" "d \<le> 255" using assms(1) by simp_all
  have ne: "dotted a b c d \<noteq> []" by (simp add: dotted_def)
  have "(a * 256 + b) div 256 = a" using o by simp
  then have "IsLoopback (mapped (a, b, c, d)) \<longleftrightarrow> a = 127" by (simp add: IsLoopback_def mapped_def)
  then have 1: "addrIsLoopback lookup (dotted a b c d @ '':'' @ port) \<longleftrightarrow> a = 127"
    using split_dotted [OF o(1,3,5,7) assms(2)] parse_dotted [OF o] ne by (simp add: addrIsLoopback_def)
  have po: "x \<notin> set port" if "x \<in> {CHR '':'', CHR ''['', CHR '']''}" for x
    using that assms(2) by (auto simp: list_all_iff is_digit_def)
  have "takeWhile (\<lambda>c. c \<noteq> CHR '':'') (rev port @ [CHR '':'']) = rev port"
    using po by (subst takeWhile_append2) auto
  then have "SplitHostPort (CHR '':'' # port) = Some ([], port)"
    using po by (simp add: SplitHostPort_def last_colon_def)
  then have "\<not> addrIsLoopback lookup (CHR '':'' # port)" by (simp add: addrIsLoopback_def)
  with 1 show ?thesis by (simp add: checkBindAuth_def)
qed

theorem bind_guard_ipv4_witness:
  "checkBindAuth (\<lambda>_. Inr []) ''127.0.0.1:8723'' False = None \<and> checkBindAuth (\<lambda>_. Inr []) ''0.0.0.0:8723'' False \<noteq> None"
proof -
  have p: "list_all is_digit ''8723''" by (simp add: is_digit_def)
  have d: "dec_digits 127 = ''127''" "dec_digits 0 = ''0''" "dec_digits 1 = ''1''" by code_simp+
  have "list_all (\<lambda>n. 0 \<le> n \<and> n \<le> (255::int)) [127, 0, 0, 1]" "list_all (\<lambda>n. 0 \<le> n \<and> n \<le> (255::int)) [0, 0, 0, 0]" by simp_all
  from bind_guard_ipv4 [OF this(1) p, of "\<lambda>_. Inr []"] bind_guard_ipv4 [OF this(2) p, of "\<lambda>_. Inr []"]
  show ?thesis by (simp add: dotted_def d)
qed

text \<open>C24: A daemon that serves without an authorizer serves on a loopback address; one with an
  authorizer has the keys of the fixed variable, whatever \<^verbatim>\<open>auth.keys_env\<close> names; and its revert
  scan has a positive interval.
\<close>

theorem daemon_starts_guarded:
  assumes "main pc yaml lookup listen jerr cfgPath given fv = Serving sv authz every"
  shows "\<exists>eff. effective_config pc yaml cfgPath given fv = Inr eff \<and> 0 < every
    \<and> (case authz of
         None \<Rightarrow> addrIsLoopback lookup (srv_Addr (f_Server (eff_File eff))) \<and> \<not> auc_Enabled (f_Auth (eff_File eff))
       | Some a \<Rightarrow> a = LoadFromEnv (pc_env pc) \<and> auc_Enabled (f_Auth (eff_File eff)))"
  using assms by (rule main_Serving) (auto simp: checkBindAuth_def split: if_splits)

definition demo_file :: File where
  "demo_file = zero_file\<lparr>f_Platforms := Some [], f_Recipes := Some [(''fallback-storm'', \<lparr>rcc_Enabled = True, rcc_Params = None\<rparr>)]\<rparr>"

definition demo_flags :: flag_values where
  "demo_flags =
     \<lparr>fv_addr = ''127.0.0.1:8723'', fv_rules = ''rules'', fv_db = ''sloppy.db'', fv_pricebook = [], fv_key = ''sloppy.key'',
      fv_store = ''sqlite'', fv_redis_addr = [], fv_log_format = ''text'', fv_revert_interval = ''0s'', fv_fail_closed = False,
      fv_auth = False\<rparr>"

lemma demo_effective:
  "\<exists>eff. effective_config demo_process (\<lambda>_. Decoded demo_file) ''sloppy.yaml'' {} demo_flags = Inr eff \<and> eff_File eff = eff_File demo_config"
  "\<exists>eff. effective_config demo_process (\<lambda>_. Decoded demo_file) ''sloppy.yaml'' {''revert-interval''} demo_flags = Inr eff
     \<and> eff_File eff = set_interval ''0s'' (eff_File demo_config)"
  by (simp_all add: effective_config_def LoadFile_def demo_process_def demo_files_def Resolve_def env_layer_def flag_layer_def flag_def
      flag_overrides_def if_set_def demo_config_def demo_eff_def demo_file_def demo_flags_def Defaults_def applyDefaults_def zero_file_def dflt_def
      set_prov_def set_file_def set_interval_def Let_def)

lemma demo_main:
  "\<exists>sv. main demo_process (\<lambda>_. Decoded demo_file) (\<lambda>_. Inr []) (\<lambda>_. None) (\<lambda>_. []) ''sloppy.yaml'' {} demo_flags = Serving sv None (30 * second)"
proof -
  obtain eff where e: "effective_config demo_process (\<lambda>_. Decoded demo_file) ''sloppy.yaml'' {} demo_flags = Inr eff"
    "eff_File eff = eff_File demo_config" using demo_effective(1) by blast
  obtain fs b where b: "BuildEngine demo_process demo_config = (fs, Inr b)" using demo_built by blast
  have "BuildEngine demo_process eff = BuildEngine demo_process demo_config" by (rule BuildEngine_cong) (simp_all add: e)
  moreover have "auc_Enabled (f_Auth (eff_File demo_config)) = False" "srv_Addr (f_Server (eff_File demo_config)) = ''127.0.0.1:8723''"
      "srv_RevertInterval (f_Server (eff_File demo_config)) = ''30s''"
    by (simp_all add: demo_config_def demo_eff_def Defaults_def applyDefaults_def zero_file_def dflt_def)
  moreover have "parse_duration ''30s'' = Some (30 * second)" "(0::int) < second" by code_simp+
  moreover have "addrIsLoopback (\<lambda>_. Inr []) ''127.0.0.1:8723''" by code_simp
  ultimately show ?thesis using e b
    by (simp add: main_def checkBindAuth_def RevertInterval_def Let_def)
qed

theorem daemon_starts_guarded_witness:
  "\<exists>sv every. main demo_process (\<lambda>_. Decoded demo_file) (\<lambda>_. Inr []) (\<lambda>_. None) (\<lambda>_. []) ''sloppy.yaml'' {} demo_flags = Serving sv None every \<and> 0 < every"
proof -
  obtain sv where m: "main demo_process (\<lambda>_. Decoded demo_file) (\<lambda>_. Inr []) (\<lambda>_. None) (\<lambda>_. []) ''sloppy.yaml'' {} demo_flags =
      Serving sv None (30 * second)" using demo_main by blast
  from daemon_starts_guarded [OF m] m show ?thesis by blast
qed

text \<open>A revert interval of zero passes the validation of the configuration, and a daemon with it
  never serves: the ticker of the revert scan panics.
\<close>

theorem zero_interval_passes_validation:
  assumes "effective_config pc yaml cfgPath given fv = Inr eff" and "srv_RevertInterval (f_Server (eff_File eff)) = ''0s''"
  shows "Validate_file (set_interval ''0s'' Defaults) = []
    \<and> (\<forall>sv authz every. main pc yaml lookup listen jerr cfgPath given fv \<noteq> Serving sv authz every)"
proof
  show "Validate_file (set_interval ''0s'' Defaults) = []" by code_simp
  have z: "parse_duration ''0s'' = Some 0" by code_simp
  show "\<forall>sv authz every. main pc yaml lookup listen jerr cfgPath given fv \<noteq> Serving sv authz every"
  proof (intro allI notI)
    fix sv authz every
    assume "main pc yaml lookup listen jerr cfgPath given fv = Serving sv authz every"
    then show False by (rule main_Serving) (use assms z in \<open>auto simp: RevertInterval_def\<close>)
  qed
qed

theorem zero_interval_passes_validation_witness:
  "\<nexists>sv authz every. main demo_process (\<lambda>_. Decoded demo_file) (\<lambda>_. Inr []) (\<lambda>_. None) (\<lambda>_. []) ''sloppy.yaml''
     {''revert-interval''} demo_flags = Serving sv authz every"
proof -
  obtain eff where e: "effective_config demo_process (\<lambda>_. Decoded demo_file) ''sloppy.yaml'' {''revert-interval''} demo_flags = Inr eff"
    "eff_File eff = set_interval ''0s'' (eff_File demo_config)" using demo_effective(2) by blast
  have "srv_RevertInterval (f_Server (eff_File eff)) = ''0s''" by (simp add: e set_interval_def)
  from zero_interval_passes_validation [OF e(1) this] show ?thesis by blast
qed

text \<open>C2: The audit log of a running daemon verifies.  From a configuration with the SQLite store on a
  new database, whatever requests and ticks the daemon serves, its store passes its own audit
  verification, when storage raises no error, the clock stays within the four-digit years, the
  key file can be read back and signatures verify.
\<close>

theorem daemon_audit_verifies:
  assumes "main pc yaml lookup listen jerr cfgPath given fv = Serving sv authz every"
    and "effective_config pc yaml cfgPath given fv = Inr eff" and "sto_Kind (f_Store (eff_File eff)) = ''sqlite''"
    and "bk_sqlite (pc_backends pc) = (\<lambda>path. OpenSQLite empty_db (\<lambda>_. None) clock summation rows)"
    and "ed25519_scheme (pc_ed pc)" and "\<And>n. year_ok (clock n)" and "\<And>path. fs_readable (pc_fs pc) path"
    and "\<And>pub priv. pc_generate pc = Inr (pub, priv) \<Longrightarrow> length priv = PrivateKeySize"
  shows "fst (VerifyAudit (eng_store (sv_engine sv))
    (m_store (ss_mem (serve_run sv authz evs \<lparr>ss_mem = eng_mem (sv_engine sv), ss_statusBuf = None\<rparr>))))"
proof -
  from assms(1) obtain fs b where b: "BuildEngine pc eff = (fs, Inr b)" "sv_engine sv = bt_engine b"
    by (rule main_Serving) (use assms(2) in auto)
  from b(1) assms(3) obtain s where s: "bk_sqlite (pc_backends pc) (sto_Path (f_Store (eff_File eff)))
      [WithCheckpointSigner (Some (eng_signer (bt_engine b)))] = Inr s"
    and m: "m_store (eng_mem (bt_engine b)) = SqliteStore s"
    and o: "eng_store (bt_engine b) = iface_ops (pc_ed pc) (bk_redis (pc_backends pc))"
    by (rule BuildEngine_fields)
  obtain priv where k: "length priv = PrivateKeySize" "eng_signer (bt_engine b) = signerFromPrivate (pc_ed pc) priv"
    using LoadOrCreateSigner_ok [OF BuildEngine_signer [OF b(1)] assms(7,7)] assms(8) by blast
  from s assms(4) k(2) have op: "OpenSQLite empty_db (\<lambda>_. None) clock summation rows
      [WithCheckpointSigner (Some (signerFromPrivate (pc_ed pc) priv))] = Inr s" by simp
  obtain cs where "m_store (ss_mem (serve_run sv authz evs \<lparr>ss_mem = eng_mem (sv_engine sv), ss_statusBuf = None\<rparr>)) =
      run_calls (iface_ops (pc_ed pc) (bk_redis (pc_backends pc))) cs (SqliteStore s)"
    using serve_run_steps [of sv "\<lparr>ss_mem = eng_mem (sv_engine sv), ss_statusBuf = None\<rparr>" authz evs] b(2) m o
    by (auto simp: steps_by_def)
  with opened_store_verifies [OF assms(5) k(1) op assms(6)] o b(2) show ?thesis
    by (simp add: run_calls_iface) (simp add: iface_ops_def Let_def)
qed

theorem daemon_audit_verifies_witness:
  "\<exists>sv. main demo_process (\<lambda>_. Decoded demo_file) (\<lambda>_. Inr []) (\<lambda>_. None) (\<lambda>_. []) ''sloppy.yaml'' {} demo_flags = Serving sv None (30 * second)
     \<and> fst (VerifyAudit (eng_store (sv_engine sv))
         (m_store (ss_mem (serve_run sv None [Request (demo_post ''/v1/signals''), Ticker hour]
            \<lparr>ss_mem = eng_mem (sv_engine sv), ss_statusBuf = None\<rparr>))))"
proof -
  obtain sv where m: "main demo_process (\<lambda>_. Decoded demo_file) (\<lambda>_. Inr []) (\<lambda>_. None) (\<lambda>_. []) ''sloppy.yaml'' {} demo_flags =
      Serving sv None (30 * second)" using demo_main by blast
  obtain eff where e: "effective_config demo_process (\<lambda>_. Decoded demo_file) ''sloppy.yaml'' {} demo_flags = Inr eff"
    "eff_File eff = eff_File demo_config" using demo_effective(1) by blast
  have k: "sto_Kind (f_Store (eff_File eff)) = ''sqlite''"
    by (simp add: e demo_config_def demo_eff_def Defaults_def applyDefaults_def zero_file_def dflt_def)
  have p: "bk_sqlite (pc_backends demo_process) = (\<lambda>path. OpenSQLite empty_db (\<lambda>_. None) (\<lambda>_. 0) (\<lambda>_. F64 0) (\<lambda>_. 0))"
      "pc_ed demo_process = demo_ed" "\<And>path. fs_readable (pc_fs demo_process) path"
      "\<And>pub priv. pc_generate demo_process = Inr (pub, priv) \<Longrightarrow> length priv = PrivateKeySize"
    by (auto simp: demo_process_def demo_fs_def demo_key.priv_size)
  have sc: "ed25519_scheme (pc_ed demo_process)" using demo_key.ed25519_scheme_axioms p(2) by simp
  have "fst (VerifyAudit (eng_store (sv_engine sv)) (m_store (ss_mem (serve_run sv None evs
      \<lparr>ss_mem = eng_mem (sv_engine sv), ss_statusBuf = None\<rparr>))))" for evs
    by (rule daemon_audit_verifies [OF m e(1) k p(1) sc]) (simp_all add: year_ok_epoch p(3,4))
  with m show ?thesis by blast
qed

end
