(* ===== verification/Terminal.thy ===== *)
theory Terminal
  imports Bootstrap
begin

text \<open>
  What the subcommands of \<^verbatim>\<open>sloppy\<close> share: the parsing of flags as the standard library does it,
  the lines a command prints, and its effect.  A printed line is a value with the arguments of
  the print statement; the columns and the wording around them are not modelled.
\<close>

section \<open>Flags\<close>

text \<open>\<^verbatim>\<open>flag.FlagSet\<close>: a flag is declared by its name, whether it is boolean, and its default text.\<close>

record formal =
  fm_Name :: string
  fm_Bool :: bool
  fm_Default :: string

definition ParseBool :: "string \<Rightarrow> bool option" where
  "ParseBool s =
     (if s \<in> {''1'', ''t'', ''T'', ''true'', ''TRUE'', ''True''} then Some True
      else if s \<in> {''0'', ''f'', ''F'', ''false'', ''FALSE'', ''False''} then Some False
      else None)"

definition bool_text :: "bool \<Rightarrow> string" where
  "bool_text b = (if b then ''true'' else ''false'')"

text \<open>The text after the dashes; the equals sign cannot be its first character.\<close>

definition split_flag :: "string \<Rightarrow> string \<times> string option" where
  "split_flag t =
     (let rest = dropWhile (\<lambda>c. c \<noteq> CHR ''='') (tl t)
      in (hd t # takeWhile (\<lambda>c. c \<noteq> CHR ''='') (tl t), if rest = [] then None else Some (tl rest)))"

text \<open>\<^verbatim>\<open>FlagSet.Parse\<close> in the mode that returns its error: the values given, and the arguments left.\<close>

fun flag_parse :: "formal list \<Rightarrow> string list \<Rightarrow> string dict \<Rightarrow> (string dict \<times> string list) option" where
  "flag_parse fs [] vals = Some (vals, [])"
| "flag_parse fs (s # args) vals =
     (if length s < 2 \<or> hd s \<noteq> CHR ''-'' then Some (vals, s # args)
      else if s = ''--'' then Some (vals, args)
      else
        (let t = (if s ! 1 = CHR ''-'' then drop 2 s else drop 1 s)
         in if t = [] \<or> hd t = CHR ''-'' \<or> hd t = CHR ''='' then None
            else
              (let name = fst (split_flag t); value = snd (split_flag t)
               in case find (\<lambda>f. fm_Name f = name) fs of
                    None \<Rightarrow> None
                  | Some f \<Rightarrow>
                      (if fm_Bool f then
                         (case ParseBool (case value of None \<Rightarrow> ''true'' | Some v \<Rightarrow> v) of
                            None \<Rightarrow> None
                          | Some b \<Rightarrow> flag_parse fs args (AList.update name (bool_text b) vals))
                       else
                         (case value of
                            Some v \<Rightarrow> flag_parse fs args (AList.update name v vals)
                          | None \<Rightarrow>
                              (case args of
                                 [] \<Rightarrow> None
                               | v # args' \<Rightarrow> flag_parse fs args' (AList.update name v vals)))))))"

definition parse_args :: "formal list \<Rightarrow> string list \<Rightarrow> (string dict \<times> string list) option" where
  "parse_args fs args = flag_parse fs args (map (\<lambda>f. (fm_Name f, fm_Default f)) fs)"

definition text_flag :: "string \<Rightarrow> string \<Rightarrow> formal" where
  "text_flag n d = \<lparr>fm_Name = n, fm_Bool = False, fm_Default = d\<rparr>"

definition bool_flag :: "string \<Rightarrow> formal" where
  "bool_flag n = \<lparr>fm_Name = n, fm_Bool = True, fm_Default = ''false''\<rparr>"

definition flag_text :: "string dict \<Rightarrow> string \<Rightarrow> string" where
  "flag_text vals n = (case map_of vals n of None \<Rightarrow> [] | Some v \<Rightarrow> v)"

definition flag_on :: "string dict \<Rightarrow> string \<Rightarrow> bool" where
  "flag_on vals n \<longleftrightarrow> flag_text vals n = ''true''"

section \<open>What a command prints and changes\<close>

datatype cli_error =
    ErrText error
  | ErrSignal signal_error
  | ErrRules load_error
  | ErrRule rule_error
  | ErrKey key_error
  | ErrRecipe recipe_error

datatype line =
    UsageLine
  | SubcommandUsage string
  | VersionLine string
  | UnknownCommand string
  | ErrorLine cli_error
  | NoRuleFired
  | ResultLine Outcome ActionKind string
  | AuditLine int string string
  | ChainLine bool int
  | SignatureFailed int string
  | SignatureSummary int int
  | NoRuleFor string
  | WouldFire string string string string
  | ReplaySummary int int
  | CheckLine bool string string
  | RuleInvalid int string rule_error
  | InvalidCount int int
  | ValidCount int
  | Rendered string
  | ProblemLine Problem
  | RecipesProblem recipe_error
  | ProblemCount int
  | ConfigValid
  | SchemaText
  | UnknownSubcommand string
  | NoPlatforms
  | PlatformHeader
  | PlatformLine string bool bool bool
  | RecipeHeader
  | RecipeLine string string string
  | UnknownRecipe string "string list"
  | RecipeText string
  | RecipeSha string
  | AlreadyInitialized string
  | Wrote string
  | CreatedKey string
  | CreatedDir string
  | NextSteps

type_synonym printed = "line list \<times> int"

record effect =
  ef_fs :: FS
  ef_mem :: "(sqliteStore, World) mem option"
  ef_out :: printed

definition failed :: "cli_error \<Rightarrow> printed" where
  "failed e = ([ErrorLine e], 1)"

definition reading :: "FS \<Rightarrow> printed \<Rightarrow> effect" where
  "reading fs p = \<lparr>ef_fs = fs, ef_mem = None, ef_out = p\<rparr>"

end
