(* ===== verification/Init.thy ===== *)
theory Init
  imports Terminal
begin

text \<open>
  \<^verbatim>\<open>sloppy init\<close> (\<^verbatim>\<open>cmd/sloppy/init.go\<close>): the scaffold of a working directory.  The command writes its files in
  a fixed order and stops at the first error; what was written by then stays.  Directories and
  the failures of creating one are arguments, files are those of the key store.

  The lemmas: which files a run can change, that it changes nothing in a directory that has a
  configuration unless it is told to, and that a finished run makes the next one do nothing.
\<close>

section \<open>The files\<close>

definition text_lines :: "string list \<Rightarrow> bytes" where
  "text_lines ls = concat (map (\<lambda>l. l @ nl) ls)"

text \<open>The em dash of the source, in UTF-8.\<close>

definition em_dash :: string where
  "em_dash = [CHR 0xE2, CHR 0x80, CHR 0x94]"

definition scaffoldConfig :: bytes where
  "scaffoldConfig = text_lines
     [''# yaml-language-server: $schema=https://raw.githubusercontent.com/sloppyjoe/sloppy/main/docs/sloppy.schema.json'',
      ''# Sloppy Joe configuration. Hand-edited and Git-reviewed; the CLI never rewrites'',
      ''# this file (this scaffold is the one exception). Check it with:'',
      ''#   sloppy config validate    sloppy platform list    sloppy recipe list'',
      ''version: 1'',
      [],
      ''store:'',
      ''  kind: sqlite          # sqlite | redis'',
      ''  path: sloppy.db'',
      [],
      ''engine:'',
      ''  signing_key: sloppy.key'',
      ''  log_format: text      # text | json'',
      [],
      ''# Hand-written rules (optional once recipes below cover you).'',
      ''rules:'',
      ''  - ./rules'',
      [],
      ''# Platforms to act on. Secrets are NEVER inline: reference an env var resolved by'',
      ''# the SLOPPY_TOKEN_* broker (see .env.sample). Disabled until you add credentials.'',
      ''platforms:'',
      ''  litellm: { enabled: false, url: http://localhost:4000, token_env: SLOPPY_TOKEN_LITELLM }'',
      ''  github:  { enabled: false, repo: owner/name,           token_env: SLOPPY_TOKEN_GITHUB }'',
      ''  slack:   { enabled: false, channel: '' @ [dquote] @ ''#ai-ops'' @ [dquote] @ '',         token_env: SLOPPY_TOKEN_SLACK }'',
      [],
      ''# Curated workflows. '' @ [CHR 0x27] @ ''sloppy recipe list'' @ [CHR 0x27] @ '' to browse; '' @ [CHR 0x27] @ ''sloppy recipe show <name>'' @ [CHR 0x27],
      ''# to see the exact rule one renders to. Configure each inline.'',
      ''recipes:'',
      ''  cost-guard:'',
      ''    enabled: true'',
      ''    threshold_usd_1h: 5.0'',
      ''    failover: { alias: gpt-4o, to: ollama/llama3, ttl: 30m }'']"

definition scaffoldEnv :: bytes where
  "scaffoldEnv = text_lines
     [''# Sloppy Joe secrets. Fill in and load via your secret manager; never commit values.'',
      ''# The broker also accepts <NAME>_FILE pointing at a mounted file (e.g. /run/secrets).'',
      ''# SLOPPY_TOKEN_LITELLM='',
      ''# SLOPPY_TOKEN_GITHUB='',
      ''# SLOPPY_TOKEN_SLACK='',
      ''# SLOPPY_API_KEYS=key1=ingest:write,status:read'']"

definition scaffoldStarterRule :: bytes where
  "scaffoldStarterRule = text_lines
     [''# Sloppy Joe STARTER rule (active). This fires on minute one so a fresh install is'',
      ''# not a dead-end: inject a cost.budget_burn signal (e.g. the shipped'',
      ''# examples/signals/cost-spike.json) and watch it act + write a verifiable audit'',
      ''# chain. The '' @ [CHR 0x27] @ ''page'' @ [CHR 0x27] @ '' action logs via the built-in Log actuator '' @ em_dash @ '' no credentials'',
      ''# needed. Edit the predicate/actions for your environment, or delete this file once'',
      ''# you have your own rules. Validate with: sloppy rules validate ./rules'',
      ''on: cost.budget_burn                       # signal type to match'',
      ''when: signal.data.spend_1h_usd > 5.0       # CEL-style predicate'',
      ''then:'',
      ''  - page: {slack: '' @ [dquote] @ ''#ai-ops'' @ [dquote] @ ''}               # action taken when the rule fires'',
      ''with: {dry_run: false}'']"

definition scaffoldRulesSample :: bytes where
  "scaffoldRulesSample = text_lines
     [''# Sloppy Joe hand-written rule (sample). Copy to a *.yaml file in this directory'',
      ''# and uncomment to activate. One YAML document = one rule. Check with:'',
      ''#   sloppy rules validate ./rules'',
      ''#'',
      ''# on: cost.budget_burn                       # signal type to match'',
      ''# when: signal.data.spend_1h_usd > 5.0       # CEL-style predicate'',
      ''# then:'',
      ''#   - page: { slack: '' @ [dquote] @ ''#ai-ops'' @ [dquote] @ '' }             # action(s) to take when it fires'']"

definition scaffoldPricebookSample :: bytes where
  "scaffoldPricebookSample = text_lines
     [''# Sloppy Joe price book (sample) '' @ em_dash @ '' ILLUSTRATIVE ONLY, NOT AUTHORITATIVE.'',
      ''# Copy to a *.yaml file and wire it with: sloppyd --pricebook <file>'',
      ''# (or set engine.pricebook in sloppy.yaml). Maps a model to its per-1k-token price'',
      ''# in USD; the cost ledger uses it to turn OTLP token metrics into estimated spend,'',
      ''# which the cost-guard recipe guards against. A model absent here is priced at $0.'',
      ''# These numbers are rough and WILL drift '' @ em_dash @ '' replace with your provider'' @ [CHR 0x27] @ ''s current rates.'',
      ''#'',
      ''# Schema: <model-name>: { input_per_1k: <usd>, output_per_1k: <usd> }'',
      ''gpt-4o:'',
      ''  input_per_1k: 0.0025'',
      ''  output_per_1k: 0.01'',
      ''gpt-4o-mini:'',
      ''  input_per_1k: 0.00015'',
      ''  output_per_1k: 0.0006'',
      ''claude-3-5-sonnet:'',
      ''  input_per_1k: 0.003'',
      ''  output_per_1k: 0.015'',
      ''ollama/llama3:'',
      ''  input_per_1k: 0.0'',
      ''  output_per_1k: 0.0'']"

section \<open>The command\<close>

record disk =
  dk_isDir :: "string \<Rightarrow> bool"
  dk_mkdir :: "string \<Rightarrow> error option"

definition Stat_ok :: "disk \<Rightarrow> FS \<Rightarrow> string \<Rightarrow> bool" where
  "Stat_ok disk fs path \<longleftrightarrow> dk_isDir disk path \<or> map_of (fs_files fs) path \<noteq> None"

text \<open>A step reads and changes the files, and gives the lines it prints or its error.\<close>

type_synonym step = "FS \<Rightarrow> FS \<times> (cli_error + line list)"

definition write_file :: "string \<Rightarrow> bytes \<Rightarrow> step" where
  "write_file path b fs =
     (case WriteFile fs path b of Inl e \<Rightarrow> (fs, Inl (ErrText e)) | Inr fs' \<Rightarrow> (fs', Inr [Wrote path]))"

definition write_absent :: "disk \<Rightarrow> string \<Rightarrow> bytes \<Rightarrow> step" where
  "write_absent disk path b fs = (if Stat_ok disk fs path then (fs, Inr []) else write_file path b fs)"

definition make_key :: "ed25519 \<Rightarrow> (bytes \<times> bytes) result \<Rightarrow> string \<Rightarrow> step" where
  "make_key ed gen path fs =
     (case LoadOrCreateSigner ed fs path gen of
        (fs', Inl e) \<Rightarrow> (fs', Inl (ErrKey e))
      | (fs', Inr _) \<Rightarrow> (fs', Inr [CreatedKey path]))"

definition make_dir :: "disk \<Rightarrow> string \<Rightarrow> step" where
  "make_dir disk path fs = (case dk_mkdir disk path of Some e \<Rightarrow> (fs, Inl (ErrText e)) | None \<Rightarrow> (fs, Inr [CreatedDir path]))"

fun run_steps :: "step list \<Rightarrow> line list \<Rightarrow> FS \<Rightarrow> effect" where
  "run_steps [] ls fs = reading fs (ls @ [NextSteps], 0)"
| "run_steps (st # sts) ls fs =
     (case st fs of
        (fs', Inl e) \<Rightarrow> reading fs' (ls @ [ErrorLine e], 1)
      | (fs', Inr l) \<Rightarrow> run_steps sts (ls @ l) fs')"

definition init_flags :: "formal list" where
  "init_flags = [text_flag ''config'' ''sloppy.yaml'', bool_flag ''force'', bool_flag ''yes'']"

definition init_steps :: "ed25519 \<Rightarrow> (bytes \<times> bytes) result \<Rightarrow> disk \<Rightarrow> string \<Rightarrow> step list" where
  "init_steps ed gen disk cfgPath =
     (let dir = Dir_path cfgPath; rulesDir = Join_path dir ''rules''
      in [write_file cfgPath scaffoldConfig,
          write_file (Join_path dir ''.env.sample'') scaffoldEnv,
          write_absent disk (Join_path dir ''pricebook.yaml.sample'') scaffoldPricebookSample,
          make_key ed gen (Join_path dir ''sloppy.key''),
          make_dir disk rulesDir,
          write_absent disk (Join_path rulesDir ''starter.yaml'') scaffoldStarterRule,
          write_file (Join_path rulesDir ''example.yaml.sample'') scaffoldRulesSample])"

definition cmdInit :: "ed25519 \<Rightarrow> (bytes \<times> bytes) result \<Rightarrow> disk \<Rightarrow> FS \<Rightarrow> string list \<Rightarrow> effect" where
  "cmdInit ed gen disk fs args =
     (case parse_args init_flags args of
        None \<Rightarrow> reading fs ([], 2)
      | Some (vals, _) \<Rightarrow>
          (let cfgPath = flag_text vals ''config''
           in if Stat_ok disk fs cfgPath \<and> \<not> flag_on vals ''force'' then reading fs ([AlreadyInitialized cfgPath], 0)
              else run_steps (init_steps ed gen disk cfgPath) [] fs))"

section \<open>What a run leaves alone\<close>

text \<open>The readable files outside a set are as they were, and no file is gone.\<close>

definition left_by :: "string set \<Rightarrow> FS \<Rightarrow> FS \<Rightarrow> bool" where
  "left_by W fs fs' \<longleftrightarrow>
     fs_readable fs' = fs_readable fs \<and> dom (map_of (fs_files fs)) \<subseteq> dom (map_of (fs_files fs'))
     \<and> (\<forall>p b. p \<notin> W \<longrightarrow> ReadFile fs p = Some b \<longrightarrow> ReadFile fs' p = Some b)"

lemma left_by_refl [simp]: "left_by W fs fs"
  by (simp add: left_by_def)

lemma left_by_trans: "left_by W fs fs' \<Longrightarrow> left_by W fs' fs'' \<Longrightarrow> left_by W fs fs''"
  unfolding left_by_def by (elim conjE, intro conjI) (simp, erule (1) subset_trans, blast)

lemma left_by_write: "WriteFile fs path b = Inr fs' \<Longrightarrow> path \<in> W \<or> ReadFile fs path = None \<Longrightarrow> left_by W fs fs'"
  by (auto simp: left_by_def WriteFile_def ReadFile_def split: option.splits)

lemma left_by_export: "exportPublicKey fs path pub = Inr fs' \<Longrightarrow> PublicKeyPath path \<in> W \<Longrightarrow> left_by W fs fs'"
  by (auto simp: exportPublicKey_def Let_def left_by_write split: option.splits if_splits sum.splits)

lemma left_by_signer:
  assumes "PublicKeyPath path \<in> W"
  shows "left_by W fs (fst (LoadOrCreateSigner ed fs path gen))"
proof (cases "ReadFile fs path")
  case None
  with assms show ?thesis
    by (auto simp: LoadOrCreateSigner_def split: sum.splits intro: left_by_write left_by_trans [OF left_by_write left_by_export])
next
  case (Some b)
  with assms show ?thesis by (auto simp: LoadOrCreateSigner_def left_by_export split: option.splits sum.splits)
qed

definition leaves :: "string set \<Rightarrow> step \<Rightarrow> bool" where
  "leaves W st \<longleftrightarrow> (\<forall>fs. left_by W fs (fst (st fs)))"

lemma leaves_write_file: "path \<in> W \<Longrightarrow> leaves W (write_file path b)"
  by (auto simp: leaves_def write_file_def left_by_write split: sum.splits)

lemma leaves_write_absent: "leaves W (write_absent disk path b)"
  proof -
  have "left_by W fs fs'" if "WriteFile fs path b = Inr fs'" "\<not> Stat_ok disk fs path" for fs fs'
    by (rule left_by_write [OF that(1)]) (use that(2) in \<open>simp add: Stat_ok_def ReadFile_def\<close>)
  then show ?thesis by (auto simp: leaves_def write_absent_def write_file_def split: sum.splits)
qed

lemma leaves_make_key: "PublicKeyPath path \<in> W \<Longrightarrow> leaves W (make_key ed gen path)"
  using left_by_signer [of path W _ ed gen]
  by (simp add: leaves_def make_key_def split_def split: sum.splits)

lemma leaves_make_dir: "leaves W (make_dir disk path)"
  by (auto simp: leaves_def make_dir_def split: option.splits)

lemmas leaves_rules = leaves_write_file leaves_write_absent leaves_make_key leaves_make_dir

lemma run_steps_leaves: "list_all (leaves W) sts \<Longrightarrow> left_by W fs (ef_fs (run_steps sts ls fs))"
proof (induction sts arbitrary: ls fs)
  case (Cons st sts)
  obtain fs' x where s: "st fs = (fs', x)" by (cases "st fs")
  from Cons.prems s have l: "left_by W fs fs'" "list_all (leaves W) sts"
    by (simp_all, simp add: leaves_def) (metis fst_conv)
  with Cons.IH [OF l(2), of fs'] s show ?case by (auto simp: reading_def split: sum.splits intro: left_by_trans)
qed (simp add: reading_def)

lemma init_steps_leave:
  "list_all (leaves {cfgPath, Join_path (Dir_path cfgPath) ''.env.sample'',
      PublicKeyPath (Join_path (Dir_path cfgPath) ''sloppy.key''),
      Join_path (Join_path (Dir_path cfgPath) ''rules'') ''example.yaml.sample''})
    (init_steps ed gen disk cfgPath)"
  by (simp add: init_steps_def leaves_rules Let_def)

lemma run_steps_ok_first:
  assumes "snd (ef_out (run_steps (write_file path b # sts) ls fs)) = 0" and "list_all (leaves W) sts"
  shows "map_of (fs_files (ef_fs (run_steps (write_file path b # sts) ls fs))) path \<noteq> None"
proof (cases "WriteFile fs path b")
  case (Inl e)
  with assms(1) show ?thesis by (simp add: write_file_def reading_def)
next
  case (Inr fs')
  then have "path \<in> dom (map_of (fs_files fs'))" by (auto simp: WriteFile_def split: option.splits)
  with run_steps_leaves [OF assms(2), of fs' "ls @ [Wrote path]"]
  have "path \<in> dom (map_of (fs_files (ef_fs (run_steps sts (ls @ [Wrote path]) fs'))))"
    unfolding left_by_def by blast
  with Inr show ?thesis by (auto simp: write_file_def)
qed

text \<open>C33: \<^verbatim>\<open>sloppy init\<close> never destroys what an operator has edited.  In a directory that has a
  configuration it changes no file and succeeds, unless it is forced.  Forced or not, every
  readable file keeps its contents except the configuration, the two sample texts it owns and
  the exported public key: the signing key, the starter rule and the price book stay.
\<close>

theorem init_never_clobbers:
  assumes "parse_args init_flags args = Some (vals, rest)" and "cfg = flag_text vals ''config''"
  shows "(Stat_ok disk fs cfg \<and> \<not> flag_on vals ''force'' \<longrightarrow>
        cmdInit ed gen disk fs args = reading fs ([AlreadyInitialized cfg], 0))
    \<and> (ReadFile fs p = Some b \<and>
       p \<notin> {cfg, Join_path (Dir_path cfg) ''.env.sample'', PublicKeyPath (Join_path (Dir_path cfg) ''sloppy.key''),
             Join_path (Join_path (Dir_path cfg) ''rules'') ''example.yaml.sample''}
       \<longrightarrow> ReadFile (ef_fs (cmdInit ed gen disk fs args)) p = Some b)"
proof -
  have "cmdInit ed gen disk fs args =
      (if Stat_ok disk fs cfg \<and> \<not> flag_on vals ''force'' then reading fs ([AlreadyInitialized cfg], 0)
       else run_steps (init_steps ed gen disk cfg) [] fs)"
    using assms by (simp add: cmdInit_def Let_def)
  then show ?thesis using run_steps_leaves [OF init_steps_leave [of cfg ed gen disk], of fs "[]"]
    by (auto simp: reading_def left_by_def)
qed

theorem init_never_clobbers_witness:
  "ReadFile (ef_fs (cmdInit demo_ed (Inl ''no entropy'') \<lparr>dk_isDir = (\<lambda>_. False), dk_mkdir = (\<lambda>_. None)\<rparr>
      \<lparr>fs_files = [(''sloppy.yaml'', ''version: 1''), (''rules/starter.yaml'', ''on: edited'')], fs_readable = (\<lambda>_. True), fs_write_error = (\<lambda>_. None)\<rparr>
      [''--force''])) ''rules/starter.yaml'' = Some ''on: edited''"
proof -
  have p: "parse_args init_flags [''--force''] = Some ([(''config'', ''sloppy.yaml''), (''force'', ''true''), (''yes'', ''false'')], [])"
    by code_simp
  have c: "flag_text [(''config'', ''sloppy.yaml''), (''force'', ''true''), (''yes'', ''false'')] ''config'' = ''sloppy.yaml''"
    by code_simp
  have j: "''rules/starter.yaml'' \<notin> {''sloppy.yaml'', Join_path (Dir_path ''sloppy.yaml'') ''.env.sample'',
      PublicKeyPath (Join_path (Dir_path ''sloppy.yaml'') ''sloppy.key''),
      Join_path (Join_path (Dir_path ''sloppy.yaml'') ''rules'') ''example.yaml.sample''}"
    by code_simp
  show ?thesis
    by (rule init_never_clobbers [OF p c [symmetric], THEN conjunct2, rule_format]) (use j in \<open>simp add: ReadFile_def\<close>)
qed

text \<open>\<^verbatim>\<open>sloppy init\<close> is idempotent: after a run that succeeded, a run with the same
  configuration path that is not forced succeeds and changes nothing.
\<close>

theorem init_idempotent:
  assumes "parse_args init_flags args = Some (vals, rest)" and "parse_args init_flags args' = Some (vals', rest')"
    and "flag_text vals' ''config'' = flag_text vals ''config''" and "\<not> flag_on vals' ''force''"
    and "snd (ef_out (cmdInit ed gen disk fs args)) = 0"
  shows "cmdInit ed' gen' disk (ef_fs (cmdInit ed gen disk fs args)) args' =
    reading (ef_fs (cmdInit ed gen disk fs args)) ([AlreadyInitialized (flag_text vals ''config'')], 0)"
proof -
  let ?cfg = "flag_text vals ''config''" and ?fs = "ef_fs (cmdInit ed gen disk fs args)"
  have "Stat_ok disk ?fs ?cfg"
  proof (cases "Stat_ok disk fs ?cfg \<and> \<not> flag_on vals ''force''")
    case True
    with assms(1) show ?thesis by (simp add: cmdInit_def reading_def)
  next
    case False
    with assms(1) have c: "cmdInit ed gen disk fs args = run_steps (init_steps ed gen disk ?cfg) [] fs"
      by (auto simp: cmdInit_def Let_def)
    obtain b sts where "init_steps ed gen disk ?cfg = write_file ?cfg b # sts" by (simp add: init_steps_def Let_def)
    with run_steps_ok_first [of ?cfg b sts "[]" fs] init_steps_leave [of ?cfg ed gen disk] c assms(5)
    show ?thesis by (auto simp: Stat_ok_def)
  qed
  with assms(2-4) show ?thesis by (simp add: cmdInit_def)
qed

theorem init_idempotent_witness:
  "\<exists>fs. cmdInit demo_ed (Inr (take 32 demo_priv, demo_priv)) \<lparr>dk_isDir = (\<lambda>_. False), dk_mkdir = (\<lambda>_. None)\<rparr> demo_fs [] = fs
     \<and> ef_out (cmdInit demo_ed (Inl ''no entropy'') \<lparr>dk_isDir = (\<lambda>_. False), dk_mkdir = (\<lambda>_. None)\<rparr> (ef_fs fs) []) =
         ([AlreadyInitialized ''sloppy.yaml''], 0)"
proof -
  let ?v = "[(''config'', ''sloppy.yaml''), (''force'', ''false''), (''yes'', ''false'')]"
    and ?d = "\<lparr>dk_isDir = (\<lambda>_. False), dk_mkdir = (\<lambda>_. None)\<rparr>"
  have p: "parse_args init_flags [] = Some (?v, [])" by code_simp
  have c: "flag_text ?v ''config'' = ''sloppy.yaml''" "\<not> flag_on ?v ''force''" by code_simp+
  have j: "Dir_path ''sloppy.yaml'' = ''.''" "Join_path ''.'' ''rules'' = ''rules''" "Join_path ''.'' ''.env.sample'' = ''.env.sample''"
    "Join_path ''.'' ''pricebook.yaml.sample'' = ''pricebook.yaml.sample''" "Join_path ''.'' ''sloppy.key'' = ''sloppy.key''"
    "Join_path ''rules'' ''starter.yaml'' = ''rules/starter.yaml''"
    "Join_path ''rules'' ''example.yaml.sample'' = ''rules/example.yaml.sample''" by code_simp+
  have "snd (ef_out (cmdInit demo_ed (Inr (take 32 demo_priv, demo_priv)) ?d demo_fs [])) = 0"
    by (simp add: cmdInit_def p c init_steps_def j write_file_def write_absent_def make_key_def make_dir_def Stat_ok_def WriteFile_def
        demo_fs_def LoadOrCreateSigner_def exportPublicKey_def ReadFile_def PublicKeyPath_def reading_def Let_def)
  from init_idempotent [OF p p refl c(2) this] show ?thesis by (simp add: reading_def c(1))
qed

end
