(* ===== verification/Cli.thy ===== *)
theory Cli
  imports Doctor Daemon Init
begin

text \<open>
  Command \<^verbatim>\<open>sloppy\<close> (\<^verbatim>\<open>cmd/sloppy/main.go\<close>): the dispatch and every subcommand but
  \<^verbatim>\<open>init\<close>, which has a theory of its own.  A command gives the lines it prints and its exit code;
  \<^verbatim>\<open>inject\<close> also changes the key file, the store and the outside world (the log actuator prints
  there).  The record of the process is the one the daemon starts from.

  The lemmas: what the exit code of \<^verbatim>\<open>audit\<close> says, that a log written by \<^verbatim>\<open>inject\<close> passes it, how
  the two validation commands relate to the start of the daemon, and a configuration that
  \<^verbatim>\<open>doctor\<close> accepts and the daemon refuses.
\<close>

text \<open>The commands override nothing of the configuration.\<close>

definition cli_config :: "('r, 'ast) process \<Rightarrow> (bytes \<Rightarrow> yaml_result) \<Rightarrow> string \<Rightarrow> (File \<times> Effective) result" where
  "cli_config pc yaml cfgPath =
     (case LoadFile yaml (fl_read (pc_files pc)) cfgPath of
        Inl e \<Rightarrow> Inl e
      | Inr (f, existed) \<Rightarrow> Inr (f, Resolve f existed no_flags (Some (pc_env pc))))"

definition registryFromConfig :: "('r, 'ast) process \<Rightarrow> (bytes \<Rightarrow> yaml_result) \<Rightarrow> string \<Rightarrow> World ActRegistry result" where
  "registryFromConfig pc yaml cfgPath =
     (case cli_config pc yaml cfgPath of
        Inl e \<Rightarrow> Inl e
      | Inr (f, eff) \<Rightarrow> BuildRegistry (pc_env pc) (pc_secret_files pc) eff)"

section \<open>inject\<close>

definition inject_flags :: "formal list" where
  "inject_flags =
     [text_flag ''rules'' ''rules'', text_flag ''db'' ''sloppy.db'', text_flag ''config'' ''sloppy.yaml'',
      text_flag ''key'' ''sloppy.key'', bool_flag ''now'']"

definition inject_lines :: "Result list \<Rightarrow> line list" where
  "inject_lines rs =
     (if rs = [] then [NoRuleFired]
      else map (\<lambda>r. ResultLine (res_Outcome r) (ri_Kind (res_Intent r)) (ri_Target (res_Intent r))) rs)"

text \<open>The engine of the command: no ledger, no metrics and the fail modes of a new engine.\<close>

definition inject_engine ::
    "('r, 'ast) process \<Rightarrow> Reconciler \<Rightarrow> World ActRegistry \<Rightarrow> sqliteStore \<Rightarrow> Signer \<Rightarrow> bool \<Rightarrow> (sqliteStore, World) Engine" where
  "inject_engine pc rc reg st signer now =
     New_engine w_now rc reg (sqlite_ops (pc_ed pc)) st (pc_world pc) signer (if now then [WithImmediate] else [])"

definition inject_signal ::
    "('r, 'ast) process \<Rightarrow> (bytes \<Rightarrow> yaml_result) \<Rightarrow> string dict \<Rightarrow> Signal \<Rightarrow> Reconciler \<Rightarrow> effect" where
  "inject_signal pc yaml vals sig rc =
     (case LoadOrCreateSigner (pc_ed pc) (pc_fs pc) (flag_text vals ''key'') (pc_generate pc) of
        (fs, Inl e) \<Rightarrow> reading fs (failed (ErrKey e))
      | (fs, Inr signer) \<Rightarrow>
          (case bk_sqlite (pc_backends pc) (flag_text vals ''db'') [WithCheckpointSigner (Some signer)] of
             Inl e \<Rightarrow> reading fs (failed (ErrText e))
           | Inr st \<Rightarrow>
               (case registryFromConfig pc yaml (flag_text vals ''config'') of
                  Inl e \<Rightarrow> reading fs (failed (ErrText e))
                | Inr reg \<Rightarrow>
                    (let e = inject_engine pc rc reg st signer (flag_on vals ''now'');
                         (rs, m) = Handle e sig (eng_mem e)
                     in \<lparr>ef_fs = fs, ef_mem = Some m, ef_out = (inject_lines rs, 0)\<rparr>))))"

definition cmdInject :: "('r, 'ast) process \<Rightarrow> (bytes \<Rightarrow> yaml_result) \<Rightarrow> string list \<Rightarrow> effect" where
  "cmdInject pc yaml args =
     (case parse_args inject_flags args of
        None \<Rightarrow> reading (pc_fs pc) ([], 2)
      | Some (vals, [path]) \<Rightarrow>
          (case LoadSignal (pc_files pc) path of
             Inl e \<Rightarrow> reading (pc_fs pc) (failed (ErrSignal e))
           | Inr sig \<Rightarrow>
               (case LoadRules (yl_Rule (pc_yaml pc)) (pc_files pc) (flag_text vals ''rules'') of
                  Inl e \<Rightarrow> reading (pc_fs pc) (failed (ErrRules e))
                | Inr rs \<Rightarrow>
                    (case NewReconciler (pc_cel pc) rs of
                       Inl e \<Rightarrow> reading (pc_fs pc) (failed (ErrRule e))
                     | Inr rc \<Rightarrow> inject_signal pc yaml vals sig rc)))
      | Some (vals, _) \<Rightarrow> reading (pc_fs pc) ([SubcommandUsage ''inject''], 2))"

section \<open>audit\<close>

definition sig_lines :: "ed25519 \<Rightarrow> bytes \<Rightarrow> AuditEntry list \<Rightarrow> line list" where
  "sig_lines ed pub es =
     map (\<lambda>e. SignatureFailed (ae_Seq e) (ae_Kind e))
       (filter (\<lambda>e. VerifyAuditDetail ed pub (ae_Detail e) = (False, True)) es)"

text \<open>The counts of the loop: an entry without a signature counts for neither.\<close>

definition sig_counts :: "ed25519 \<Rightarrow> bytes \<Rightarrow> AuditEntry list \<Rightarrow> int \<times> int" where
  "sig_counts ed pub es =
     fold (\<lambda>e (v, f). case VerifyAuditDetail ed pub (ae_Detail e) of
             (ok, found) \<Rightarrow> if \<not> found then (v, f) else if ok then (v + 1, f) else (v, f + 1)) es (0, 0)"

definition verifyAuditSigs :: "ed25519 \<Rightarrow> FS \<Rightarrow> AuditEntry list \<Rightarrow> string \<Rightarrow> string \<Rightarrow> printed" where
  "verifyAuditSigs ed fs es keyPath pubPath =
     (case LoadVerifierKey fs (if pubPath = [] then PublicKeyPath keyPath else pubPath) of
        Inl e \<Rightarrow> failed (ErrKey e)
      | Inr pub \<Rightarrow>
          (let (v, f) = sig_counts ed pub es
           in (sig_lines ed pub es @ [SignatureSummary v f], if f > 0 then 1 else 0)))"

definition audit_flags :: "formal list" where
  "audit_flags =
     [text_flag ''db'' ''sloppy.db'', text_flag ''key'' ''sloppy.key'', text_flag ''pubkey'' [], bool_flag ''verify-sigs'']"

definition audit_report :: "('r, 'ast) process \<Rightarrow> string dict \<Rightarrow> AuditEntry list \<Rightarrow> bool \<Rightarrow> printed" where
  "audit_report pc vals es chainOK =
     (let ls = map (\<lambda>e. AuditLine (ae_Seq e) (ae_Kind e) (ae_Detail e)) es @ [ChainLine chainOK (int (length es))]
      in if flag_on vals ''verify-sigs'' then
           (let (sl, rc) = verifyAuditSigs (pc_ed pc) (pc_fs pc) es (flag_text vals ''key'') (flag_text vals ''pubkey'')
            in (ls @ sl, if \<not> chainOK \<and> rc = 0 then 1 else rc))
         else (ls, if chainOK then 0 else 1))"

definition cmdAudit :: "('r, 'ast) process \<Rightarrow> string list \<Rightarrow> printed" where
  "cmdAudit pc args0 =
     (let args = (if args0 \<noteq> [] \<and> hd args0 = ''tail'' then tl args0 else args0)
      in case parse_args audit_flags args of
           None \<Rightarrow> ([], 2)
         | Some (vals, _) \<Rightarrow>
             (case bk_sqlite (pc_backends pc) (flag_text vals ''db'') [WithRequireCheckpoint True] of
                Inl e \<Rightarrow> failed (ErrText e)
              | Inr st \<Rightarrow>
                  (case sqlite_Audit st of
                     (Inl e, _) \<Rightarrow> failed (ErrText e)
                   | (Inr es, st') \<Rightarrow> audit_report pc vals es (fst (sqlite_VerifyAudit (pc_ed pc) st')))))"

section \<open>test\<close>

definition test_flags :: "formal list" where
  "test_flags = [text_flag ''rules'' ''rules'', text_flag ''replay'' []]"

definition replay_lines :: "replay_Result \<Rightarrow> line list" where
  "replay_lines r =
     (if \<not> rr_Matched r then [NoRuleFor (rr_SignalID r)]
      else map (\<lambda>f. WouldFire (rr_SignalID r) (fd_Kind f) (fd_Target f) (fd_Rule f)) (rr_Intents r))"

definition fired_count :: "replay_Result list \<Rightarrow> int" where
  "fired_count rs = sum_list (map (\<lambda>r. if rr_Matched r then int (length (rr_Intents r)) else 0) rs)"

definition cmdTest :: "('r, 'ast) process \<Rightarrow> string list \<Rightarrow> printed" where
  "cmdTest pc args =
     (case parse_args test_flags args of
        None \<Rightarrow> ([], 2)
      | Some (vals, _) \<Rightarrow>
          (if flag_text vals ''replay'' = [] then ([SubcommandUsage ''test''], 2)
           else
             case LoadSignalsJSONL (pc_files pc) (flag_text vals ''replay'') of
               Inl e \<Rightarrow> failed (ErrSignal e)
             | Inr sigs \<Rightarrow>
                 (case LoadRules (yl_Rule (pc_yaml pc)) (pc_files pc) (flag_text vals ''rules'') of
                    Inl e \<Rightarrow> failed (ErrRules e)
                  | Inr rs \<Rightarrow>
                      (case NewReconciler (pc_cel pc) rs of
                         Inl e \<Rightarrow> failed (ErrRule e)
                       | Inr rc \<Rightarrow>
                           (let out = Replay_Run rc sigs
                            in (concat (map replay_lines out) @ [ReplaySummary (int (length sigs)) (fired_count out)], 0))))))"

section \<open>doctor\<close>

definition doctor_flags :: "formal list" where
  "doctor_flags = [text_flag ''rules'' ''rules'', text_flag ''db'' ''sloppy.db'', text_flag ''config'' ''sloppy.yaml'']"

text \<open>The error of loading the file is dropped; what is left of it then is the zero value.\<close>

definition doctor_config :: "('r, 'ast) process \<Rightarrow> (bytes \<Rightarrow> yaml_result) \<Rightarrow> string \<Rightarrow> Effective" where
  "doctor_config pc yaml cfgPath =
     (case cli_config pc yaml cfgPath of
        Inr (f, eff) \<Rightarrow> eff
      | Inl _ \<Rightarrow>
          Resolve zero_file (case fl_read (pc_files pc) cfgPath of Contents _ \<Rightarrow> True | _ \<Rightarrow> False) no_flags
            (Some (pc_env pc)))"

definition doctor_checks ::
    "('r, 'ast) process \<Rightarrow> (bytes \<Rightarrow> yaml_result) \<Rightarrow> (string \<Rightarrow> int result) \<Rightarrow> string dict \<Rightarrow> Check list" where
  "doctor_checks pc yaml get vals =
     (let eff = doctor_config pc yaml (flag_text vals ''config'');
          litellm = (case map_of (platforms_of (eff_File eff)) ''litellm'' of
                       None \<Rightarrow> (False, []) | Some p \<Rightarrow> (plt_Enabled p, plt_URL p));
          opener = bk_sqlite (pc_backends pc)
      in [CheckRules (yl_Rule (pc_yaml pc)) (pc_files pc) (flag_text vals ''rules''),
          CheckDB opener (flag_text vals ''db''),
          CheckLedger opener (w_now (pc_world pc)) (flag_text vals ''db''),
          CheckPlatforms (pc_env pc) eff,
          CheckLiteLLM get (fst litellm) (snd litellm)] @
         (case BuildRegistry (pc_env pc) (pc_secret_files pc) eff of
            Inl _ \<Rightarrow> [] | Inr reg \<Rightarrow> [CheckActuators (Kinds reg)]))"

definition cmdDoctor ::
    "('r, 'ast) process \<Rightarrow> (bytes \<Rightarrow> yaml_result) \<Rightarrow> (string \<Rightarrow> int result) \<Rightarrow> string list \<Rightarrow> printed" where
  "cmdDoctor pc yaml get args =
     (case parse_args doctor_flags args of
        None \<Rightarrow> ([], 2)
      | Some (vals, _) \<Rightarrow>
          (let cs = doctor_checks pc yaml get vals
           in (map (\<lambda>c. CheckLine (ck_OK c) (ck_Name c) (ck_Detail c)) cs, if list_all ck_OK cs then 0 else 1)))"

section \<open>rules, config\<close>

fun invalid_rules :: "'ast cel \<Rightarrow> int \<Rightarrow> Rule list \<Rightarrow> line list" where
  "invalid_rules cel i [] = []"
| "invalid_rules cel i (r # rs) =
     (case Validate cel r of
        None \<Rightarrow> invalid_rules cel (i + 1) rs
      | Some e \<Rightarrow> RuleInvalid (i + 1) (rule_SHA r) e # invalid_rules cel (i + 1) rs)"

definition cmdRules :: "('r, 'ast) process \<Rightarrow> string list \<Rightarrow> printed" where
  "cmdRules pc args =
     (if args = [] \<or> hd args \<noteq> ''validate'' then ([SubcommandUsage ''rules''], 2)
      else
        (let path = (case tl args of [] \<Rightarrow> ''rules'' | p # _ \<Rightarrow> p)
         in case LoadRules (yl_Rule (pc_yaml pc)) (pc_files pc) path of
              Inl e \<Rightarrow> failed (ErrRules e)
            | Inr rs \<Rightarrow>
                (let bad = invalid_rules (pc_cel pc) 0 rs
                 in if bad \<noteq> [] then (bad @ [InvalidCount (int (length bad)) (int (length rs))], 1)
                    else ([ValidCount (int (length rs))], 0))))"

definition pad_right :: "nat \<Rightarrow> string \<Rightarrow> string" where
  "pad_right n s = s @ replicate (n - length s) (CHR '' '')"

definition source_text :: "Source \<Rightarrow> string" where
  "source_text s =
     (case s of SourceDefault \<Rightarrow> ''default'' | SourceFile \<Rightarrow> ''file'' | SourceEnv \<Rightarrow> ''env'' | SourceFlag \<Rightarrow> ''flag'')"

definition provenance_line :: "Effective \<Rightarrow> string \<Rightarrow> string" where
  "provenance_line e k =
     (let src = Effective_Source e k
      in ''#   '' @ pad_right 28 k @ '' '' @ (case src of None \<Rightarrow> [] | Some s \<Rightarrow> source_text s) @
         (if src = Some SourceEnv \<or> src = Some SourceFlag then ''   <- overrides file'' else []) @ nl)"

text \<open>\<^verbatim>\<open>marshal\<close> is the YAML encoder; writing to the terminal is taken to succeed.\<close>

definition RenderEffective :: "(File \<Rightarrow> string result) \<Rightarrow> Effective \<Rightarrow> bool \<Rightarrow> string result" where
  "RenderEffective marshal e showProvenance =
     (case marshal (eff_File e) of
        Inl err \<Rightarrow> Inl err
      | Inr b \<Rightarrow>
          Inr (if \<not> showProvenance then b
               else b @ nl @ ''# sources (precedence: flag > env > file > default):'' @ nl @
                    concat (map (provenance_line e) (Effective_Keys e))))"

definition config_flags :: "formal list" where
  "config_flags = [text_flag ''config'' ''sloppy.yaml'', bool_flag ''provenance'']"

definition config_validate :: "('r, 'ast) process \<Rightarrow> (bytes \<Rightarrow> yaml_result) \<Rightarrow> string \<Rightarrow> printed" where
  "config_validate pc yaml cfgPath =
     (case cli_config pc yaml cfgPath of
        Inl e \<Rightarrow> failed (ErrText e)
      | Inr (f, eff) \<Rightarrow>
          (let probs = Validate_file f;
               rec = (case RenderRecipes (pc_yaml pc) eff of Inl e \<Rightarrow> [RecipesProblem e] | Inr _ \<Rightarrow> []);
               n = length probs + length rec
           in if n > 0 then (map ProblemLine probs @ rec @ [ProblemCount (int n)], 1) else ([ConfigValid], 0)))"

text \<open>The subcommand is looked at after its flags are parsed.\<close>

definition cmdConfig ::
    "('r, 'ast) process \<Rightarrow> (bytes \<Rightarrow> yaml_result) \<Rightarrow> (File \<Rightarrow> string result) \<Rightarrow> string list \<Rightarrow> printed" where
  "cmdConfig pc yaml marshal args =
     (if args = [] then ([SubcommandUsage ''config''], 2)
      else
        case parse_args config_flags (tl args) of
          None \<Rightarrow> ([], 2)
        | Some (vals, _) \<Rightarrow>
            (if hd args = ''show'' then
               (case cli_config pc yaml (flag_text vals ''config'') of
                  Inl e \<Rightarrow> failed (ErrText e)
                | Inr (f, eff) \<Rightarrow>
                    (case RenderEffective marshal eff (flag_on vals ''provenance'') of
                       Inl e \<Rightarrow> failed (ErrText e)
                     | Inr t \<Rightarrow> ([Rendered t], 0)))
             else if hd args = ''validate'' then config_validate pc yaml (flag_text vals ''config'')
             else if hd args = ''schema'' then ([SchemaText], 0)
             else ([UnknownSubcommand (hd args), SubcommandUsage ''config''], 2)))"

section \<open>platform, recipe\<close>

definition platform_line :: "env \<Rightarrow> Platform dict \<Rightarrow> string \<Rightarrow> line" where
  "platform_line getenv ps n =
     (let p = (case map_of ps n of None \<Rightarrow> zero_platform | Some p \<Rightarrow> p)
      in PlatformLine n (plt_Enabled p)
           (plt_TokenEnv p \<noteq> [] \<and> (getenv (plt_TokenEnv p) \<noteq> [] \<or> getenv (plt_TokenEnv p @ ''_FILE'') \<noteq> []))
           (plt_Experimental p))"

definition cmdPlatform :: "('r, 'ast) process \<Rightarrow> (bytes \<Rightarrow> yaml_result) \<Rightarrow> string list \<Rightarrow> printed" where
  "cmdPlatform pc yaml args =
     (if args = [] \<or> hd args \<noteq> ''list'' then ([SubcommandUsage ''platform''], 2)
      else
        case parse_args [text_flag ''config'' ''sloppy.yaml''] (tl args) of
          None \<Rightarrow> ([], 2)
        | Some (vals, _) \<Rightarrow>
            (case cli_config pc yaml (flag_text vals ''config'') of
               Inl e \<Rightarrow> failed (ErrText e)
             | Inr (f, eff) \<Rightarrow>
                 (let ps = platforms_of (eff_File eff); names = sort (map fst ps)
                  in if names = [] then ([NoPlatforms], 0)
                     else (PlatformHeader # map (platform_line (pc_env pc) ps) names, 0))))"

definition recipe_status :: "RecipeConfig dict \<Rightarrow> string \<Rightarrow> string" where
  "recipe_status rcs n =
     (case map_of rcs n of
        None \<Rightarrow> ''available''
      | Some rc \<Rightarrow> if rcc_Enabled rc then ''enabled'' else ''disabled'')"

definition recipe_show :: "('r, 'ast) process \<Rightarrow> Effective \<Rightarrow> string \<Rightarrow> printed" where
  "recipe_show pc eff name =
     (if name = [] then ([SubcommandUsage ''recipe show''], 2)
      else if \<not> Known name then ([UnknownRecipe name Names], 1)
      else case RenderRecipeText (pc_yaml pc) eff name of
        Inl e \<Rightarrow> failed (ErrRecipe e)
      | Inr (t, sha) \<Rightarrow> ([RecipeText t, RecipeSha sha], 0))"

definition cmdRecipe :: "('r, 'ast) process \<Rightarrow> (bytes \<Rightarrow> yaml_result) \<Rightarrow> string list \<Rightarrow> printed" where
  "cmdRecipe pc yaml args =
     (if args = [] then ([SubcommandUsage ''recipe''], 2)
      else
        (let sub = hd args; rest0 = tl args;
             named = (sub = ''show'' \<and> rest0 \<noteq> [] \<and> \<not> prefix ''-'' (hd rest0));
             name = (if named then hd rest0 else []); rest = (if named then tl rest0 else rest0)
         in case parse_args [text_flag ''config'' ''sloppy.yaml''] rest of
              None \<Rightarrow> ([], 2)
            | Some (vals, _) \<Rightarrow>
                (case cli_config pc yaml (flag_text vals ''config'') of
                   Inl e \<Rightarrow> failed (ErrText e)
                 | Inr (f, eff) \<Rightarrow>
                     (if sub = ''list'' then
                        (RecipeHeader # map (\<lambda>n. RecipeLine n (recipe_status (recipes_of (eff_File eff)) n) (Summary n)) Names, 0)
                      else if sub = ''show'' then recipe_show pc eff name
                      else ([UnknownSubcommand sub, SubcommandUsage ''recipe''], 2)))))"

section \<open>run\<close>

definition run ::
    "('r, 'ast) process \<Rightarrow> (bytes \<Rightarrow> yaml_result) \<Rightarrow> (File \<Rightarrow> string result) \<Rightarrow> (string \<Rightarrow> int result) \<Rightarrow> disk \<Rightarrow>
     string \<Rightarrow> string list \<Rightarrow> effect" where
  "run pc yaml marshal get disk version args =
     (case args of
        [] \<Rightarrow> reading (pc_fs pc) ([UsageLine], 2)
      | c # rest \<Rightarrow>
          (if c \<in> {''help'', ''-h'', ''--help''} then reading (pc_fs pc) ([UsageLine], 0)
           else if c = ''init'' then cmdInit (pc_ed pc) (pc_generate pc) disk (pc_fs pc) rest
           else if c = ''version'' then reading (pc_fs pc) ([VersionLine version], 0)
           else if c = ''inject'' then cmdInject pc yaml rest
           else if c = ''rules'' then reading (pc_fs pc) (cmdRules pc rest)
           else if c = ''audit'' then reading (pc_fs pc) (cmdAudit pc rest)
           else if c = ''test'' then reading (pc_fs pc) (cmdTest pc rest)
           else if c = ''doctor'' then reading (pc_fs pc) (cmdDoctor pc yaml get rest)
           else if c = ''config'' then reading (pc_fs pc) (cmdConfig pc yaml marshal rest)
           else if c = ''platform'' then reading (pc_fs pc) (cmdPlatform pc yaml rest)
           else if c = ''recipe'' then reading (pc_fs pc) (cmdRecipe pc yaml rest)
           else reading (pc_fs pc) ([UnknownCommand c, UsageLine], 2)))"

section \<open>The exit code of an audit\<close>

lemma opened_verify_only:
  obtains s where "OpenSQLite db (\<lambda>_. None) clock summation rows [WithRequireCheckpoint True] = Inr s"
    "st_db s = db" "st_signer s = None" "st_require s" "st_fault s = (\<lambda>_. None)"
  by (rule that [of "\<lparr>st_db = db, st_signer = None, st_require = True, st_tick = 2, st_fault = \<lambda>_. None, st_clock = clock,
      st_sum = summation, st_rows = rows\<rparr>"])
    (simp_all add: OpenSQLite_def exec_def fault_now_def next_tick_def set_db_def applyStoreOptions_def WithRequireCheckpoint_def Let_def)

definition anchored :: "ed25519 \<Rightarrow> sqlite_db \<Rightarrow> bool" where
  "anchored ed db \<longleftrightarrow>
     (case audit_checkpoint db of
        None \<Rightarrow> audit_entries db = []
      | Some cp \<Rightarrow> VerifyAgainstCheckpoint ed (audit_entries db) cp True True)"

lemma verify_only_audit:
  assumes "st_fault s = (\<lambda>_. None)" and "st_require s"
  shows "\<exists>s'. sqlite_Audit s = (Inr (audit_entries (st_db s)), s') \<and> fst (sqlite_VerifyAudit ed s') = anchored ed (st_db s)"
  using assms
  by (auto simp: sqlite_Audit_def sqlite_VerifyAudit_def loadCheckpoint_def query_rows_def query_def fault_now_def next_tick_def
      audit_entries_def anchored_def VerifyAgainstCheckpoint_def VerifyChain_def split: option.splits)

lemma cmdAudit_eq:
  assumes "bk_sqlite (pc_backends pc) = (\<lambda>path. OpenSQLite (dbs path) (\<lambda>_. None) clock summation rows)"
    and "parse_args audit_flags args = Some (vals, rest)" and "take 1 args \<noteq> [''tail'']"
  shows "cmdAudit pc args =
    audit_report pc vals (audit_entries (dbs (flag_text vals ''db''))) (anchored (pc_ed pc) (dbs (flag_text vals ''db'')))"
proof -
  obtain s where s: "OpenSQLite (dbs (flag_text vals ''db'')) (\<lambda>_. None) clock summation rows [WithRequireCheckpoint True] = Inr s"
    "st_db s = dbs (flag_text vals ''db'')" "st_require s" "st_fault s = (\<lambda>_. None)"
    by (rule opened_verify_only)
  obtain s' where s': "sqlite_Audit s = (Inr (audit_entries (st_db s)), s')"
    "fst (sqlite_VerifyAudit (pc_ed pc) s') = anchored (pc_ed pc) (st_db s)"
    using verify_only_audit [OF s(4,3)] by blast
  have "(if args \<noteq> [] \<and> hd args = ''tail'' then tl args else args) = args" using assms(3) by (cases args) auto
  with assms(1,2) s s' show ?thesis by (simp add: cmdAudit_def Let_def)
qed

definition sig_fails :: "ed25519 \<Rightarrow> bytes \<Rightarrow> AuditEntry \<Rightarrow> bool" where
  "sig_fails ed pub e \<longleftrightarrow> VerifyAuditDetail ed pub (ae_Detail e) = (False, True)"

lemma sig_counts_failed: "snd (sig_counts ed pub es) = int (length (filter (sig_fails ed pub) es))"
proof -
  have "snd (fold (\<lambda>e (v, f). case VerifyAuditDetail ed pub (ae_Detail e) of
      (ok, found) \<Rightarrow> if \<not> found then (v, f) else if ok then (v + 1, f) else (v, f + 1)) es (v, f)) =
    f + int (length (filter (sig_fails ed pub) es))" for v f :: int
    by (induction es arbitrary: v f) (auto simp: sig_fails_def split: prod.splits)
  then show ?thesis by (simp add: sig_counts_def)
qed

lemma verifyAuditSigs_code:
  "snd (verifyAuditSigs ed fs es key pub) = 0 \<longleftrightarrow>
    (\<exists>k. LoadVerifierKey fs (if pub = [] then PublicKeyPath key else pub) = Inr k \<and> list_all (\<lambda>e. \<not> sig_fails ed k e) es)"
  using sig_counts_failed [of ed _ es]
  by (auto simp: verifyAuditSigs_def failed_def split_def Let_def list_all_iff filter_empty_conv split: sum.splits)

text \<open>C15: \<^verbatim>\<open>sloppy audit\<close> succeeds exactly on an intact log: on a readable database its exit code is
  zero if and only if the entries verify against the signed checkpoint, which only an empty log
  may lack, and, when signatures are asked for, the public key loads and no signed entry fails
  under it.
\<close>

theorem audit_exit_code:
  assumes "bk_sqlite (pc_backends pc) = (\<lambda>path. OpenSQLite (dbs path) (\<lambda>_. None) clock summation rows)"
    and "parse_args audit_flags args = Some (vals, rest)" and "take 1 args \<noteq> [''tail'']"
    and "db = dbs (flag_text vals ''db'')"
  shows "snd (cmdAudit pc args) = 0 \<longleftrightarrow>
    (case audit_checkpoint db of
       None \<Rightarrow> audit_entries db = []
     | Some cp \<Rightarrow> VerifyAgainstCheckpoint (pc_ed pc) (audit_entries db) cp True True)
    \<and> (flag_on vals ''verify-sigs'' \<longrightarrow>
        (\<exists>k. LoadVerifierKey (pc_fs pc)
               (if flag_text vals ''pubkey'' = [] then PublicKeyPath (flag_text vals ''key'') else flag_text vals ''pubkey'') = Inr k
           \<and> list_all (\<lambda>e. VerifyAuditDetail (pc_ed pc) k (ae_Detail e) \<noteq> (False, True)) (audit_entries db)))"
  unfolding cmdAudit_eq [OF assms(1-3)] assms(4) [symmetric] anchored_def [symmetric] sig_fails_def [symmetric]
    verifyAuditSigs_code [symmetric] audit_report_def
  by (simp add: Let_def split_def)

lemma audit_defaults:
  "parse_args audit_flags [] =
     Some ([(''db'', ''sloppy.db''), (''key'', ''sloppy.key''), (''pubkey'', []), (''verify-sigs'', ''false'')], [])"
  by code_simp

theorem audit_exit_code_witness:
  "snd (cmdAudit demo_process []) = 0"
proof -
  have b: "bk_sqlite (pc_backends demo_process) = (\<lambda>path. OpenSQLite ((\<lambda>_. empty_db) path) (\<lambda>_. None) (\<lambda>_. 0) (\<lambda>_. F64 0) (\<lambda>_. 0))"
    by (simp add: demo_process_def)
  have f: "\<not> flag_on [(''db'', ''sloppy.db''), (''key'', ''sloppy.key''), (''pubkey'', []), (''verify-sigs'', ''false'')] ''verify-sigs''"
    by code_simp
  have d: "audit_checkpoint empty_db = None" "audit_entries empty_db = []" by (simp_all add: empty_db_def audit_entries_def audit_in_order_def)
  show ?thesis using audit_exit_code [OF b audit_defaults _ refl] f d by simp
qed

lemma cmdInject_run:
  assumes "ef_mem (cmdInject pc yaml args) = Some m"
  obtains vals signer st cs where
    "LoadOrCreateSigner (pc_ed pc) (pc_fs pc) (flag_text vals ''key'') (pc_generate pc) = (ef_fs (cmdInject pc yaml args), Inr signer)"
    "bk_sqlite (pc_backends pc) (flag_text vals ''db'') [WithCheckpointSigner (Some signer)] = Inr st"
    "m_store m = run_calls (sqlite_ops (pc_ed pc)) cs st"
proof -
  from assms obtain vals sig rc where c: "cmdInject pc yaml args = inject_signal pc yaml vals sig rc"
    by (auto simp: cmdInject_def reading_def split: option.splits list.splits sum.splits)
  obtain fs x where k: "LoadOrCreateSigner (pc_ed pc) (pc_fs pc) (flag_text vals ''key'') (pc_generate pc) = (fs, x)" by fastforce
  from assms c k obtain signer st reg where i: "x = Inr signer"
      "bk_sqlite (pc_backends pc) (flag_text vals ''db'') [WithCheckpointSigner (Some signer)] = Inr st"
      "registryFromConfig pc yaml (flag_text vals ''config'') = Inr reg"
    by (auto simp: inject_signal_def reading_def split: sum.splits)
  let ?e = "inject_engine pc rc reg st signer (flag_on vals ''now'')"
  have m: "m = snd (Handle ?e sig (eng_mem ?e))" "ef_fs (cmdInject pc yaml args) = fs"
    using assms c k i by (auto simp: inject_signal_def Let_def split_def)
  have "eng_store ?e = sqlite_ops (pc_ed pc)" "m_store (eng_mem ?e) = st"
    by (simp_all add: inject_engine_def New_engine_def WithImmediate_def)
  with Handle_steps [of ?e "eng_mem ?e" sig] m(1) obtain cs where "m_store m = run_calls (sqlite_ops (pc_ed pc)) cs st"
    by (auto simp: steps_by_def)
  with that k i m(2) show thesis by blast
qed

lemma sound_anchored:
  assumes "audit_sound (Some g) db" and "honest_signer ed g"
  shows "anchored ed db"
proof -
  have "length (audit_entries db) = length (audit db)" by (simp add: audit_entries_def audit_in_order_def)
  with assms(1) show ?thesis
    by (auto simp: anchored_def audit_sound_def honest_signer.checkpoint_accepts_iff [OF assms(2)] split: if_splits)
qed

text \<open>C14: A log written by \<^verbatim>\<open>sloppy inject\<close> passes \<^verbatim>\<open>sloppy audit\<close>: whatever signal, rules and
  configuration the first command runs with on a new database, the second, which holds no
  private key and requires the checkpoint, exits with zero on what it left, when storage raises
  no error, the clock stays within the four-digit years, the key file can be read back and
  signatures verify.
\<close>

theorem injected_log_passes_audit:
  assumes "ef_mem (cmdInject pc yaml args) = Some m"
    and "bk_sqlite (pc_backends pc) = (\<lambda>path. OpenSQLite empty_db (\<lambda>_. None) clock summation rows)"
    and "ed25519_scheme (pc_ed pc)" and "\<And>n. year_ok (clock n)" and "\<And>path. fs_readable (pc_fs pc) path"
    and "\<And>pub priv. pc_generate pc = Inr (pub, priv) \<Longrightarrow> length priv = PrivateKeySize"
    and "bk_sqlite (pc_backends pc') = (\<lambda>path. OpenSQLite (st_db (m_store m)) (\<lambda>_. None) clock' summation' rows')"
    and "pc_ed pc' = pc_ed pc"
  shows "snd (cmdAudit pc' []) = 0"
proof -
  obtain vals signer st cs where r:
    "LoadOrCreateSigner (pc_ed pc) (pc_fs pc) (flag_text vals ''key'') (pc_generate pc) = (ef_fs (cmdInject pc yaml args), Inr signer)"
    "bk_sqlite (pc_backends pc) (flag_text vals ''db'') [WithCheckpointSigner (Some signer)] = Inr st"
    "m_store m = run_calls (sqlite_ops (pc_ed pc)) cs st"
    using assms(1) by (rule cmdInject_run)
  obtain priv where k: "length priv = PrivateKeySize" "signer = signerFromPrivate (pc_ed pc) priv"
    using LoadOrCreateSigner_ok [OF r(1) assms(5,5)] assms(6) by blast
  have s: "st_db st = empty_db" "st_signer st = Some signer" "st_clock st = clock" "st_fault st = (\<lambda>_. None)"
    using r(2) unfolding assms(2)
    by (auto simp: OpenSQLite_def exec_def fault_now_def next_tick_def set_db_def applyStoreOptions_def WithCheckpointSigner_def Let_def)
  have "audit_sound (Some signer) (st_db (m_store m))"
    using run_keeps_sound [of st "pc_ed pc" cs] s assms(4) r(3)
    by (simp add: sqlite_healthy_def audit_sound_empty)
  then have "anchored (pc_ed pc) (st_db (m_store m))"
    by (rule sound_anchored) (use honest_signerFromPrivate [OF assms(3) k(1)] k(2) in simp)
  moreover have "cmdAudit pc' [] = audit_report pc'
      [(''db'', ''sloppy.db''), (''key'', ''sloppy.key''), (''pubkey'', []), (''verify-sigs'', ''false'')]
      (audit_entries (st_db (m_store m))) (anchored (pc_ed pc') (st_db (m_store m)))"
    by (rule cmdAudit_eq [OF assms(7) audit_defaults]) simp
  ultimately show ?thesis using assms(8) by (simp add: audit_report_def flag_on_def flag_text_def Let_def)
qed

definition demo_cli :: "(memory, string) process" where
  "demo_cli = demo_process\<lparr>pc_files :=
     \<lparr>fl_stat = (\<lambda>p. if p = ''rules'' then RegularFile else NoFile), fl_dir = (\<lambda>_. []),
      fl_read = (\<lambda>p. if p = ''s.json'' then Contents ''{}'' else if p = ''rules'' then Contents [] else NotExist)\<rparr>\<rparr>"

lemma demo_cli_rules: "\<exists>r. LoadRules (yl_Rule (pc_yaml demo_cli)) (pc_files demo_cli) ''rules'' = Inr [r] \<and> rule_When r = ''true''"
  by (simp add: demo_cli_def demo_process_def LoadRules_def rule_files_def demo_yaml_def ParseRules_def raw_actions_def Let_def)

lemma demo_inject: "\<exists>m. ef_mem (cmdInject demo_cli (\<lambda>_. EndOfInput) [''s.json'']) = Some m"
proof -
  let ?v = "[(''rules'', ''rules''), (''db'', ''sloppy.db''), (''config'', ''sloppy.yaml''), (''key'', ''sloppy.key''), (''now'', ''false'')]"
  have p: "parse_args inject_flags [''s.json''] = Some (?v, [''s.json''])" by code_simp
  have v: "flag_text ?v ''rules'' = ''rules''" "flag_text ?v ''db'' = ''sloppy.db''" "flag_text ?v ''config'' = ''sloppy.yaml''"
    "flag_text ?v ''key'' = ''sloppy.key''" by code_simp+
  have "unmarshal_into dec_signal zero_signal ''{}'' = Some zero_signal" by code_simp
  then have sg: "LoadSignal (pc_files demo_cli) ''s.json'' = Inr zero_signal" by (simp add: demo_cli_def LoadSignal_def)
  obtain r where r: "LoadRules (yl_Rule (pc_yaml demo_cli)) (pc_files demo_cli) ''rules'' = Inr [r]" "rule_When r = ''true''"
    using demo_cli_rules by blast
  obtain rc where rc: "NewReconciler (pc_cel demo_cli) [r] = Inr rc"
    using r(2) by (simp add: demo_cli_def demo_process_def NewReconciler_def CompileCondition_def demo_cel_def)
  obtain fs where fs: "LoadOrCreateSigner (pc_ed demo_cli) (pc_fs demo_cli) ''sloppy.key'' (pc_generate demo_cli) =
      (fs, Inr (signerFromPrivate demo_ed demo_priv))"
    by (simp add: demo_cli_def demo_process_def LoadOrCreateSigner_def demo_fs_def ReadFile_def WriteFile_def exportPublicKey_def Let_def)
  obtain s where s: "bk_sqlite (pc_backends demo_cli) ''sloppy.db'' [WithCheckpointSigner (Some (signerFromPrivate demo_ed demo_priv))] = Inr s"
    by (simp add: demo_cli_def demo_process_def OpenSQLite_def exec_def fault_now_def Let_def next_tick_def set_db_def)
  obtain reg where reg: "registryFromConfig demo_cli (\<lambda>_. EndOfInput) ''sloppy.yaml'' = Inr reg"
    by (simp add: registryFromConfig_def cli_config_def LoadFile_def demo_cli_def demo_process_def Resolve_def env_layer_def flag_layer_def
        flag_def no_flags_def BuildRegistry_def platforms_of_def Defaults_def applyDefaults_def zero_file_def Let_def)
  show ?thesis
    by (simp add: cmdInject_def p v sg r(1) rc inject_signal_def fs s reg split_def Let_def)
qed

theorem injected_log_passes_audit_witness:
  "\<exists>m. ef_mem (cmdInject demo_cli (\<lambda>_. EndOfInput) [''s.json'']) = Some m
     \<and> snd (cmdAudit (demo_cli\<lparr>pc_backends := (pc_backends demo_cli)\<lparr>bk_sqlite :=
          (\<lambda>path. OpenSQLite (st_db (m_store m)) (\<lambda>_. None) (\<lambda>_. 0) (\<lambda>_. F64 0) (\<lambda>_. 0))\<rparr>\<rparr>) []) = 0"
proof -
  obtain m where m: "ef_mem (cmdInject demo_cli (\<lambda>_. EndOfInput) [''s.json'']) = Some m" using demo_inject by blast
  let ?pc = "demo_cli\<lparr>pc_backends := (pc_backends demo_cli)\<lparr>bk_sqlite :=
      (\<lambda>path. OpenSQLite (st_db (m_store m)) (\<lambda>_. None) (\<lambda>_. 0) (\<lambda>_. F64 0) (\<lambda>_. 0))\<rparr>\<rparr>"
  have p: "bk_sqlite (pc_backends demo_cli) = (\<lambda>path. OpenSQLite empty_db (\<lambda>_. None) (\<lambda>_. 0) (\<lambda>_. F64 0) (\<lambda>_. 0))"
      "pc_ed demo_cli = demo_ed" "\<And>path. fs_readable (pc_fs demo_cli) path"
      "\<And>pub priv. pc_generate demo_cli = Inr (pub, priv) \<Longrightarrow> length priv = PrivateKeySize"
      "bk_sqlite (pc_backends ?pc) = (\<lambda>path. OpenSQLite (st_db (m_store m)) (\<lambda>_. None) (\<lambda>_. 0) (\<lambda>_. F64 0) (\<lambda>_. 0))"
      "pc_ed ?pc = pc_ed demo_cli"
    by (auto simp: demo_cli_def demo_process_def demo_fs_def demo_key.priv_size)
  have sc: "ed25519_scheme (pc_ed demo_cli)" using demo_key.ed25519_scheme_axioms p(2) by simp
  have "snd (cmdAudit ?pc []) = 0"
    by (rule injected_log_passes_audit [OF m p(1) sc _ p(3) p(4) p(5,6)]) (simp add: year_ok_epoch)
  with m show ?thesis by blast
qed

section \<open>The validation commands and the start of the daemon\<close>

lemma cmdRules_ok:
  assumes "snd (cmdRules pc [''validate'', p]) = 0"
  obtains rs where "LoadRules (yl_Rule (pc_yaml pc)) (pc_files pc) p = Inr rs" "rs \<noteq> []" "list_all (\<lambda>r. Validate (pc_cel pc) r = None) rs"
proof -
  from assms obtain rs where rs: "LoadRules (yl_Rule (pc_yaml pc)) (pc_files pc) p = Inr rs" "invalid_rules (pc_cel pc) 0 rs = []"
    by (auto simp: cmdRules_def failed_def Let_def split: sum.splits if_splits)
  have "invalid_rules (pc_cel pc) i rs = [] \<Longrightarrow> list_all (\<lambda>r. Validate (pc_cel pc) r = None) rs" for i
    by (induction rs arbitrary: i) (auto split: option.splits)
  moreover have "rs \<noteq> []" using rs(1) by (auto simp: LoadRules_def split: stat_result.splits sum.splits if_splits)
  ultimately show thesis using that rs by blast
qed

lemma lenient_of_valid:
  "list_all (\<lambda>p. snd (cmdRules pc [''validate'', p]) = 0) ps \<Longrightarrow>
   \<exists>rs. loadRulesLenient (yl_Rule (pc_yaml pc)) (pc_files pc) ps = Inr rs \<and> (ps \<noteq> [] \<longrightarrow> rs \<noteq> [])
      \<and> list_all (\<lambda>r. Validate (pc_cel pc) r = None) rs"
proof (induction ps)
  case (Cons p ps)
  then obtain rest where rest: "loadRulesLenient (yl_Rule (pc_yaml pc)) (pc_files pc) ps = Inr rest"
    "list_all (\<lambda>r. Validate (pc_cel pc) r = None) rest" by auto
  from Cons.prems have "snd (cmdRules pc [''validate'', p]) = 0" by simp
  then obtain rs where rs: "LoadRules (yl_Rule (pc_yaml pc)) (pc_files pc) p = Inr rs" "rs \<noteq> []"
    "list_all (\<lambda>r. Validate (pc_cel pc) r = None) rs" by (rule cmdRules_ok)
  then have "fl_stat (pc_files pc) p = RegularFile \<or> fl_stat (pc_files pc) p = Directory"
    by (cases "fl_stat (pc_files pc) p") (simp_all add: LoadRules_def)
  with rs rest show ?case by auto
qed simp

lemma Resolve_wiring:
  "f_Recipes (eff_File (Resolve f existed fl g)) = f_Recipes (eff_File (Resolve f existed no_flags g))"
  "f_Platforms (eff_File (Resolve f existed fl g)) = f_Platforms (eff_File (Resolve f existed no_flags g))"
  by (simp_all add: Resolve_def Let_def)

lemma env_layer_platforms:
  "fst ` set (platforms_of (eff_File (env_layer g e))) \<subseteq> insert ''litellm'' (fst ` set (platforms_of (eff_File e)))"
  by (auto simp: env_layer_def platforms_of_def set_prov_def Let_def dom_update)

lemma Resolve_known:
  assumes "Validate_file f = []" and "(n, p) \<in> set (platforms_of (eff_File (Resolve f existed fl g)))"
  shows "n \<in> set knownPlatforms"
proof -
  obtain g' pr where "eff_File (Resolve f existed fl g) =
      eff_File (flag_layer fl (env_layer g' \<lparr>eff_File = applyDefaults f, eff_prov = pr\<rparr>))" by (simp add: Resolve_def Let_def)
  then have "platforms_of (eff_File (Resolve f existed fl g)) =
      platforms_of (eff_File (env_layer g' \<lparr>eff_File = applyDefaults f, eff_prov = pr\<rparr>))" by (simp add: platforms_of_def)
  moreover have "platforms_of (applyDefaults f) = platforms_of f" by (simp add: platforms_of_def applyDefaults_def)
  ultimately have "fst ` set (platforms_of (eff_File (Resolve f existed fl g))) \<subseteq> insert ''litellm'' (fst ` set (platforms_of f))"
    using env_layer_platforms [of g' "\<lparr>eff_File = applyDefaults f, eff_prov = pr\<rparr>"] by simp
  moreover have "n \<in> fst ` set (platforms_of (eff_File (Resolve f existed fl g)))" by (rule image_eqI [OF _ assms(2)]) simp
  ultimately have "n = ''litellm'' \<or> n \<in> fst ` set (platforms_of f)" by blast
  then show ?thesis
  proof
    assume "n = ''litellm''"
    then show ?thesis by (simp add: knownPlatforms_def)
  next
    assume "n \<in> fst ` set (platforms_of f)"
    then show ?thesis by (elim imageE) (metis valid_platform_known [OF assms(1)] prod.collapse)
  qed
qed

text \<open>C23: The offline gates cover the start of the daemon.  When \<^verbatim>\<open>sloppy config validate\<close> accepts the
  configuration file and \<^verbatim>\<open>sloppy rules validate\<close> accepts every rules path of the effective
  configuration, whatever flags the daemon is given, building its engine can fail only on the
  key, the store or the price book, or on a rule of an enabled recipe whose condition does not
  compile, which neither gate tries.
\<close>

theorem validated_config_boots:
  assumes "snd (cmdConfig pc yaml marshal [''validate'', ''--config'', cfgPath]) = 0"
    and "effective_config pc yaml cfgPath given fv = Inr eff"
    and "list_all (\<lambda>p. snd (cmdRules pc [''validate'', p]) = 0) (f_Rules (eff_File eff))"
    and "snd (BuildEngine pc eff) = Inl e"
  shows "case e of
      BootKey _ \<Rightarrow> True | BootStore _ \<Rightarrow> True | BootPricebook _ \<Rightarrow> True
    | BootReconciler _ \<Rightarrow> (\<exists>recs r. RenderRecipes (pc_yaml pc) eff = Inr recs \<and> r \<in> set recs
        \<and> (\<forall>c. CompileCondition (pc_cel pc) (rule_When r) \<noteq> Inr c)) | _ \<Rightarrow> False"
proof -
  have "parse_args config_flags [''--config'', cfgPath] = Some ([(''config'', cfgPath), (''provenance'', ''false'')], [])"
    by (simp add: parse_args_def config_flags_def text_flag_def bool_flag_def split_flag_def Let_def)
  with assms(1) have "snd (config_validate pc yaml cfgPath) = 0" by (simp add: cmdConfig_def flag_text_def)
  then obtain f existed recs where v: "LoadFile yaml (fl_read (pc_files pc)) cfgPath = Inr (f, existed)" "Validate_file f = []"
      "RenderRecipes (pc_yaml pc) (Resolve f existed no_flags (Some (pc_env pc))) = Inr recs"
    by (auto simp: config_validate_def cli_config_def failed_def Let_def split: sum.splits if_splits)
  from assms(2) v(1) have eff: "eff = Resolve f existed (flag_overrides given fv) (Some (pc_env pc))" by (simp add: effective_config_def)
  have rec: "RenderRecipes (pc_yaml pc) eff = Inr recs"
    using v(3) unfolding eff RenderRecipes_def recipes_of_def recipePlatforms_def platforms_of_def
      Resolve_wiring [of f existed "flag_overrides given fv" "Some (pc_env pc)"] .
  obtain reg where reg: "BuildRegistry (pc_env pc) (pc_secret_files pc) eff = Inr reg"
    using wire_ok_iff [of _ "platforms_of (eff_File eff)"] Resolve_known [OF v(2)] unfolding eff BuildRegistry_def Let_def by blast
  have "f_Rules (eff_File eff) \<noteq> []" unfolding eff Resolve_File
    by (cases "fo_Rules (flag_overrides given fv)") (simp_all add: applyDefaults_def pick_def)
  with lenient_of_valid [OF assms(3)] obtain rs where rs:
    "loadRulesLenient (yl_Rule (pc_yaml pc)) (pc_files pc) (f_Rules (eff_File eff)) = Inr rs" "rs \<noteq> []"
    "list_all (\<lambda>r. Validate (pc_cel pc) r = None) rs" by blast
  have "\<exists>c. CompileCondition (pc_cel pc) (rule_When r) = Inr c" if "Validate (pc_cel pc) r = None" for r
    using that by (cases "CompileCondition (pc_cel pc) (rule_When r)") (simp_all add: Validate_def)
  with rs(3) have "list_all (\<lambda>r. \<exists>c. CompileCondition (pc_cel pc) (rule_When r) = Inr c) rs" by (simp add: list_all_iff)
  then have "\<exists>r \<in> set recs. \<forall>c. CompileCondition (pc_cel pc) (rule_When r) \<noteq> Inr c" if "NewReconciler (pc_cel pc) (rs @ recs) = Inl x" for x
    using that reconciler_compiles_iff [of "pc_cel pc" "rs @ recs"] by (auto simp: list_all_iff)
  then show ?thesis using assms(4) rs rec reg
    by (auto simp: BuildEngine_def boot_rules_def boot_engine_def Let_def split: sum.splits prod.splits)
qed

theorem validated_config_boots_witness:
  "\<exists>e. snd (BuildEngine (demo_cli\<lparr>pc_backends := (pc_backends demo_cli)\<lparr>bk_sqlite := \<lambda>_ _. Inl ''locked''\<rparr>\<rparr>)
      (Resolve Defaults False (flag_overrides {} demo_flags) (Some (pc_env demo_cli)))) = Inl e
     \<and> (\<forall>msg. e \<noteq> BootPlatform msg) \<and> (\<forall>msg. e \<noteq> BootRules msg) \<and> (\<forall>ps. e \<noteq> BootNoRules ps)"
proof -
  let ?pc = "demo_cli\<lparr>pc_backends := (pc_backends demo_cli)\<lparr>bk_sqlite := \<lambda>_ _. Inl ''locked''\<rparr>\<rparr>"
    and ?eff = "Resolve Defaults False (flag_overrides {} demo_flags) (Some (pc_env demo_cli))"
  have k: "sto_Kind (f_Store (eff_File ?eff)) = ''sqlite''"
    by (simp add: Resolve_File flag_overrides_def if_set_def pick_def Defaults_def applyDefaults_def zero_file_def dflt_def)
  obtain fs x where x: "BuildEngine ?pc ?eff = (fs, x)" by fastforce
  have "x \<noteq> Inr y" for y
  proof
    assume "x = Inr y"
    with x have "BuildEngine ?pc ?eff = (fs, Inr y)" by simp
    from this k show False by (rule BuildEngine_fields) simp
  qed
  then obtain e where b: "snd (BuildEngine ?pc ?eff) = Inl e" using x by (cases x) auto
  have l: "LoadFile yaml (fl_read (pc_files demo_cli)) ''sloppy.yaml'' = Inr (Defaults, False)" for yaml
    by (simp add: LoadFile_def demo_cli_def)
  have c: "effective_config ?pc yaml ''sloppy.yaml'' {} demo_flags = Inr ?eff" for yaml
    using l by (simp add: effective_config_def)
  have v: "Validate_file Defaults = []" by code_simp
  have p: "parse_args config_flags [''--config'', ''sloppy.yaml''] = Some ([(''config'', ''sloppy.yaml''), (''provenance'', ''false'')], [])"
    by code_simp
  have r: "RenderRecipes yl (Resolve Defaults False no_flags g) = Inr []" for yl g
    by (simp add: RenderRecipes_def recipes_of_def Resolve_def env_layer_def set_prov_def Defaults_def applyDefaults_def zero_file_def Let_def)
  have 1: "snd (cmdConfig ?pc yaml marshal [''validate'', ''--config'', ''sloppy.yaml'']) = 0" for yaml marshal
    by (simp add: cmdConfig_def p flag_text_def config_validate_def cli_config_def l v r Let_def)
  have fr: "f_Rules (eff_File ?eff) = [''rules'']"
    by (simp add: Resolve_File flag_overrides_def if_set_def pick_def Defaults_def applyDefaults_def zero_file_def)
  have 2: "snd (cmdRules ?pc [''validate'', ''rules'']) = 0"
    by (simp add: cmdRules_def demo_cli_def demo_process_def LoadRules_def rule_files_def demo_yaml_def ParseRules_def raw_actions_def
        Validate_def CompileCondition_def demo_cel_def IsKnownActionKind_iff KnownActionKinds_def ParseIntentBudget_def Let_def)
  have 3: "list_all (\<lambda>p. snd (cmdRules ?pc [''validate'', p]) = 0) (f_Rules (eff_File ?eff))" unfolding fr using 2 by simp
  have "(\<forall>msg. e \<noteq> BootPlatform msg) \<and> (\<forall>msg. e \<noteq> BootRules msg) \<and> (\<forall>ps. e \<noteq> BootNoRules ps)"
    by (insert validated_config_boots [OF 1 c 3 b], cases e) simp_all
  with b show ?thesis by blast
qed

text \<open>\<^verbatim>\<open>sloppy doctor\<close> drops the error of loading the configuration: with a file that does not decode
  it checks the zero configuration, in which no platform is enabled, and exits with zero when
  the rules and the database are in order, while the daemon refuses the same file.
\<close>

theorem doctor_passes_broken_config:
  assumes "fl_read (pc_files pc) ''sloppy.yaml'' = Contents b" and "yaml b = BadYaml err"
    and "pc_env pc ''SLOPPY_LITELLM_URL'' = []"
    and "ck_OK (CheckRules (yl_Rule (pc_yaml pc)) (pc_files pc) ''rules'')"
    and "ck_OK (CheckDB (bk_sqlite (pc_backends pc)) ''sloppy.db'')"
    and "ck_OK (CheckLedger (bk_sqlite (pc_backends pc)) (w_now (pc_world pc)) ''sloppy.db'')"
  shows "snd (cmdDoctor pc yaml get []) = 0
    \<and> (\<exists>e. main pc yaml lookup listen jerr ''sloppy.yaml'' given fv = ExitConfig e)"
proof
  let ?v = "[(''rules'', ''rules''), (''db'', ''sloppy.db''), (''config'', ''sloppy.yaml'')]"
  have p: "parse_args doctor_flags [] = Some (?v, [])" by code_simp
  have t: "flag_text ?v ''rules'' = ''rules''" "flag_text ?v ''db'' = ''sloppy.db''" "flag_text ?v ''config'' = ''sloppy.yaml''"
    by code_simp+
  have l: "LoadFile yaml (fl_read (pc_files pc)) ''sloppy.yaml'' = Inl (''config: sloppy.yaml: '' @ err)"
    using assms(1,2) by (simp add: LoadFile_def)
  have c: "platforms_of (eff_File (doctor_config pc yaml ''sloppy.yaml'')) = []"
    using l assms(1,3) by (simp add: doctor_config_def cli_config_def Resolve_def env_layer_def platforms_of_def applyDefaults_def zero_file_def Let_def)
  have k: "Kinds (Register NewRegistry Log) \<noteq> []"
  proof
    assume "Kinds (Register NewRegistry Log) = []"
    then have "set (map fst (Register NewRegistry Log)) = {}" unfolding Kinds_def by (metis set_sort set_empty)
    then show False using Log_supports [of ActionPage] by (simp add: KnownActionKinds_def)
  qed
  then have "ck_OK (CheckActuators (Kinds (Register NewRegistry Log)))" by (simp add: CheckActuators_def)
  then show "snd (cmdDoctor pc yaml get []) = 0"
    using assms(4-6) c by (simp add: cmdDoctor_def p t doctor_checks_def CheckPlatforms_def CheckLiteLLM_def BuildRegistry_def Let_def)
  show "\<exists>e. main pc yaml lookup listen jerr ''sloppy.yaml'' given fv = ExitConfig e"
    using l by (simp add: main_def effective_config_def)
qed

theorem doctor_passes_broken_config_witness:
  "snd (cmdDoctor (demo_cli\<lparr>pc_files := (pc_files demo_cli)\<lparr>fl_read :=
      (\<lambda>p. if p = ''sloppy.yaml'' then Contents ''platforms: ['' else Contents [])\<rparr>\<rparr>) (\<lambda>_. BadYaml ''did not find expected node content'')
      (\<lambda>_. Inr 200) []) = 0"
proof -
  let ?pc = "demo_cli\<lparr>pc_files := (pc_files demo_cli)\<lparr>fl_read :=
      (\<lambda>p. if p = ''sloppy.yaml'' then Contents ''platforms: ['' else Contents [])\<rparr>\<rparr>"
  have "ck_OK (CheckRules (yl_Rule (pc_yaml ?pc)) (pc_files ?pc) ''rules'')"
    by (simp add: CheckRules_def demo_cli_def demo_process_def LoadRules_def rule_files_def demo_yaml_def ParseRules_def raw_actions_def Let_def)
  moreover have "ck_OK (CheckDB (bk_sqlite (pc_backends ?pc)) ''sloppy.db'')"
    by (simp add: CheckDB_def demo_cli_def demo_process_def OpenSQLite_def exec_def fault_now_def Let_def next_tick_def set_db_def)
  moreover have "ck_OK (CheckLedger (bk_sqlite (pc_backends ?pc)) t ''sloppy.db'')" for t
    by (simp add: CheckLedger_def demo_cli_def demo_process_def OpenSQLite_def exec_def fault_now_def Let_def next_tick_def set_db_def
        sqlite_SpendSince_def query_def)
  ultimately show ?thesis
    by (intro doctor_passes_broken_config [THEN conjunct1]) (simp_all add: demo_cli_def demo_process_def)
qed
end
