(* ===== verification/Spec2Isabelle.thy ===== *)
theory Spec2Isabelle
  imports Governance Cli
begin

text \<open>
  A verification library for Sloppy Joe, a control loop that watches signals of LLM gateways,
  decides by rules, and applies signed, reversible remediations.

  \<^bold>\<open>The program.\<close>  A signal (\<^verbatim>\<open>core\<close>) reaches the engine (\<^verbatim>\<open>engine\<close>) over HTTP (\<^verbatim>\<open>ingest\<close>) or from the
  command line.  The reconciler (\<^verbatim>\<open>rules\<close>) evaluates the rules, hand-written or rendered from
  recipes (\<^verbatim>\<open>recipe\<close>), against the signal and the spend the ledger (\<^verbatim>\<open>ledger\<close>) reports.  For every
  intent of a rule that fires the engine claims its id in the store (\<^verbatim>\<open>state\<close>, on SQLite or
  Redis), signs it (\<^verbatim>\<open>intent\<close>), applies it through the actuator registry (\<^verbatim>\<open>actuator\<close>), schedules
  its revert and appends to the hash-chained audit log.  Metrics (\<^verbatim>\<open>metrics\<close>) count what happens.
  \<^verbatim>\<open>bootstrap\<close> builds all of this from the configuration (\<^verbatim>\<open>config\<close>) with tokens of the broker (\<^verbatim>\<open>secrets\<close>);
  \<^verbatim>\<open>ee\<close> guards the HTTP surface with API keys.  \<^verbatim>\<open>cmd/sloppyd\<close> is the daemon, \<^verbatim>\<open>cmd/sloppy\<close> the command
  line with \<^verbatim>\<open>doctor\<close>, \<^verbatim>\<open>replay\<close> and the scaffold.

  \<^bold>\<open>The standard library layer.\<close>
  \<^item> \<^verbatim>\<open>Prelude\<close>: byte strings, errors as sums, maps as association lists, 64-bit arithmetic.
  \<^item> \<^verbatim>\<open>GoStrings\<close>, \<^verbatim>\<open>GoEncoding\<close>: the functions of \<^verbatim>\<open>strings\<close> and \<^verbatim>\<open>strconv\<close> the code calls, hexadecimal, base64 and
    SHA-256, with their round trips.
  \<^item> \<^verbatim>\<open>GoFloat\<close>, \<^verbatim>\<open>GoTime\<close>: IEEE doubles as rationals with rounding, and durations, calendar and RFC 3339 texts.
  \<^item> \<^verbatim>\<open>GoJson\<close>, \<^verbatim>\<open>GoDecode\<close>: the JSON parser and printer, typed decoding into structs, the stream decoder under a
    body limit, and the round trip of strings and flat objects.

  \<^bold>\<open>The components.\<close>
  \<^item> \<^verbatim>\<open>Core\<close> (\<^verbatim>\<open>core/*.go\<close>), \<^verbatim>\<open>Metrics\<close> (\<^verbatim>\<open>metrics/metrics.go\<close>), \<^verbatim>\<open>Ledger\<close> (\<^verbatim>\<open>ledger/ledger.go\<close>): the vocabulary with
    ids and canonical bytes, the counters, the prices and spend windows.
  \<^item> \<^verbatim>\<open>Rules\<close> (\<^verbatim>\<open>rules/*.go\<close>): parsing, validation, the index by signal type; that the index changes no result,
    what a validated rule guarantees, that ids identify intents whose parts have no zero byte.
  \<^item> \<^verbatim>\<open>Signing\<close> (\<^verbatim>\<open>intent/*.go\<close>), \<^verbatim>\<open>AuditChain\<close> (\<^verbatim>\<open>state/audit.go\<close>): keys on disk, signatures of intents, the hash
    chain and its signed checkpoint; what a checkpoint detects and what it does not.
  \<^item> \<^verbatim>\<open>Store\<close> (\<^verbatim>\<open>state/store.go\<close>): the interface as a record of methods and its contract as the locale \<^verbatim>\<open>store\<close>
    over an abstract view (claimed ids, pending reverts, outstanding intents, log).
  \<^item> \<^verbatim>\<open>Sqlite\<close> (\<^verbatim>\<open>state/sqlite.go\<close>): the tables under an arbitrary schedule of driver failures; the interpretation of
    the contract, the at-most-once claim, the refinement of the view, verification of the log.
  \<^item> \<^verbatim>\<open>Redis\<close> (\<^verbatim>\<open>state/redis.go\<close>): every method over the commands of the client; appends under contention
    and what a failed read does to the chain.
  \<^item> \<^verbatim>\<open>Actuator\<close> (\<^verbatim>\<open>actuator/*.go\<close>): the registry and each actuator down to its HTTP request.
  \<^item> \<^verbatim>\<open>Engine\<close> (\<^verbatim>\<open>engine/engine.go\<close>): the control loop, every path of it, as state passing over a record.
    \<^verbatim>\<open>Handlers\<close> cuts the handling of an intent at its calls, interleaves handlers, and proves
    the gate, the specification of one application and of the revert scan.  \<^verbatim>\<open>Governance\<close> has
    budgets, windows and the fail-closed guard.
  \<^item> \<^verbatim>\<open>Access\<close> (\<^verbatim>\<open>ee/auth.go\<close>, \<^verbatim>\<open>secrets/broker.go\<close>, \<^verbatim>\<open>replay/replay.go\<close>): scopes, tokens, replay.
  \<^item> \<^verbatim>\<open>Config\<close> (\<^verbatim>\<open>config/file.go\<close>, \<^verbatim>\<open>effective.go\<close>, \<^verbatim>\<open>validate.go\<close>) and \<^verbatim>\<open>Loading\<close> (\<^verbatim>\<open>config/load.go\<close>): defaults, layers,
    validation; stores, rules and signals from disk.  \<^verbatim>\<open>Loading\<close> interprets the store contract
    for the opened store.
  \<^item> \<^verbatim>\<open>Recipe\<close> (\<^verbatim>\<open>recipe/recipe.go\<close> and its templates) and \<^verbatim>\<open>Bootstrap\<close> (\<^verbatim>\<open>bootstrap/bootstrap.go\<close>): from parameters to
    rules, from the configuration to the registry and the engine.
  \<^item> \<^verbatim>\<open>Ingest\<close> (\<^verbatim>\<open>ingest/http.go\<close>, \<^verbatim>\<open>otlp.go\<close>) and \<^verbatim>\<open>Daemon\<close> (\<^verbatim>\<open>cmd/sloppyd/main.go\<close>): requests, batches, the routes
    behind the authorizer; start-up with the bind guard, and serving as a sequence of requests
    and ticks.
  \<^item> \<^verbatim>\<open>Doctor\<close> (\<^verbatim>\<open>doctor/doctor.go\<close>), \<^verbatim>\<open>Terminal\<close> (flags and printed lines), \<^verbatim>\<open>Init\<close> (\<^verbatim>\<open>cmd/sloppy/init.go\<close>) and \<^verbatim>\<open>Cli\<close>
    (\<^verbatim>\<open>cmd/sloppy/main.go\<close>, \<^verbatim>\<open>config/render.go\<close>): diagnostics, the scaffold and every subcommand with its exit code.

  \<^bold>\<open>Properties that span components.\<close>  They stand in the theory where their last component does:
  concurrent handlers of an engine built from a configuration apply an intent at most once
  (\<^verbatim>\<open>Bootstrap\<close>); the log of a daemon verifies after any requests and ticks that meet no
  error of the database (\<^verbatim>\<open>Daemon\<close>); a request changes
  the engine only with the right scope (\<^verbatim>\<open>Ingest\<close>); what \<^verbatim>\<open>inject\<close> writes without such an error passes \<^verbatim>\<open>audit\<close>, and what the
  validation commands accept the daemon builds (\<^verbatim>\<open>Cli\<close>).

  \<^bold>\<open>What the properties do not cover.\<close>  Where a property holds only of a store without errors, of
  texts without separators or of one order of rules, a theorem beside it shows what happens
  otherwise: a lost read leaves a log that does not verify (\<^verbatim>\<open>Sqlite\<close>, \<^verbatim>\<open>Redis\<close>), zero bytes confuse the
  chain hash and the ids (\<^verbatim>\<open>AuditChain\<close>, \<^verbatim>\<open>Rules\<close>), a field marker in a target hides the signature
  (\<^verbatim>\<open>Signing\<close>), firings in the second at which a window starts are missed (\<^verbatim>\<open>Sqlite\<close>), equal usage records
  of one instant merge (\<^verbatim>\<open>Redis\<close>), credentials outside the platforms are not looked for (\<^verbatim>\<open>Config\<close>).

  \<^bold>\<open>Granularity.\<close>  Interleaved handlers take steps between the four parts of \<^verbatim>\<open>applyIntent\<close>; the daemon
  serves requests and ticks one after another, and the firings of a budget are checked one after
  another.  Redis appends interleave with other clients at every command.

  \<^bold>\<open>Parameters.\<close>  Code that is not in the repository is an argument with documented laws as
  hypotheses: the CEL compiler and evaluator, the YAML decoder and encoder, Ed25519 (locale
  \<^verbatim>\<open>ed25519_scheme\<close>), the HTTP peer of an actuator, the failures and the summation of the SQLite
  driver, the Redis client (atomic transactions, sorted sets), the resolver of host names, the
  listener.  Clock, environment and files are arguments too.  Every hypothesis is met by a
  concrete instance in a witness.

  \<^bold>\<open>Termination and fuel.\<close>  Every function is total: recursions that are not structural have a
  measure, and no fuel bounds any of them.  The only bounded loop is the code's own, the sixteen
  attempts of a Redis append.

  \<^bold>\<open>Not modelled.\<close>  The JSON schema of the configuration (\<^verbatim>\<open>config/schema.go\<close>, reflection for editors); the
  logger; the formatting of printed lines into columns; the texts of third-party errors;
  closing of stores and shutdown of goroutines, which have no result the code uses; expiry of
  Redis keys, which is the server's.  Cancellation of a context shows as an error of the store
  or of the peer.
\<close>

end
